theory Spec2Isabelle
  imports Main "HOL-Library.AList" "HOL-Library.Multiset"
begin

section \<open>JavaScript values used by the bot\<close>

text \<open>
  Numbers that the code uses as identifiers (Telegram ids, message ids, the store's surrogate
  ids) are integers well inside the exactly represented range of a JS number; they are
  modelled as \<open>int\<close> (Telegram's, which may be negative for groups) and \<open>nat\<close>
  (the store's counters, which start at 1 and only grow). A \<open>Date\<close> is its
  \<open>getTime()\<close> value. An optional or nullable field is an \<open>option\<close>.
  A string is the list of the bytes of its UTF-8 encoding: equality, emptiness and
  concatenation of strings are those of the byte lists, and a character outside ASCII
  is the sequence of its two to four bytes.
\<close>

type_synonym Date = int

text \<open>Truthiness of a \<open>string | null | undefined\<close>: the empty string is falsy.\<close>

definition truthy :: "string option \<Rightarrow> bool" where
  "truthy v = (case v of None \<Rightarrow> False | Some s \<Rightarrow> s \<noteq> [])"

text \<open>\<open>v || null\<close> on an optional string.\<close>

definition orNull :: "string option \<Rightarrow> string option" where
  "orNull v = (if truthy v then v else None)"

text \<open>\<open>v || d\<close> on an optional string with a string default.\<close>

definition orElse :: "string option \<Rightarrow> string \<Rightarrow> string" where
  "orElse v d = (case v of None \<Rightarrow> d | Some s \<Rightarrow> if s = [] then d else s)"

text \<open>\<open>Number.prototype.toString()\<close> on an integer: decimal digits, a leading minus sign.\<close>

definition digitChar :: "nat \<Rightarrow> char" where
  "digitChar d = ''0123456789'' ! d"

function digits :: "nat \<Rightarrow> string" where
  "digits n = (if n < 10 then [digitChar n] else digits (n div 10) @ [digitChar (n mod 10)])"
  by pat_completeness auto
termination
  by (relation "measure (\<lambda>n. n)") auto

declare digits.simps [simp del]

definition toString :: "int \<Rightarrow> string" where
  "toString i = (if i < 0 then CHR ''-'' # digits (nat (- i)) else digits (nat i))"

text \<open>
  \<open>parseInt(s)\<close> with no radix: leading white space is skipped, an optional sign is read,
  a \<open>0x\<close>/\<open>0X\<close> prefix selects radix 16, and the longest prefix of digits is read;
  \<open>None\<close> stands for \<open>NaN\<close> (no digit at all). The white space of the language is
  TAB, LF, VT, FF, CR, the space, U+00A0, U+1680, U+2000 to U+200A, U+2028, U+2029, U+202F,
  U+205F, U+3000 and U+FEFF, here each in its UTF-8 encoding. The digits are read
  exactly; the strings that the router parses are the decimal forms of message and user
  ids, and "0".
\<close>

definition whiteSpace :: "string list" where
  "whiteSpace =
     [[CHR 0x09], [CHR 0x0A], [CHR 0x0B], [CHR 0x0C], [CHR 0x0D], [CHR 0x20],
      [CHR 0xC2, CHR 0xA0],
      [CHR 0xE1, CHR 0x9A, CHR 0x80],
      [CHR 0xE2, CHR 0x80, CHR 0x80], [CHR 0xE2, CHR 0x80, CHR 0x81],
      [CHR 0xE2, CHR 0x80, CHR 0x82], [CHR 0xE2, CHR 0x80, CHR 0x83],
      [CHR 0xE2, CHR 0x80, CHR 0x84], [CHR 0xE2, CHR 0x80, CHR 0x85],
      [CHR 0xE2, CHR 0x80, CHR 0x86], [CHR 0xE2, CHR 0x80, CHR 0x87],
      [CHR 0xE2, CHR 0x80, CHR 0x88], [CHR 0xE2, CHR 0x80, CHR 0x89],
      [CHR 0xE2, CHR 0x80, CHR 0x8A],
      [CHR 0xE2, CHR 0x80, CHR 0xA8], [CHR 0xE2, CHR 0x80, CHR 0xA9],
      [CHR 0xE2, CHR 0x80, CHR 0xAF],
      [CHR 0xE2, CHR 0x81, CHR 0x9F],
      [CHR 0xE3, CHR 0x80, CHR 0x80],
      [CHR 0xEF, CHR 0xBB, CHR 0xBF]]"

function trimStart :: "string \<Rightarrow> string" where
  "trimStart s =
     (case find (\<lambda>ws. take (length ws) s = ws) whiteSpace of
        None \<Rightarrow> s
      | Some ws \<Rightarrow> trimStart (drop (length ws) s))"
  by pat_completeness auto
termination
proof (relation "measure length", goal_cases)
  case 1
  show ?case by simp
next
  case (2 s ws)
  then have m: "ws \<in> set whiteSpace" and t: "take (length ws) s = ws"
    by (auto simp: find_Some_iff)
  have "ws \<noteq> []" using m by (auto simp: whiteSpace_def)
  then have "s \<noteq> []" and "0 < length ws" using t by auto
  then show ?case by simp
qed

declare trimStart.simps [simp del]

definition digitValue :: "char \<Rightarrow> nat option" where
  "digitValue c = map_of (zip ''0123456789abcdef'' [0 ..< 16] @ zip ''ABCDEF'' [10 ..< 16]) c"

definition isDigitOf :: "nat \<Rightarrow> char \<Rightarrow> bool" where
  "isDigitOf radix c = (case digitValue c of None \<Rightarrow> False | Some d \<Rightarrow> d < radix)"

definition readDigits :: "nat \<Rightarrow> string \<Rightarrow> int option" where
  "readDigits radix s =
     (let ds = takeWhile (isDigitOf radix) s
      in if ds = [] then None
         else Some (foldl (\<lambda>acc c. acc * int radix + int (the (digitValue c))) 0 ds))"

definition readUnsigned :: "string \<Rightarrow> int option" where
  "readUnsigned s =
     (case s of
        c0 # cx # rest \<Rightarrow>
          if c0 = CHR ''0'' \<and> (cx = CHR ''x'' \<or> cx = CHR ''X'') then readDigits 16 rest
          else readDigits 10 s
      | _ \<Rightarrow> readDigits 10 s)"

definition parseInt :: "string \<Rightarrow> int option" where
  "parseInt s =
     (case trimStart s of
        [] \<Rightarrow> None
      | c # rest \<Rightarrow>
          if c = CHR ''-'' then map_option uminus (readUnsigned rest)
          else if c = CHR ''+'' then readUnsigned rest
          else readUnsigned (c # rest))"

section \<open>The schema: the four record kinds\<close>

text \<open>
  The insert types omit the server-assigned columns; the stored types add them, as the
  spread \<open>{ ...insertX, id, ... }\<close> does.
\<close>

record InsertUser =
  telegramId :: string
  username :: "string option"
  firstName :: string
  lastName :: "string option"
  languageCode :: "string option"
  isPremium :: "bool option"
  bio :: "string option"
  profilePhoto :: "string option"

record User = InsertUser +
  id_u :: nat
  joinedAt :: Date

record InsertConversation =
  telegramUserId :: string
  threadId :: "string option"
  status :: string

record Conversation = InsertConversation +
  id_c :: nat
  lastMessageAt :: Date
  createdAt :: Date

record InsertMessage =
  conversationId :: nat
  telegramMessageId :: "string option"
  senderId :: string
  senderType :: string
  senderName :: "string option"
  content :: "string option"
  mediaType :: "string option"
  mediaUrl :: "string option"

record Message = InsertMessage +
  id_m :: nat
  sentAt :: Date

record InsertSupportIssue =
  userId :: string
  conversationId_i :: nat
  title :: string
  status_i :: string
  assignedTo :: "string option"

record SupportIssue = InsertSupportIssue +
  id_i :: nat
  openedAt :: Date
  closedAt :: "Date option"

text \<open>
  A \<open>Partial<InsertX>\<close> is the list of the fields it carries; the empty object is the
  empty list. Spreading it over a record assigns each field in turn.
\<close>

datatype UserField =
    Set_telegramId string
  | Set_username "string option"
  | Set_firstName string
  | Set_lastName "string option"
  | Set_languageCode "string option"
  | Set_isPremium "bool option"
  | Set_bio "string option"
  | Set_profilePhoto "string option"

datatype ConversationField =
    Set_telegramUserId string
  | Set_threadId "string option"
  | Set_status string

fun spreadUserField :: "User \<Rightarrow> UserField \<Rightarrow> User" where
  "spreadUserField u (Set_telegramId v) = u\<lparr>telegramId := v\<rparr>"
| "spreadUserField u (Set_username v) = u\<lparr>username := v\<rparr>"
| "spreadUserField u (Set_firstName v) = u\<lparr>firstName := v\<rparr>"
| "spreadUserField u (Set_lastName v) = u\<lparr>lastName := v\<rparr>"
| "spreadUserField u (Set_languageCode v) = u\<lparr>languageCode := v\<rparr>"
| "spreadUserField u (Set_isPremium v) = u\<lparr>isPremium := v\<rparr>"
| "spreadUserField u (Set_bio v) = u\<lparr>bio := v\<rparr>"
| "spreadUserField u (Set_profilePhoto v) = u\<lparr>profilePhoto := v\<rparr>"

fun spreadConversationField :: "Conversation \<Rightarrow> ConversationField \<Rightarrow> Conversation" where
  "spreadConversationField c (Set_telegramUserId v) = c\<lparr>telegramUserId := v\<rparr>"
| "spreadConversationField c (Set_threadId v) = c\<lparr>threadId := v\<rparr>"
| "spreadConversationField c (Set_status v) = c\<lparr>status := v\<rparr>"

section \<open>MemStorage\<close>

text \<open>
  A JS \<open>Map<number, V>\<close> keeps its entries in insertion order; \<open>set\<close> on a key already
  present replaces the value in place, on a new key it appends. That is
  \<open>AList.update\<close> on an association list. \<open>Array.from(m.values())\<close> is the list of
  values in that order, and \<open>.find(p)\<close> is the first value satisfying \<open>p\<close>.
\<close>

type_synonym 'v JsMap = "(nat \<times> 'v) list"

definition Map_get :: "'v JsMap \<Rightarrow> nat \<Rightarrow> 'v option" where
  "Map_get m k = map_of m k"

definition Map_set :: "'v JsMap \<Rightarrow> nat \<Rightarrow> 'v \<Rightarrow> 'v JsMap" where
  "Map_set m k v = AList.update k v m"

definition Map_values :: "'v JsMap \<Rightarrow> 'v list" where
  "Map_values m = map snd m"

record MemStorage =
  users :: "User JsMap"
  conversations :: "Conversation JsMap"
  messages :: "Message JsMap"
  supportIssues :: "SupportIssue JsMap"
  currentIds_users :: nat
  currentIds_conversations :: nat
  currentIds_messages :: nat
  currentIds_supportIssues :: nat

text \<open>The constructor: four empty maps, every counter at 1.\<close>

definition MemStorage_new :: MemStorage where
  "MemStorage_new =
     \<lparr>users = [], conversations = [], messages = [], supportIssues = [],
      currentIds_users = 1, currentIds_conversations = 1,
      currentIds_messages = 1, currentIds_supportIssues = 1\<rparr>"

text \<open>
  Every method that calls \<open>new Date()\<close> takes the value read as a parameter \<open>now\<close>.
  A method returns its result together with the store it leaves.
\<close>

subsection \<open>User methods\<close>

definition getUser :: "MemStorage \<Rightarrow> nat \<Rightarrow> User option" where
  "getUser s i = Map_get (users s) i"

definition getUserByTelegramId :: "MemStorage \<Rightarrow> string \<Rightarrow> User option" where
  "getUserByTelegramId s tid = find (\<lambda>user. telegramId user = tid) (Map_values (users s))"

definition createUser :: "Date \<Rightarrow> InsertUser \<Rightarrow> MemStorage \<Rightarrow> User \<times> MemStorage" where
  "createUser now insertUser s =
     (let i = currentIds_users s;
          user = InsertUser.extend insertUser (User.fields i now)
      in (user, s\<lparr>currentIds_users := i + 1, users := Map_set (users s) i user\<rparr>))"

definition updateUser :: "nat \<Rightarrow> UserField list \<Rightarrow> MemStorage \<Rightarrow> User option \<times> MemStorage" where
  "updateUser i updates s =
     (case getUser s i of
        None \<Rightarrow> (None, s)
      | Some user \<Rightarrow>
          let updatedUser = foldl spreadUserField user updates
          in (Some updatedUser, s\<lparr>users := Map_set (users s) i updatedUser\<rparr>))"

subsection \<open>Conversation methods\<close>

definition getConversation :: "MemStorage \<Rightarrow> nat \<Rightarrow> Conversation option" where
  "getConversation s i = Map_get (conversations s) i"

definition getConversationByTelegramUserId :: "MemStorage \<Rightarrow> string \<Rightarrow> Conversation option" where
  "getConversationByTelegramUserId s tid =
     find (\<lambda>conversation. telegramUserId conversation = tid) (Map_values (conversations s))"

definition getConversationByThreadId :: "MemStorage \<Rightarrow> string \<Rightarrow> Conversation option" where
  "getConversationByThreadId s tid =
     find (\<lambda>conversation. threadId conversation = Some tid) (Map_values (conversations s))"

definition createConversation ::
  "Date \<Rightarrow> InsertConversation \<Rightarrow> MemStorage \<Rightarrow> Conversation \<times> MemStorage" where
  "createConversation now insertConversation s =
     (let i = currentIds_conversations s;
          conversation = InsertConversation.extend insertConversation (Conversation.fields i now now)
      in (conversation,
          s\<lparr>currentIds_conversations := i + 1,
            conversations := Map_set (conversations s) i conversation\<rparr>))"

definition updateConversation ::
  "Date \<Rightarrow> nat \<Rightarrow> ConversationField list \<Rightarrow> MemStorage \<Rightarrow> Conversation option \<times> MemStorage" where
  "updateConversation now i updates s =
     (case getConversation s i of
        None \<Rightarrow> (None, s)
      | Some conversation \<Rightarrow>
          let updatedConversation =
                (foldl spreadConversationField conversation updates)\<lparr>lastMessageAt := now\<rparr>
          in (Some updatedConversation,
              s\<lparr>conversations := Map_set (conversations s) i updatedConversation\<rparr>))"

text \<open>
  \<open>arr.slice(start)\<close> and \<open>arr.slice(0, end)\<close> on integer arguments: a negative
  index counts from the end, and both are clamped to the array.
\<close>

definition slice_from :: "int \<Rightarrow> 'a list \<Rightarrow> 'a list" where
  "slice_from start xs =
     (let len = int (length xs);
          k = (if start < 0 then max (len + start) 0 else min start len)
      in drop (nat k) xs)"

definition slice_to :: "int \<Rightarrow> 'a list \<Rightarrow> 'a list" where
  "slice_to end xs =
     (let len = int (length xs);
          k = (if end < 0 then max (len + end) 0 else min end len)
      in take (nat k) xs)"

text \<open>
  \<open>Array.prototype.sort\<close> is stable; with the comparator \<open>a.t - b.t\<close> it is
  \<open>sort_key t\<close>, with \<open>b.t - a.t\<close> it is \<open>sort_key (\<lambda>x. - t x)\<close>.
\<close>

definition listConversations :: "MemStorage \<Rightarrow> int \<Rightarrow> Conversation list" where
  "listConversations s limit =
     slice_to limit (sort_key (\<lambda>c. - lastMessageAt c) (Map_values (conversations s)))"

subsection \<open>Message methods\<close>

definition getMessage :: "MemStorage \<Rightarrow> nat \<Rightarrow> Message option" where
  "getMessage s i = Map_get (messages s) i"

text \<open>
  \<open>createMessage\<close> reads the clock twice: \<open>now\<close> for \<open>sentAt\<close>, and \<open>touched\<close>
  inside the \<open>updateConversation(conversation.id, {})\<close> that refreshes the parent.
\<close>

definition createMessage ::
  "Date \<Rightarrow> Date \<Rightarrow> InsertMessage \<Rightarrow> MemStorage \<Rightarrow> Message \<times> MemStorage" where
  "createMessage now touched insertMessage s =
     (let i = currentIds_messages s;
          message = InsertMessage.extend insertMessage (Message.fields i now);
          s1 = s\<lparr>currentIds_messages := i + 1, messages := Map_set (messages s) i message\<rparr>
      in case getConversation s1 (conversationId message) of
           None \<Rightarrow> (message, s1)
         | Some conversation \<Rightarrow>
             (message, snd (updateConversation touched (id_c conversation) [] s1)))"

definition getMessagesByConversationId :: "MemStorage \<Rightarrow> nat \<Rightarrow> int \<Rightarrow> Message list" where
  "getMessagesByConversationId s cid limit =
     slice_from (- limit)
       (sort_key sentAt
          (filter (\<lambda>message. conversationId message = cid) (Map_values (messages s))))"

subsection \<open>Support issue methods\<close>

definition getSupportIssue :: "MemStorage \<Rightarrow> nat \<Rightarrow> SupportIssue option" where
  "getSupportIssue s i = Map_get (supportIssues s) i"

definition getSupportIssueByConversationId :: "MemStorage \<Rightarrow> nat \<Rightarrow> SupportIssue option" where
  "getSupportIssueByConversationId s cid =
     find (\<lambda>issue. conversationId_i issue = cid) (Map_values (supportIssues s))"

definition createSupportIssue ::
  "Date \<Rightarrow> InsertSupportIssue \<Rightarrow> MemStorage \<Rightarrow> SupportIssue \<times> MemStorage" where
  "createSupportIssue now insertIssue s =
     (let i = currentIds_supportIssues s;
          issue = InsertSupportIssue.extend insertIssue (SupportIssue.fields i now None)
      in (issue,
          s\<lparr>currentIds_supportIssues := i + 1,
            supportIssues := Map_set (supportIssues s) i issue\<rparr>))"

definition listSupportIssuesByUserId :: "MemStorage \<Rightarrow> string \<Rightarrow> SupportIssue list" where
  "listSupportIssuesByUserId s uid =
     sort_key (\<lambda>i. - openedAt i) (filter (\<lambda>issue. userId issue = uid) (Map_values (supportIssues s)))"

subsection \<open>The store's identifier discipline\<close>

text \<open>
  Every key of a map is the \<open>id\<close> of the record stored under it and lies below the
  kind's counter, and no key occurs twice. The constructor establishes this and every
  method keeps it.
\<close>

definition keysOf :: "'v JsMap \<Rightarrow> nat list" where
  "keysOf m = map fst m"

definition mapOk :: "('v \<Rightarrow> nat) \<Rightarrow> nat \<Rightarrow> 'v JsMap \<Rightarrow> bool" where
  "mapOk ident next m =
     (distinct (keysOf m) \<and> list_all (\<lambda>kv. fst kv < next \<and> ident (snd kv) = fst kv) m)"

definition storageOk :: "MemStorage \<Rightarrow> bool" where
  "storageOk s =
     (mapOk id_u (currentIds_users s) (users s) \<and>
      mapOk id_c (currentIds_conversations s) (conversations s) \<and>
      mapOk id_m (currentIds_messages s) (messages s) \<and>
      mapOk id_i (currentIds_supportIssues s) (supportIssues s))"

section \<open>The messaging gateway and the router's world\<close>

text \<open>
  The parts of \<open>TelegramBot.User\<close> and \<open>TelegramBot.Message\<close> that the router reads.
  A \<open>PhotoSize\<close>, \<open>Document\<close>, \<open>Video\<close>, \<open>Audio\<close> or \<open>Voice\<close> is
  represented by its \<open>file_id\<close>, the only field read, and \<open>reply_to_message\<close> by
  the \<open>message_id\<close> of the message replied to. \<open>from\<close> and \<open>text\<close> are keywords of
  the proof language, hence \<open>from_user\<close> and \<open>text_m\<close>.
\<close>

record TgUser =
  id_tg :: int
  first_name :: string
  last_name :: "string option"
  username_tg :: "string option"
  language_code :: "string option"
  is_premium :: "bool option"

record TgMessage =
  message_id :: int
  from_user :: "TgUser option"
  chat_id :: int
  text_m :: "string option"
  caption :: "string option"
  photo :: "string list option"
  document :: "string option"
  video :: "string option"
  audio :: "string option"
  voice :: "string option"
  reply_to_message :: "int option"

record WebhookUpdate =
  update_id :: int
  message :: "TgMessage option"
  edited_message :: "TgMessage option"
  channel_post :: "TgMessage option"
  edited_channel_post :: "TgMessage option"

text \<open>
  Every call on \<open>bot\<close> is recorded, in order, with its arguments, whether or not the
  gateway then accepts it. A chat is addressed by a number or by a string.
\<close>

datatype ChatId = ChatNum int | ChatStr string

text \<open>
  In \<open>reply_to_message_id\<close> the outer \<open>None\<close> is an absent option and \<open>Some None\<close>
  is \<open>NaN\<close>.
\<close>

record SendOptions =
  reply_to_message_id :: "int option option"
  parse_mode :: "string option"
  caption_opt :: "string option"

definition noOptions :: SendOptions where
  "noOptions = \<lparr>reply_to_message_id = None, parse_mode = None, caption_opt = None\<rparr>"

datatype BotCall =
    SendMessage ChatId string SendOptions
  | GetUserProfilePhotos "int option" int int
  | GetFileLink string
  | CreateForumTopic ChatId string
  | SendPhoto ChatId string SendOptions
  | SendDocument ChatId string SendOptions
  | SendVideo ChatId string SendOptions

text \<open>
  The process state: the store, the module variable \<open>supportGroupId\<close> and the calls made
  on the gateway so far.
\<close>

record World =
  storage :: MemStorage
  supportGroupId :: "string option"
  botCalls :: "BotCall list"

definition initialWorld :: World where
  "initialWorld = \<lparr>storage = MemStorage_new, supportGroupId = None, botCalls = []\<rparr>"

definition setSupportGroupId :: "string \<Rightarrow> World \<Rightarrow> World" where
  "setSupportGroupId groupId w = w\<lparr>supportGroupId := Some groupId\<rparr>"

definition getSupportGroupId :: "World \<Rightarrow> string option" where
  "getSupportGroupId w = supportGroupId w"

definition call :: "BotCall \<Rightarrow> World \<Rightarrow> World" where
  "call c w = w\<lparr>botCalls := botCalls w @ [c]\<rparr>"

text \<open>
  What the outside world answers while one event is processed: the value of each
  \<open>new Date()\<close>, and for each awaited gateway call whether the promise is fulfilled
  (and with what) or rejected (\<open>None\<close>, \<open>False\<close>). Each field belongs to one call site
  of a handler.
\<close>

record Env =
  at_createUser :: Date
  at_createConversation :: Date
  at_createMessage :: Date
  at_touchConversation :: Date
  at_threadUpdate :: Date
  at_createIssue :: Date
  dateJoinedText :: string
  welcomeSent :: bool
  userProfilePhotos :: "string list list option"
  fileLink :: "string option"
  threadMessageId :: "int option"
  forumTopicCreated :: bool
  textForwarded :: bool
  mediaForwarded :: bool

text \<open>An awaited computation is fulfilled with a value or rejected (an exception).\<close>

datatype 'a Promise = Fulfilled 'a | Rejected

section \<open>The conversation router\<close>

subsection \<open>Media helpers\<close>

definition getMediaType :: "TgMessage \<Rightarrow> string option" where
  "getMediaType m =
     (if photo m \<noteq> None then Some ''photo''
      else if document m \<noteq> None then Some ''document''
      else if video m \<noteq> None then Some ''video''
      else if audio m \<noteq> None then Some ''audio''
      else if voice m \<noteq> None then Some ''voice''
      else None)"

text \<open>
  \<open>message.photo[message.photo.length - 1].file_id\<close> on an empty array reads a property
  of \<open>undefined\<close>: a \<open>TypeError\<close>.
\<close>

definition getFileId :: "TgMessage \<Rightarrow> string option Promise" where
  "getFileId m =
     (case photo m of
        Some sizes \<Rightarrow> (if sizes = [] then Rejected else Fulfilled (Some (last sizes)))
      | None \<Rightarrow>
          if document m \<noteq> None then Fulfilled (document m)
          else if video m \<noteq> None then Fulfilled (video m)
          else if audio m \<noteq> None then Fulfilled (audio m)
          else if voice m \<noteq> None then Fulfilled (voice m)
          else Fulfilled None)"

definition getMediaUrl :: "TgMessage \<Rightarrow> string option Promise" where
  "getMediaUrl m = getFileId m"

definition hasMedia :: "TgMessage \<Rightarrow> bool" where
  "hasMedia m =
     (photo m \<noteq> None \<or> document m \<noteq> None \<or> video m \<noteq> None \<or> audio m \<noteq> None \<or> voice m \<noteq> None)"

subsection \<open>Texts\<close>

text \<open>The waving hand and the telephone are written as their UTF-8 bytes.\<close>

definition welcomeText :: string where
  "welcomeText =
     [CHR 0xF0, CHR 0x9F, CHR 0x91, CHR 0x8B] @
     '' Welcome to our support bot! How can I help you today?''"

definition senderNameOf :: "TgUser \<Rightarrow> string" where
  "senderNameOf f = first_name f @ (if truthy (last_name f) then '' '' @ the (last_name f) else [])"

definition userInfoText :: "Env \<Rightarrow> TgUser \<Rightarrow> string \<Rightarrow> string" where
  "userInfoText env f tid =
     [CHR 0x0A, CHR 0xF0, CHR 0x9F, CHR 0x93, CHR 0xB1] @ '' <b>New Support Request</b>'' @
     [CHR 0x0A, CHR 0x0A] @
     ''<b>User:</b> '' @ first_name f @ '' '' @ orElse (last_name f) [] @ [CHR 0x0A] @
     ''<b>Username:</b> '' @
       (if truthy (username_tg f) then ''@'' @ the (username_tg f) else ''Not set'') @ [CHR 0x0A] @
     ''<b>User ID:</b> '' @ tid @ [CHR 0x0A] @
     ''<b>Language:</b> '' @ orElse (language_code f) ''Unknown'' @ [CHR 0x0A] @
     ''<b>Premium:</b> '' @ (if is_premium f = Some True then ''Yes'' else ''No'') @ [CHR 0x0A] @
     ''<b>Date Joined:</b> '' @ dateJoinedText env @ [CHR 0x0A] @ ''      ''"

definition boldPrefix :: "TgUser \<Rightarrow> string \<Rightarrow> string" where
  "boldPrefix f rest = ''<b>'' @ first_name f @ '':</b> '' @ rest"

definition threadOptions :: "Conversation \<Rightarrow> SendOptions" where
  "threadOptions conversation =
     \<lparr>reply_to_message_id = Some (parseInt (orElse (threadId conversation) ''0'')),
      parse_mode = Some ''HTML'', caption_opt = None\<rparr>"

subsection \<open>handleUserDirectMessage\<close>

text \<open>
  The handler is one sequence of awaited steps; a rejected step ends it, leaving the store
  writes and gateway calls made so far. It is cut here into its blocks, each named after
  what the source's comment says it does. The \<open>insertXSchema.parse\<close> calls validate
  objects that the handler has just built with every required field of the right type
  and return them unchanged.
\<close>

definition userData :: "TgUser \<Rightarrow> string \<Rightarrow> InsertUser" where
  "userData f tid =
     \<lparr>telegramId = tid,
      username = orNull (username_tg f),
      firstName = first_name f,
      lastName = orNull (last_name f),
      languageCode = orNull (language_code f),
      isPremium = Some (is_premium f = Some True),
      bio = None,
      profilePhoto = None\<rparr>"

text \<open>Get or create user, and welcome a new one.\<close>

definition getOrCreateUser :: "Env \<Rightarrow> TgMessage \<Rightarrow> TgUser \<Rightarrow> World \<Rightarrow> User Promise \<times> World" where
  "getOrCreateUser env m f w =
     (let tid = toString (id_tg f)
      in case getUserByTelegramId (storage w) tid of
           Some user \<Rightarrow> (Fulfilled user, w)
         | None \<Rightarrow>
             let (user, s1) = createUser (at_createUser env) (userData f tid) (storage w);
                 w1 = call (SendMessage (ChatNum (chat_id m)) welcomeText noOptions)
                        (w\<lparr>storage := s1\<rparr>)
             in if welcomeSent env then (Fulfilled user, w1) else (Rejected, w1))"

definition conversationData :: "string \<Rightarrow> InsertConversation" where
  "conversationData tid = \<lparr>telegramUserId = tid, threadId = None, status = ''open''\<rparr>"

text \<open>Get or create conversation.\<close>

definition getOrCreateConversation :: "Env \<Rightarrow> string \<Rightarrow> World \<Rightarrow> Conversation \<times> World" where
  "getOrCreateConversation env tid w =
     (case getConversationByTelegramUserId (storage w) tid of
        Some conversation \<Rightarrow> (conversation, w)
      | None \<Rightarrow>
          let (conversation, s1) =
                createConversation (at_createConversation env) (conversationData tid) (storage w)
          in (conversation, w\<lparr>storage := s1\<rparr>))"

text \<open>
  Store the message. The object literal evaluates \<open>getMediaType\<close> and then
  \<open>getMediaUrl\<close>; the latter may throw, before anything is stored.
\<close>

definition messageData ::
  "nat \<Rightarrow> string \<Rightarrow> string \<Rightarrow> TgMessage \<Rightarrow> TgUser \<Rightarrow> InsertMessage Promise" where
  "messageData cid sid stype m f =
     (case getMediaUrl m of
        Rejected \<Rightarrow> Rejected
      | Fulfilled url \<Rightarrow>
          Fulfilled
            \<lparr>conversationId = cid,
             telegramMessageId = Some (toString (message_id m)),
             senderId = sid,
             senderType = stype,
             senderName = Some (senderNameOf f),
             content = orNull (text_m m),
             mediaType = getMediaType m,
             mediaUrl = url\<rparr>)"

definition storeMessage :: "Env \<Rightarrow> InsertMessage Promise \<Rightarrow> World \<Rightarrow> unit Promise \<times> World" where
  "storeMessage env md w =
     (case md of
        Rejected \<Rightarrow> (Rejected, w)
      | Fulfilled validatedMessage \<Rightarrow>
          (Fulfilled (),
           w\<lparr>storage :=
               snd (createMessage (at_createMessage env) (at_touchConversation env)
                      validatedMessage (storage w))\<rparr>))"

text \<open>
  Get the user's profile photo if available; every failure inside the \<open>try\<close> is caught
  and logged, so the block always completes.
\<close>

definition fetchProfilePhoto :: "Env \<Rightarrow> string \<Rightarrow> User \<Rightarrow> World \<Rightarrow> World" where
  "fetchProfilePhoto env tid user w =
     (let w1 = call (GetUserProfilePhotos (parseInt tid) 0 1) w
      in case userProfilePhotos env of
           None \<Rightarrow> w1
         | Some photos \<Rightarrow>
             (case photos of
                [] \<Rightarrow> w1
              | sizes # _ \<Rightarrow>
                  (case sizes of
                     [] \<Rightarrow> w1
                   | file_id # _ \<Rightarrow>
                       let w2 = call (GetFileLink file_id) w1
                       in case fileLink env of
                            None \<Rightarrow> w2
                          | Some link \<Rightarrow>
                              w2\<lparr>storage :=
                                   snd (updateUser (id_u user) [Set_profilePhoto (Some link)]
                                          (storage w2))\<rparr>)))"

definition issueData :: "string \<Rightarrow> Conversation \<Rightarrow> InsertSupportIssue" where
  "issueData tid conversation =
     \<lparr>userId = tid, conversationId_i = id_c conversation, title = ''New Support Request'',
      status_i = ''pending'', assignedTo = None\<rparr>"

text \<open>
  Create the thread if the conversation has none: the profile photo, the introduction
  message (awaited outside any \<open>try\<close>), then inside a \<open>try\<close> the forum topic, the
  thread reference on the conversation and the support issue. The block yields the
  handler's local \<open>conversation\<close>.
\<close>

definition createThread ::
  "Env \<Rightarrow> string \<Rightarrow> TgUser \<Rightarrow> string \<Rightarrow> User \<Rightarrow> Conversation \<Rightarrow> World
     \<Rightarrow> Conversation Promise \<times> World" where
  "createThread env g f tid user conversation w =
     (if truthy (threadId conversation) then (Fulfilled conversation, w)
      else
        let w1 = fetchProfilePhoto env tid user w;
            w2 = call (SendMessage (ChatStr g) (userInfoText env f tid)
                         \<lparr>reply_to_message_id = None, parse_mode = Some ''HTML'',
                          caption_opt = None\<rparr>) w1
        in case threadMessageId env of
             None \<Rightarrow> (Rejected, w2)
           | Some threadMessage_id \<Rightarrow>
               let w3 = call (CreateForumTopic (ChatStr g) (first_name f)) w2
               in if forumTopicCreated env then
                    let s4 = snd (updateConversation (at_threadUpdate env) (id_c conversation)
                                    [Set_threadId (Some (toString threadMessage_id))] (storage w3));
                        conversation' = conversation\<lparr>threadId := Some (toString threadMessage_id)\<rparr>;
                        s5 = snd (createSupportIssue (at_createIssue env)
                                    (issueData tid conversation') s4)
                    in (Fulfilled conversation', w3\<lparr>storage := s5\<rparr>)
                  else (Fulfilled conversation, w3))"

text \<open>Forward the message text to the support group thread.\<close>

definition forwardText ::
  "Env \<Rightarrow> string \<Rightarrow> TgMessage \<Rightarrow> TgUser \<Rightarrow> Conversation \<Rightarrow> World \<Rightarrow> unit Promise \<times> World" where
  "forwardText env g m f conversation w =
     (if truthy (text_m m) then
        let w1 = call (SendMessage (ChatStr g) (boldPrefix f (the (text_m m)))
                         (threadOptions conversation)) w
        in if textForwarded env then (Fulfilled (), w1) else (Rejected, w1)
      else (Fulfilled (), w))"

text \<open>Forward media if present.\<close>

definition forwardMedia ::
  "Env \<Rightarrow> string \<Rightarrow> TgMessage \<Rightarrow> TgUser \<Rightarrow> Conversation \<Rightarrow> World \<Rightarrow> unit Promise \<times> World" where
  "forwardMedia env g m f conversation w =
     (if hasMedia m then
        case getFileId m of
          Rejected \<Rightarrow> (Rejected, w)
        | Fulfilled fileId \<Rightarrow>
            if truthy fileId then
              let opts = (threadOptions conversation)
                           \<lparr>caption_opt := Some (boldPrefix f (orElse (caption m) []))\<rparr>;
                  sent = (\<lambda>c. if mediaForwarded env then (Fulfilled (), call c w)
                               else (Rejected, call c w))
              in if photo m \<noteq> None then sent (SendPhoto (ChatStr g) (the fileId) opts)
                 else if document m \<noteq> None then sent (SendDocument (ChatStr g) (the fileId) opts)
                 else if video m \<noteq> None then sent (SendVideo (ChatStr g) (the fileId) opts)
                 else (Fulfilled (), w)
            else (Fulfilled (), w)
      else (Fulfilled (), w))"

text \<open>Forward the message to the support group, when one is configured.\<close>

definition forwardToSupport ::
  "Env \<Rightarrow> TgMessage \<Rightarrow> TgUser \<Rightarrow> string \<Rightarrow> User \<Rightarrow> Conversation \<Rightarrow> World
     \<Rightarrow> unit Promise \<times> World" where
  "forwardToSupport env m f tid user conversation w =
     (if truthy (supportGroupId w) then
        let g = the (supportGroupId w)
        in case createThread env g f tid user conversation w of
             (Rejected, w1) \<Rightarrow> (Rejected, w1)
           | (Fulfilled conversation', w1) \<Rightarrow>
               (case forwardText env g m f conversation' w1 of
                  (Rejected, w2) \<Rightarrow> (Rejected, w2)
                | (Fulfilled _, w2) \<Rightarrow> forwardMedia env g m f conversation' w2)
      else (Fulfilled (), w))"

definition handleUserDirectMessage :: "Env \<Rightarrow> TgMessage \<Rightarrow> World \<Rightarrow> unit Promise \<times> World" where
  "handleUserDirectMessage env m w =
     (case from_user m of
        None \<Rightarrow> (Fulfilled (), w)
      | Some f \<Rightarrow>
          let tid = toString (id_tg f)
          in case getOrCreateUser env m f w of
               (Rejected, w1) \<Rightarrow> (Rejected, w1)
             | (Fulfilled user, w1) \<Rightarrow>
                 let (conversation, w2) = getOrCreateConversation env tid w1
                 in case storeMessage env (messageData (id_c conversation) tid ''user'' m f) w2 of
                      (Rejected, w3) \<Rightarrow> (Rejected, w3)
                    | (Fulfilled _, w3) \<Rightarrow> forwardToSupport env m f tid user conversation w3)"

subsection \<open>handleSupportGroupMessage\<close>

text \<open>Forward the admin's text, then the admin's media, to the user.\<close>

definition forwardTextToUser ::
  "Env \<Rightarrow> string \<Rightarrow> TgMessage \<Rightarrow> World \<Rightarrow> unit Promise \<times> World" where
  "forwardTextToUser env userTelegramId m w =
     (if truthy (text_m m) then
        let w1 = call (SendMessage (ChatStr userTelegramId) (the (text_m m)) noOptions) w
        in if textForwarded env then (Fulfilled (), w1) else (Rejected, w1)
      else (Fulfilled (), w))"

definition forwardMediaToUser ::
  "Env \<Rightarrow> string \<Rightarrow> TgMessage \<Rightarrow> World \<Rightarrow> unit Promise \<times> World" where
  "forwardMediaToUser env userTelegramId m w =
     (if hasMedia m then
        case getFileId m of
          Rejected \<Rightarrow> (Rejected, w)
        | Fulfilled fileId \<Rightarrow>
            if truthy fileId then
              let opts = noOptions\<lparr>caption_opt := caption m\<rparr>;
                  sent = (\<lambda>c. if mediaForwarded env then (Fulfilled (), call c w)
                               else (Rejected, call c w))
              in if photo m \<noteq> None then sent (SendPhoto (ChatStr userTelegramId) (the fileId) opts)
                 else if document m \<noteq> None then
                   sent (SendDocument (ChatStr userTelegramId) (the fileId) opts)
                 else if video m \<noteq> None then
                   sent (SendVideo (ChatStr userTelegramId) (the fileId) opts)
                 else (Fulfilled (), w)
            else (Fulfilled (), w)
      else (Fulfilled (), w))"

definition handleSupportGroupMessage :: "Env \<Rightarrow> TgMessage \<Rightarrow> World \<Rightarrow> unit Promise \<times> World" where
  "handleSupportGroupMessage env m w =
     (case from_user m of
        None \<Rightarrow> (Fulfilled (), w)
      | Some f \<Rightarrow>
          (case reply_to_message m of
             None \<Rightarrow> (Fulfilled (), w)
           | Some replied_id \<Rightarrow>
               let replyToMsgId = toString replied_id
               in case getConversationByThreadId (storage w) replyToMsgId of
                    None \<Rightarrow> (Fulfilled (), w)
                  | Some conversation \<Rightarrow>
                      (case storeMessage env
                              (messageData (id_c conversation) (toString (id_tg f)) ''admin'' m f) w of
                         (Rejected, w1) \<Rightarrow> (Rejected, w1)
                       | (Fulfilled _, w1) \<Rightarrow>
                           let userTelegramId = telegramUserId conversation
                           in case forwardTextToUser env userTelegramId m w1 of
                                (Rejected, w2) \<Rightarrow> (Rejected, w2)
                              | (Fulfilled _, w2) \<Rightarrow> forwardMediaToUser env userTelegramId m w2)))"

subsection \<open>Dispatch\<close>

definition isSupportGroupMessage :: "TgMessage \<Rightarrow> World \<Rightarrow> bool" where
  "isSupportGroupMessage m w =
     (truthy (supportGroupId w) \<and> Some (toString (chat_id m)) = supportGroupId w)"

definition handleIncomingMessage :: "Env \<Rightarrow> TgMessage \<Rightarrow> World \<Rightarrow> unit Promise \<times> World" where
  "handleIncomingMessage env m w =
     (if isSupportGroupMessage m w then handleSupportGroupMessage env m w
      else handleUserDirectMessage env m w)"

text \<open>
  \<open>processUpdate\<close> acts on \<open>update.message\<close> only and catches (and logs) whatever
  the handler throws: it always completes, with the world the handler left.
\<close>

definition processUpdate :: "Env \<Rightarrow> WebhookUpdate \<Rightarrow> World \<Rightarrow> World" where
  "processUpdate env update w =
     (case message update of
        Some m \<Rightarrow> snd (handleIncomingMessage env m w)
      | None \<Rightarrow> w)"

section \<open>Notions used to state the properties\<close>

text \<open>The stored messages of one conversation, in the order they were stored.\<close>

definition conversationMessages :: "MemStorage \<Rightarrow> nat \<Rightarrow> Message list" where
  "conversationMessages s cid =
     filter (\<lambda>message. conversationId message = cid) (Map_values (messages s))"

text \<open>
  Three kinds of gateway call that the properties count: the welcome to a chat, a media
  send, and a text sent into the group \<open>g\<close> as a reply (the introduction of a new
  thread is sent into the group too, but not as a reply).
\<close>

fun isWelcome :: "BotCall \<Rightarrow> bool" where
  "isWelcome (SendMessage (ChatNum _) t opts) = (t = welcomeText \<and> opts = noOptions)"
| "isWelcome _ = False"

fun isMediaForward :: "BotCall \<Rightarrow> bool" where
  "isMediaForward (SendPhoto _ _ _) = True"
| "isMediaForward (SendDocument _ _ _) = True"
| "isMediaForward (SendVideo _ _ _) = True"
| "isMediaForward _ = False"

fun isTextForward :: "string \<Rightarrow> BotCall \<Rightarrow> bool" where
  "isTextForward g (SendMessage (ChatStr g') _ opts) = (g' = g \<and> reply_to_message_id opts \<noteq> None)"
| "isTextForward _ _ = False"

text \<open>
  What the router keeps true of the world: the store's identifier discipline; every
  conversation belongs to a stored user; every support issue is bound to a conversation
  that has a thread reference.
\<close>

definition routerOk :: "World \<Rightarrow> bool" where
  "routerOk w =
     (storageOk (storage w) \<and>
      list_all (\<lambda>c. telegramUserId c \<in> set (map telegramId (Map_values (users (storage w)))))
        (Map_values (conversations (storage w))) \<and>
      list_all (\<lambda>i. list_ex (\<lambda>c. id_c c = conversationId_i i \<and> truthy (threadId c))
                              (Map_values (conversations (storage w))))
        (Map_values (supportIssues (storage w))))"

text \<open>
  The worlds inside the thread block of the user handler: after the introduction message,
  after the forum topic request, and the store after the thread reference and the support
  issue are recorded.
\<close>

definition introduced :: "Env \<Rightarrow> string \<Rightarrow> TgUser \<Rightarrow> string \<Rightarrow> User \<Rightarrow> World \<Rightarrow> World" where
  "introduced env g f tid user w =
     call (SendMessage (ChatStr g) (userInfoText env f tid)
             \<lparr>reply_to_message_id = None, parse_mode = Some ''HTML'', caption_opt = None\<rparr>)
       (fetchProfilePhoto env tid user w)"

definition topicRequested :: "Env \<Rightarrow> string \<Rightarrow> TgUser \<Rightarrow> string \<Rightarrow> User \<Rightarrow> World \<Rightarrow> World" where
  "topicRequested env g f tid user w =
     call (CreateForumTopic (ChatStr g) (first_name f)) (introduced env g f tid user w)"

definition threadRecorded :: "Env \<Rightarrow> string \<Rightarrow> Conversation \<Rightarrow> int \<Rightarrow> MemStorage \<Rightarrow> MemStorage" where
  "threadRecorded env tid conversation mid s =
     snd (createSupportIssue (at_createIssue env)
            (issueData tid (conversation\<lparr>threadId := Some (toString mid)\<rparr>))
            (snd (updateConversation (at_threadUpdate env) (id_c conversation)
                    [Set_threadId (Some (toString mid))] s)))"

text \<open>
  The conversation that the router resolves for an external user id, if any, has no thread
  reference (a falsy one: null or empty).
\<close>

definition unthreaded :: "MemStorage \<Rightarrow> string \<Rightarrow> bool" where
  "unthreaded s tid =
     (case getConversationByTelegramUserId s tid of
        None \<Rightarrow> True
      | Some c \<Rightarrow> \<not> truthy (threadId c))"

text \<open>The support issues bound to the conversation with identifier \<open>cid\<close>.\<close>

definition issuesOf :: "MemStorage \<Rightarrow> nat \<Rightarrow> SupportIssue list" where
  "issuesOf s cid = filter (\<lambda>issue. conversationId_i issue = cid) (Map_values (supportIssues s))"

text \<open>Some stored conversation has the identifier \<open>cid\<close> and a thread reference.\<close>

definition threadedId :: "MemStorage \<Rightarrow> nat \<Rightarrow> bool" where
  "threadedId s cid =
     list_ex (\<lambda>c. id_c c = cid \<and> truthy (threadId c)) (Map_values (conversations s))"

text \<open>A sequence of webhook deliveries, each with the answers of the outside world.\<close>

fun processUpdates :: "(Env \<times> WebhookUpdate) list \<Rightarrow> World \<Rightarrow> World" where
  "processUpdates [] w = w"
| "processUpdates (eu # rest) w = processUpdates rest (processUpdate (fst eu) (snd eu) w)"

section \<open>Sample data\<close>

text \<open>Concrete users, messages, stores and answers of the outside world, used to run the model.\<close>

definition aliceData :: InsertUser where
  "aliceData =
     \<lparr>telegramId = ''111'', username = None, firstName = ''Alice'', lastName = None,
      languageCode = Some ''en'', isPremium = Some False, bio = None, profilePhoto = None\<rparr>"

definition storeAlice :: MemStorage where
  "storeAlice = snd (createUser 1000 aliceData MemStorage_new)"

definition storeAliceConversation :: MemStorage where
  "storeAliceConversation =
     snd (createConversation 1001
            \<lparr>telegramUserId = ''111'', threadId = None, status = ''open''\<rparr> storeAlice)"

definition textData :: "string \<Rightarrow> InsertMessage" where
  "textData t =
     \<lparr>conversationId = 1, telegramMessageId = None, senderId = ''111'', senderType = ''user'',
      senderName = Some ''Alice'', content = Some t, mediaType = None, mediaUrl = None\<rparr>"

definition storeTwoMessages :: MemStorage where
  "storeTwoMessages =
     snd (createMessage 3000 3001 (textData ''second'')
            (snd (createMessage 2000 2001 (textData ''first'') storeAliceConversation)))"

definition alice :: TgUser where
  "alice =
     \<lparr>id_tg = 111, first_name = ''Alice'', last_name = None, username_tg = None,
      language_code = Some ''en'', is_premium = None\<rparr>"

definition textMessage :: "TgUser \<Rightarrow> string \<Rightarrow> TgMessage" where
  "textMessage f t =
     \<lparr>message_id = 7, from_user = Some f, chat_id = id_tg f, text_m = Some t, caption = None,
      photo = None, document = None, video = None, audio = None, voice = None,
      reply_to_message = None\<rparr>"

definition photoAndDocument :: TgMessage where
  "photoAndDocument =
     (textMessage alice ''see attached'')
       \<lparr>text_m := None, caption := Some ''see attached'',
        photo := Some [''small-photo'', ''large-photo''], document := Some ''the-document''\<rparr>"

definition bob :: TgUser where
  "bob =
     \<lparr>id_tg = 222, first_name = ''Bob'', last_name = Some ''Agent'', username_tg = Some ''bob'',
      language_code = None, is_premium = None\<rparr>"

definition supportWorld :: World where
  "supportWorld = setSupportGroupId ''-100'' initialWorld"

definition groupMessage :: "string \<Rightarrow> TgMessage" where
  "groupMessage t = (textMessage bob t)\<lparr>chat_id := - 100\<rparr>"

definition groupReply :: "int \<Rightarrow> string \<Rightarrow> TgMessage" where
  "groupReply r t = (groupMessage t)\<lparr>reply_to_message := Some r\<rparr>"

definition anonymousMessage :: TgMessage where
  "anonymousMessage = (textMessage alice ''hello'')\<lparr>from_user := None\<rparr>"

definition update :: "TgMessage \<Rightarrow> WebhookUpdate" where
  "update m =
     \<lparr>update_id = 1, message = Some m, edited_message = None, channel_post = None,
      edited_channel_post = None\<rparr>"

definition allGood :: Env where
  "allGood =
     \<lparr>at_createUser = 1000, at_createConversation = 1001, at_createMessage = 1002,
      at_touchConversation = 1003, at_threadUpdate = 1004, at_createIssue = 1005,
      dateJoinedText = ''1/1/2025, 12:00:00 AM'', welcomeSent = True, userProfilePhotos = None,
      fileLink = None, threadMessageId = Some 500, forumTopicCreated = True,
      textForwarded = True, mediaForwarded = True\<rparr>"

text \<open>
  The world after Alice's first message "help" was processed with a support group
  configured and every gateway call accepted: one user, one conversation whose thread
  reference is "500", one message, one pending support issue.
\<close>

definition threadedWorld :: World where
  "threadedWorld = processUpdate allGood (update (textMessage alice ''help'')) supportWorld"

definition voiceMessage :: TgMessage where
  "voiceMessage = (textMessage alice [])\<lparr>text_m := None, voice := Some ''voice-file''\<rparr>"

definition photoMessage :: TgMessage where
  "photoMessage =
     (textMessage alice [])
       \<lparr>text_m := None, caption := Some ''my screen'', photo := Some [''small-photo'', ''large-photo'']\<rparr>"

text \<open>The gateway accepts everything but the forum topic.\<close>

definition topicRefused :: Env where
  "topicRefused = allGood\<lparr>forumTopicCreated := False\<rparr>"

text \<open>The gateway rejects the welcome.\<close>

definition welcomeRefused :: Env where
  "welcomeRefused = allGood\<lparr>welcomeSent := False\<rparr>"

text \<open>
  Replies of the agent Bob in the support group, to the introduction message 500 of
  Alice's thread: one with a photo and a document, one with a photo, one with a voice note.
\<close>

definition photoAndDocumentReply :: TgMessage where
  "photoAndDocumentReply =
     photoAndDocument\<lparr>from_user := Some bob, chat_id := - 100, reply_to_message := Some 500\<rparr>"

definition photoReply :: TgMessage where
  "photoReply = photoMessage\<lparr>from_user := Some bob, chat_id := - 100, reply_to_message := Some 500\<rparr>"

definition voiceReply :: TgMessage where
  "voiceReply = voiceMessage\<lparr>from_user := Some bob, chat_id := - 100, reply_to_message := Some 500\<rparr>"

section \<open>Properties of the store\<close>

subsection \<open>Maps in insertion order\<close>

lemma Map_get_set: "Map_get (Map_set m k v) j = (if j = k then Some v else Map_get m j)"
  by (simp add: Map_get_def Map_set_def update_conv')

lemma keysOf_set_fresh: "k \<notin> set (keysOf m) \<Longrightarrow> Map_set m k v = m @ [(k, v)]"
  unfolding keysOf_def Map_set_def by (induction m) auto

lemma Map_values_set_fresh: "k \<notin> set (keysOf m) \<Longrightarrow> Map_values (Map_set m k v) = Map_values m @ [v]"
  by (simp add: keysOf_set_fresh Map_values_def)

lemma keysOf_set_present: "k \<in> set (keysOf m) \<Longrightarrow> keysOf (Map_set m k v) = keysOf m"
  unfolding keysOf_def Map_set_def by (induction m) auto

lemma Map_get_Some_key: "Map_get m k = Some v \<Longrightarrow> k \<in> set (keysOf m)"
  unfolding Map_get_def keysOf_def by (force dest: map_of_SomeD)

lemma mapOk_fresh: "mapOk ident n m \<Longrightarrow> n \<notin> set (keysOf m)"
  unfolding mapOk_def keysOf_def list_all_iff by auto

lemma mapOk_below: "mapOk ident n m \<Longrightarrow> k \<in> set (keysOf m) \<Longrightarrow> k < n"
  unfolding mapOk_def keysOf_def list_all_iff by auto

lemma mapOk_value_below: "mapOk ident n m \<Longrightarrow> v \<in> set (Map_values m) \<Longrightarrow> ident v < n"
  unfolding mapOk_def Map_values_def list_all_iff by auto

lemma mapOk_append:
  "mapOk ident n m \<Longrightarrow> ident v = n \<Longrightarrow> mapOk ident (Suc n) (Map_set m n v)"
proof -
  assume ok: "mapOk ident n m" and v: "ident v = n"
  have fresh: "n \<notin> set (keysOf m)" using ok by (rule mapOk_fresh)
  have "Map_set m n v = m @ [(n, v)]" using fresh by (rule keysOf_set_fresh)
  moreover have "mapOk ident (Suc n) (m @ [(n, v)])"
    using ok fresh v unfolding mapOk_def keysOf_def list_all_iff by auto
  ultimately show ?thesis by simp
qed

lemma set_update_sub: "set (AList.update k v m) \<subseteq> insert (k, v) (set m)"
  by (induction m) auto

lemma map_replace_absent:
  "k \<notin> set (map fst m) \<Longrightarrow> map (\<lambda>kv. if fst kv = k then (k, v) else kv) m = m"
  by (induction m) auto

lemma update_as_map:
  "distinct (map fst m) \<Longrightarrow> k \<in> set (map fst m) \<Longrightarrow>
   AList.update k v m = map (\<lambda>kv. if fst kv = k then (k, v) else kv) m"
proof (induction m)
  case Nil
  then show ?case by simp
next
  case (Cons p m)
  show ?case
  proof (cases "fst p = k")
    case True
    then have "k \<notin> set (map fst m)" using Cons.prems(1) by auto
    then show ?thesis using True by (simp add: map_replace_absent)
  next
    case False
    then show ?thesis using Cons by auto
  qed
qed

lemma mapOk_replace:
  "mapOk ident n m \<Longrightarrow> k \<in> set (keysOf m) \<Longrightarrow> ident v = k \<Longrightarrow> mapOk ident n (Map_set m k v)"
proof -
  assume ok: "mapOk ident n m" and k: "k \<in> set (keysOf m)" and v: "ident v = k"
  have sub: "set (AList.update k v m) \<subseteq> insert (k, v) (set m)"
    by (rule set_update_sub)
  have kn: "k < n" using ok k by (rule mapOk_below)
  have "\<forall>kv \<in> insert (k, v) (set m). fst kv < n \<and> ident (snd kv) = fst kv"
    using ok kn v unfolding mapOk_def list_all_iff by auto
  then have "\<forall>kv \<in> set (AList.update k v m). fst kv < n \<and> ident (snd kv) = fst kv"
    using sub by blast
  moreover have "distinct (map fst (AList.update k v m))"
    using ok unfolding mapOk_def keysOf_def by (simp add: distinct_update)
  ultimately show ?thesis unfolding mapOk_def keysOf_def Map_set_def list_all_iff by simp
qed

lemma mapOk_mono: "mapOk ident n m \<Longrightarrow> n \<le> n' \<Longrightarrow> mapOk ident n' m"
  unfolding mapOk_def list_all_iff by auto

subsection \<open>The identifier discipline is an invariant\<close>

lemma storageOk_new: "storageOk MemStorage_new"
  by (simp add: storageOk_def MemStorage_new_def mapOk_def keysOf_def)

lemma id_u_spread: "id_u (foldl spreadUserField u fs) = id_u u"
proof (induction fs arbitrary: u)
  case Nil
  then show ?case by simp
next
  case (Cons x fs)
  then show ?case by (cases x) simp_all
qed

lemma id_c_spread: "id_c (foldl spreadConversationField c fs) = id_c c"
proof (induction fs arbitrary: c)
  case Nil
  then show ?case by simp
next
  case (Cons x fs)
  then show ?case by (cases x) simp_all
qed

lemma mapOk_get_id: "mapOk ident n m \<Longrightarrow> Map_get m k = Some v \<Longrightarrow> ident v = k"
  unfolding mapOk_def Map_get_def list_all_iff by (force dest: map_of_SomeD)

lemma storageOk_createUser: "storageOk s \<Longrightarrow> storageOk (snd (createUser now iu s))"
  unfolding storageOk_def createUser_def Let_def
  by (simp add: mapOk_append InsertUser.extend_def User.fields_def)

lemma storageOk_createConversation:
  "storageOk s \<Longrightarrow> storageOk (snd (createConversation now ic s))"
  unfolding storageOk_def createConversation_def Let_def
  by (simp add: mapOk_append InsertConversation.extend_def Conversation.fields_def)

lemma storageOk_createSupportIssue:
  "storageOk s \<Longrightarrow> storageOk (snd (createSupportIssue now ii s))"
  unfolding storageOk_def createSupportIssue_def Let_def
  by (simp add: mapOk_append InsertSupportIssue.extend_def SupportIssue.fields_def)

lemma storageOk_updateUser: "storageOk s \<Longrightarrow> storageOk (snd (updateUser i fs s))"
proof (cases "getUser s i")
  case None
  then show "storageOk s \<Longrightarrow> ?thesis" by (simp add: updateUser_def)
next
  case (Some u)
  assume ok: "storageOk s"
  have m: "mapOk id_u (currentIds_users s) (users s)" using ok by (simp add: storageOk_def)
  have g: "Map_get (users s) i = Some u" using Some by (simp add: getUser_def)
  have "mapOk id_u (currentIds_users s) (Map_set (users s) i (foldl spreadUserField u fs))"
    using m Map_get_Some_key[OF g] mapOk_get_id[OF m g] by (intro mapOk_replace) (simp_all add: id_u_spread)
  then show ?thesis using ok Some by (simp add: updateUser_def storageOk_def Let_def)
qed

lemma storageOk_updateConversation:
  "storageOk s \<Longrightarrow> storageOk (snd (updateConversation now i fs s))"
proof (cases "getConversation s i")
  case None
  then show "storageOk s \<Longrightarrow> ?thesis" by (simp add: updateConversation_def)
next
  case (Some c)
  assume ok: "storageOk s"
  have m: "mapOk id_c (currentIds_conversations s) (conversations s)"
    using ok by (simp add: storageOk_def)
  have g: "Map_get (conversations s) i = Some c" using Some by (simp add: getConversation_def)
  have "mapOk id_c (currentIds_conversations s)
          (Map_set (conversations s) i ((foldl spreadConversationField c fs)\<lparr>lastMessageAt := now\<rparr>))"
    using m Map_get_Some_key[OF g] mapOk_get_id[OF m g] by (intro mapOk_replace) (simp_all add: id_c_spread)
  then show ?thesis using ok Some by (simp add: updateConversation_def storageOk_def Let_def)
qed

lemma storageOk_createMessage:
  "storageOk s \<Longrightarrow> storageOk (snd (createMessage now touched im s))"
proof -
  assume ok: "storageOk s"
  define s1 where "s1 = s\<lparr>currentIds_messages := currentIds_messages s + 1,
     messages := Map_set (messages s) (currentIds_messages s)
        (InsertMessage.extend im (Message.fields (currentIds_messages s) now))\<rparr>"
  have ok1: "storageOk s1"
    using ok unfolding storageOk_def s1_def
    by (simp add: mapOk_append InsertMessage.extend_def Message.fields_def)
  show ?thesis
  proof (cases "getConversation s1 (conversationId im)")
    case None
    then show ?thesis using ok1
      by (simp add: createMessage_def Let_def s1_def InsertMessage.extend_def split: option.splits)
  next
    case (Some c)
    have "snd (createMessage now touched im s) = snd (updateConversation touched (id_c c) [] s1)"
      using Some by (simp add: createMessage_def Let_def s1_def InsertMessage.extend_def)
    then show ?thesis using storageOk_updateConversation[OF ok1] by simp
  qed
qed

subsection \<open>What each method changes\<close>

lemma getConversation_present: "getConversation s i = Some c \<Longrightarrow> i \<in> set (keysOf (conversations s))"
  unfolding getConversation_def by (rule Map_get_Some_key)

lemma keysOf_Map_set_fresh: "k \<notin> set (keysOf m) \<Longrightarrow> keysOf (Map_set m k v) = keysOf m @ [k]"
  by (simp add: keysOf_set_fresh) (simp add: keysOf_def)

lemma createUser_effect:
  assumes "storageOk s"
  shows "Map_values (users (snd (createUser now iu s))) =
           Map_values (users s) @ [fst (createUser now iu s)]"
    and "keysOf (users (snd (createUser now iu s))) = keysOf (users s) @ [currentIds_users s]"
    and "conversations (snd (createUser now iu s)) = conversations s"
    and "messages (snd (createUser now iu s)) = messages s"
    and "supportIssues (snd (createUser now iu s)) = supportIssues s"
    and "telegramId (fst (createUser now iu s)) = telegramId iu"
    and "id_u (fst (createUser now iu s)) = currentIds_users s"
proof -
  have "currentIds_users s \<notin> set (keysOf (users s))"
    using assms by (auto simp: storageOk_def dest: mapOk_fresh)
  then show "Map_values (users (snd (createUser now iu s))) =
           Map_values (users s) @ [fst (createUser now iu s)]"
    and "keysOf (users (snd (createUser now iu s))) = keysOf (users s) @ [currentIds_users s]"
    by (simp_all add: createUser_def Let_def Map_values_set_fresh keysOf_Map_set_fresh)
qed (simp_all add: createUser_def Let_def InsertUser.extend_def User.fields_def)

lemma createConversation_effect:
  assumes "storageOk s"
  shows "Map_values (conversations (snd (createConversation now ic s))) =
           Map_values (conversations s) @ [fst (createConversation now ic s)]"
    and "keysOf (conversations (snd (createConversation now ic s))) =
           keysOf (conversations s) @ [currentIds_conversations s]"
    and "users (snd (createConversation now ic s)) = users s"
    and "messages (snd (createConversation now ic s)) = messages s"
    and "supportIssues (snd (createConversation now ic s)) = supportIssues s"
    and "telegramUserId (fst (createConversation now ic s)) = telegramUserId ic"
    and "threadId (fst (createConversation now ic s)) = threadId ic"
    and "id_c (fst (createConversation now ic s)) = currentIds_conversations s"
proof -
  have "currentIds_conversations s \<notin> set (keysOf (conversations s))"
    using assms by (auto simp: storageOk_def dest: mapOk_fresh)
  then show "Map_values (conversations (snd (createConversation now ic s))) =
           Map_values (conversations s) @ [fst (createConversation now ic s)]"
    and "keysOf (conversations (snd (createConversation now ic s))) =
           keysOf (conversations s) @ [currentIds_conversations s]"
    by (simp_all add: createConversation_def Let_def Map_values_set_fresh keysOf_Map_set_fresh)
qed (simp_all add: createConversation_def Let_def InsertConversation.extend_def Conversation.fields_def)

lemma createSupportIssue_effect:
  assumes "storageOk s"
  shows "Map_values (supportIssues (snd (createSupportIssue now ii s))) =
           Map_values (supportIssues s) @ [fst (createSupportIssue now ii s)]"
    and "users (snd (createSupportIssue now ii s)) = users s"
    and "conversations (snd (createSupportIssue now ii s)) = conversations s"
    and "messages (snd (createSupportIssue now ii s)) = messages s"
    and "InsertSupportIssue.truncate (fst (createSupportIssue now ii s)) = ii"
proof -
  have "currentIds_supportIssues s \<notin> set (keysOf (supportIssues s))"
    using assms by (auto simp: storageOk_def dest: mapOk_fresh)
  then show "Map_values (supportIssues (snd (createSupportIssue now ii s))) =
           Map_values (supportIssues s) @ [fst (createSupportIssue now ii s)]"
    by (simp add: createSupportIssue_def Let_def Map_values_set_fresh)
qed (simp_all add: createSupportIssue_def Let_def InsertSupportIssue.extend_def
       SupportIssue.fields_def InsertSupportIssue.truncate_def)

text \<open>
  Replacing the value under a key that is present rewrites exactly the records with that
  identifier.
\<close>

lemma Map_values_replace:
  assumes "mapOk ident n m" and "k \<in> set (keysOf m)"
  shows "Map_values (Map_set m k v) = map (\<lambda>x. if ident x = k then v else x) (Map_values m)"
proof -
  have d: "distinct (map fst m)" and e: "\<forall>kv \<in> set m. ident (snd kv) = fst kv"
    using assms(1) by (auto simp: mapOk_def keysOf_def list_all_iff)
  have "Map_set m k v = map (\<lambda>kv. if fst kv = k then (k, v) else kv) m"
    unfolding Map_set_def using d assms(2) by (intro update_as_map) (simp_all add: keysOf_def)
  then show ?thesis using e by (simp add: Map_values_def)
qed

lemma updateConversation_effect:
  shows "users (snd (updateConversation now i fs s)) = users s"
    and "messages (snd (updateConversation now i fs s)) = messages s"
    and "supportIssues (snd (updateConversation now i fs s)) = supportIssues s"
    and "keysOf (conversations (snd (updateConversation now i fs s))) = keysOf (conversations s)"
proof -
  show "keysOf (conversations (snd (updateConversation now i fs s))) = keysOf (conversations s)"
  proof (cases "getConversation s i")
    case None
    then show ?thesis by (simp add: updateConversation_def)
  next
    case (Some c)
    then show ?thesis
      by (simp add: updateConversation_def Let_def keysOf_set_present getConversation_present)
  qed
qed (simp_all add: updateConversation_def Let_def split: option.splits)

lemma updateConversation_values:
  assumes "storageOk s" and "getConversation s i = Some c"
  shows "Map_values (conversations (snd (updateConversation now i fs s))) =
           map (\<lambda>x. if id_c x = i then (foldl spreadConversationField c fs)\<lparr>lastMessageAt := now\<rparr> else x)
               (Map_values (conversations s))"
proof -
  have m: "mapOk id_c (currentIds_conversations s) (conversations s)"
    using assms(1) by (simp add: storageOk_def)
  show ?thesis
    using assms(2) Map_values_replace[OF m getConversation_present[OF assms(2)]]
    by (simp add: updateConversation_def Let_def)
qed

lemma updateUser_effect:
  shows "conversations (snd (updateUser i fs s)) = conversations s"
    and "messages (snd (updateUser i fs s)) = messages s"
    and "supportIssues (snd (updateUser i fs s)) = supportIssues s"
    and "keysOf (users (snd (updateUser i fs s))) = keysOf (users s)"
proof -
  show "keysOf (users (snd (updateUser i fs s))) = keysOf (users s)"
  proof (cases "getUser s i")
    case None
    then show ?thesis by (simp add: updateUser_def)
  next
    case (Some u)
    then have "i \<in> set (keysOf (users s))" unfolding getUser_def by (rule Map_get_Some_key)
    then show ?thesis using Some by (simp add: updateUser_def Let_def keysOf_set_present)
  qed
qed (simp_all add: updateUser_def Let_def split: option.splits)

lemma Map_get_in_values: "Map_get m k = Some v \<Longrightarrow> v \<in> set (Map_values m)"
  unfolding Map_get_def Map_values_def by (force dest: map_of_SomeD)

lemma mapOk_values_get:
  assumes "mapOk ident n m" and "v \<in> set (Map_values m)"
  shows "Map_get m (ident v) = Some v"
proof -
  obtain k where kv: "(k, v) \<in> set m" using assms(2) by (auto simp: Map_values_def)
  then have "ident v = k" using assms(1) by (auto simp: mapOk_def list_all_iff)
  moreover have "map_of m k = Some v"
    using assms(1) kv by (simp add: mapOk_def keysOf_def)
  ultimately show ?thesis by (simp add: Map_get_def)
qed

lemma mapOk_same_id:
  assumes "mapOk ident n m" and "Map_get m k = Some v"
      and "x \<in> set (Map_values m)" and "ident x = k"
  shows "x = v"
  using mapOk_values_get[OF assms(1,3)] assms(2,4) by simp

text \<open>A projection that the replacement does not change is unchanged on the whole map.\<close>

lemma Map_values_replace_same:
  assumes "mapOk ident n m" and "Map_get m k = Some v" and "g v' = g v"
  shows "map g (Map_values (Map_set m k v')) = map g (Map_values m)"
proof -
  have "map g (map (\<lambda>x. if ident x = k then v' else x) (Map_values m)) = map g (Map_values m)"
    unfolding map_map
  proof (rule map_cong[OF refl])
    fix x assume "x \<in> set (Map_values m)"
    then show "(g \<circ> (\<lambda>x. if ident x = k then v' else x)) x = g x"
      using mapOk_same_id[OF assms(1,2)] assms(3) by auto
  qed
  then show ?thesis
    using Map_values_replace[OF assms(1) Map_get_Some_key[OF assms(2)]] by simp
qed

lemma updateUser_profilePhoto_telegramIds:
  assumes "storageOk s"
  shows "map telegramId (Map_values (users (snd (updateUser i [Set_profilePhoto p] s)))) =
         map telegramId (Map_values (users s))"
proof (cases "getUser s i")
  case None
  then show ?thesis by (simp add: updateUser_def)
next
  case (Some u)
  have m: "mapOk id_u (currentIds_users s) (users s)" using assms by (simp add: storageOk_def)
  have g: "Map_get (users s) i = Some u" using Some by (simp add: getUser_def)
  show ?thesis
    using Some Map_values_replace_same[OF m g, of telegramId "u\<lparr>profilePhoto := p\<rparr>"]
    by (simp add: updateUser_def Let_def)
qed

lemma updateConversation_same:
  assumes "storageOk s"
      and "\<And>c. g ((foldl spreadConversationField c fs)\<lparr>lastMessageAt := now\<rparr>) = g c"
  shows "map g (Map_values (conversations (snd (updateConversation now i fs s)))) =
         map g (Map_values (conversations s))"
proof (cases "getConversation s i")
  case None
  then show ?thesis by (simp add: updateConversation_def)
next
  case (Some c)
  have m: "mapOk id_c (currentIds_conversations s) (conversations s)"
    using assms(1) by (simp add: storageOk_def)
  have g: "Map_get (conversations s) i = Some c" using Some by (simp add: getConversation_def)
  show ?thesis
    using Some Map_values_replace_same[OF m g, of g, OF assms(2)]
    by (simp add: updateConversation_def Let_def)
qed

lemma updateConversation_stored:
  assumes "getConversation s i = Some c"
  shows "getConversation (snd (updateConversation now i fs s)) i =
           Some ((foldl spreadConversationField c fs)\<lparr>lastMessageAt := now\<rparr>)"
  using assms by (simp add: updateConversation_def getConversation_def Let_def Map_get_set)

lemma createMessage_effect:
  assumes "storageOk s"
  shows "users (snd (createMessage now touched im s)) = users s"
    and "supportIssues (snd (createMessage now touched im s)) = supportIssues s"
    and "keysOf (conversations (snd (createMessage now touched im s))) = keysOf (conversations s)"
    and "Map_values (messages (snd (createMessage now touched im s))) =
           Map_values (messages s) @ [InsertMessage.extend im (Message.fields (currentIds_messages s) now)]"
    and "(\<And>c t. g (c\<lparr>lastMessageAt := t\<rparr>) = g c) \<Longrightarrow>
           map g (Map_values (conversations (snd (createMessage now touched im s)))) =
           map g (Map_values (conversations s))"
proof -
  define msg where "msg = InsertMessage.extend im (Message.fields (currentIds_messages s) now)"
  define s1 where "s1 = s\<lparr>currentIds_messages := currentIds_messages s + 1,
     messages := Map_set (messages s) (currentIds_messages s) msg\<rparr>"
  have ok1: "storageOk s1"
    using assms unfolding storageOk_def s1_def msg_def
    by (simp add: mapOk_append InsertMessage.extend_def Message.fields_def)
  have fresh: "currentIds_messages s \<notin> set (keysOf (messages s))"
    using assms by (auto simp: storageOk_def dest: mapOk_fresh)
  have cid: "conversationId msg = conversationId im"
    by (simp add: msg_def InsertMessage.extend_def)
  have r: "snd (createMessage now touched im s) =
             (case getConversation s1 (conversationId im) of
                None \<Rightarrow> s1 | Some c \<Rightarrow> snd (updateConversation touched (id_c c) [] s1))"
    by (simp add: createMessage_def Let_def s1_def msg_def cid[unfolded msg_def] split: option.splits)
  have s1_parts: "users s1 = users s" "supportIssues s1 = supportIssues s"
    "conversations s1 = conversations s"
    "Map_values (messages s1) = Map_values (messages s) @ [msg]"
    using fresh by (simp_all add: s1_def Map_values_set_fresh)
  show "users (snd (createMessage now touched im s)) = users s"
    and "supportIssues (snd (createMessage now touched im s)) = supportIssues s"
    and "keysOf (conversations (snd (createMessage now touched im s))) = keysOf (conversations s)"
    and "Map_values (messages (snd (createMessage now touched im s))) =
           Map_values (messages s) @ [InsertMessage.extend im (Message.fields (currentIds_messages s) now)]"
    unfolding r using s1_parts
    by (simp_all add: updateConversation_effect msg_def split: option.splits)
  show "map g (Map_values (conversations (snd (createMessage now touched im s)))) =
           map g (Map_values (conversations s))"
    if "\<And>c t. g (c\<lparr>lastMessageAt := t\<rparr>) = g c"
    unfolding r using s1_parts updateConversation_same[OF ok1, where g = g and fs = "[]" and now = touched] that
    by (simp split: option.splits)
qed

lemma createMessage_touches:
  assumes "getConversation s (conversationId im) = Some c" and "id_c c = conversationId im"
  shows "getConversation (snd (createMessage now touched im s)) (conversationId im) =
           Some (c\<lparr>lastMessageAt := touched\<rparr>)"
  using assms
  by (simp add: createMessage_def Let_def getConversation_def updateConversation_def
        Map_get_set InsertMessage.extend_def)

subsection \<open>Updating a conversation\<close>



subsection \<open>Creating a user\<close>

text \<open>
  \<open>createUser\<close> has no failing path and looks at no stored user: for every store
  that keeps the identifier discipline and every \<open>InsertUser\<close> it returns a record that
  carries the given fields, the next identifier (above the identifier of every stored user
  and of every user created before) and the clock value read by the call as \<open>joinedAt\<close>;
  that record is appended to the users and is what \<open>getUser\<close> then returns.
\<close>

lemma createUser_never_fails:
  assumes "storageOk s"
      and "createUser now insertUser s = (user, s')"
  shows "InsertUser.truncate user = insertUser \<and>
         id_u user = currentIds_users s \<and>
         joinedAt user = now \<and>
         (\<forall>u \<in> set (Map_values (users s)). id_u u < id_u user) \<and>
         (\<forall>k \<in> set (keysOf (users s)). k < id_u user) \<and>
         currentIds_users s' = id_u user + 1 \<and>
         Map_values (users s') = Map_values (users s) @ [user] \<and>
         getUser s' (id_u user) = Some user \<and>
         storageOk s'"
proof -
  have m: "mapOk id_u (currentIds_users s) (users s)"
    using assms(1) by (simp add: storageOk_def)
  have u: "user = InsertUser.extend insertUser (User.fields (currentIds_users s) now)"
    and s': "s' = s\<lparr>currentIds_users := currentIds_users s + 1,
                     users := Map_set (users s) (currentIds_users s) user\<rparr>"
    using assms(2) by (auto simp: createUser_def Let_def)
  have i: "id_u user = currentIds_users s" and j: "joinedAt user = now"
    and t: "InsertUser.truncate user = insertUser"
    unfolding u by (simp_all add: InsertUser.extend_def User.fields_def InsertUser.truncate_def)
  have fresh: "currentIds_users s \<notin> set (keysOf (users s))" using m by (rule mapOk_fresh)
  have "storageOk (snd (createUser now insertUser s))" using assms(1) by (rule storageOk_createUser)
  then have ok: "storageOk s'" using assms(2) by simp
  show ?thesis
    using i j t ok mapOk_value_below[OF m] mapOk_below[OF m]
    by (simp add: s' Map_values_set_fresh[OF fresh] getUser_def Map_get_set)
qed

lemma createUser_never_fails_sample:
  "storageOk storeAlice \<and>
   id_u (fst (createUser 2000 aliceData storeAlice)) = 2 \<and>
   joinedAt (fst (createUser 2000 aliceData storeAlice)) = 2000 \<and>
   map id_u (Map_values (users (snd (createUser 2000 aliceData storeAlice)))) = [1, 2]"
proof -
  have ok: "storageOk storeAlice"
    unfolding storeAlice_def by (rule storageOk_createUser[OF storageOk_new])
  have c: "currentIds_users storeAlice = 2" and v: "map id_u (Map_values (users storeAlice)) = [1]"
    by (simp_all add: storeAlice_def createUser_def MemStorage_new_def Let_def Map_set_def
          Map_values_def InsertUser.extend_def User.fields_def)
  show ?thesis
    using ok c v
      createUser_never_fails [OF ok, of 2000 aliceData "fst (createUser 2000 aliceData storeAlice)"
          "snd (createUser 2000 aliceData storeAlice)"]
    by simp
qed

text \<open>
  C9 at a duplicate external id. The schema declares \<open>telegramId\<close> unique, and the claim
  asks the create to fail when the id is taken. On a store that holds one user with the
  external id "111", \<open>createUser\<close> with that id again does not fail: it returns a
  second user, and the store then holds two users with the external id "111".
\<close>

theorem createUser_duplicate_accepted:
  "map telegramId (Map_values (users storeAlice)) = [''111''] \<and>
   telegramId aliceData = ''111'' \<and>
   telegramId (fst (createUser 2000 aliceData storeAlice)) = ''111'' \<and>
   id_u (fst (createUser 2000 aliceData storeAlice)) = 2 \<and>
   map telegramId (Map_values (users (snd (createUser 2000 aliceData storeAlice)))) = [''111'', ''111''] \<and>
   map id_u (Map_values (users (snd (createUser 2000 aliceData storeAlice)))) = [1, 2]"
  by (simp add: storeAlice_def createUser_def MemStorage_new_def Let_def Map_set_def
        Map_values_def InsertUser.extend_def User.fields_def aliceData_def)

subsection \<open>Messages of a conversation\<close>

text \<open>
  For a limit of at least 1 the method returns the conversation's messages in send
  order, oldest first (messages with equal \<open>sentAt\<close> in the order they were stored),
  all of them when there are at most \<open>limit\<close>, and otherwise the last \<open>limit\<close> of
  that order.
\<close>

lemma getMessagesByConversationId_positive_limit:
  assumes "1 \<le> limit"
  shows "getMessagesByConversationId s cid limit =
           drop (length (conversationMessages s cid) - nat limit)
                (sort_key sentAt (conversationMessages s cid))"
    and "sorted (map sentAt (getMessagesByConversationId s cid limit))"
    and "int (length (conversationMessages s cid)) \<le> limit \<Longrightarrow>
           mset (getMessagesByConversationId s cid limit) = mset (conversationMessages s cid)"
    and "limit < int (length (conversationMessages s cid)) \<Longrightarrow>
           int (length (getMessagesByConversationId s cid limit)) = limit"
    and "filter (\<lambda>m. sentAt m = t) (sort_key sentAt (conversationMessages s cid)) =
           filter (\<lambda>m. sentAt m = t) (conversationMessages s cid)"
proof -
  let ?all = "sort_key sentAt (conversationMessages s cid)"
  have len: "length ?all = length (conversationMessages s cid)" by simp
  have k: "nat (max (int (length ?all) + - limit) 0) = length (conversationMessages s cid) - nat limit"
    using assms by (simp add: max_def) linarith
  show eq: "getMessagesByConversationId s cid limit =
           drop (length (conversationMessages s cid) - nat limit) ?all"
    using assms k
    by (simp add: getMessagesByConversationId_def slice_from_def Let_def conversationMessages_def)
  show "sorted (map sentAt (getMessagesByConversationId s cid limit))"
    unfolding eq by (simp add: sorted_wrt_drop flip: drop_map)
  show "int (length (conversationMessages s cid)) \<le> limit \<Longrightarrow>
           mset (getMessagesByConversationId s cid limit) = mset (conversationMessages s cid)"
    unfolding eq by simp
  show "limit < int (length (conversationMessages s cid)) \<Longrightarrow>
           int (length (getMessagesByConversationId s cid limit)) = limit"
    unfolding eq using assms by simp
  show "filter (\<lambda>m. sentAt m = t) ?all = filter (\<lambda>m. sentAt m = t) (conversationMessages s cid)"
    by (rule sort_key_stable)
qed

text \<open>With limit 0 the start index is \<open>-0\<close>, and the slice is the whole array.\<close>

lemma getMessagesByConversationId_limit_0:
  "getMessagesByConversationId s cid 0 = sort_key sentAt (conversationMessages s cid)"
  by (simp add: getMessagesByConversationId_def slice_from_def conversationMessages_def)

lemma listConversations_limit_0: "listConversations s 0 = []"
  by (simp add: listConversations_def slice_to_def)

text \<open>
  C4 at limit 0, on a store whose conversation 1 has two messages: the claim asks for the
  last 0 of them, the method returns both.
\<close>

theorem getMessagesByConversationId_limit_0_returns_all:
  "map content (conversationMessages storeTwoMessages 1) = [Some ''first'', Some ''second''] \<and>
   map content (getMessagesByConversationId storeTwoMessages 1 0) = [Some ''first'', Some ''second''] \<and>
   map content (getMessagesByConversationId storeTwoMessages 1 1) = [Some ''second'']"
  by (simp add: getMessagesByConversationId_def slice_from_def conversationMessages_def
        storeTwoMessages_def storeAliceConversation_def storeAlice_def textData_def
        createMessage_def createConversation_def createUser_def updateConversation_def
        getConversation_def MemStorage_new_def Let_def Map_set_def Map_get_def Map_values_def
        InsertUser.extend_def User.fields_def InsertConversation.extend_def Conversation.fields_def
        InsertMessage.extend_def Message.fields_def)

lemma find_SomeD: "find P xs = Some x \<Longrightarrow> x \<in> set xs \<and> P x"
  by (induction xs) (auto split: if_splits)

subsection \<open>What each block of the user handler changes\<close>

lemma filter_call [simp]: "filter P (botCalls (call c w)) = filter P (botCalls w) @ (if P c then [c] else [])"
  and storage_call [simp]: "storage (call c w) = storage w"
  and group_call [simp]: "supportGroupId (call c w) = supportGroupId w"
  and botCalls_call: "botCalls (call c w) = botCalls w @ [c]"
  by (simp_all add: call_def)

lemma getOrCreateUser_found:
  assumes "getUserByTelegramId (storage w) (toString (id_tg f)) = Some u"
  shows "getOrCreateUser env m f w = (Fulfilled u, w)"
  using assms by (simp add: getOrCreateUser_def)

lemma getOrCreateUser_absent:
  assumes "getUserByTelegramId (storage w) (toString (id_tg f)) = None"
  shows "getOrCreateUser env m f w =
           ((if welcomeSent env
             then Fulfilled (fst (createUser (at_createUser env)
                                    (userData f (toString (id_tg f))) (storage w)))
             else Rejected),
            call (SendMessage (ChatNum (chat_id m)) welcomeText noOptions)
              (w\<lparr>storage := snd (createUser (at_createUser env)
                                    (userData f (toString (id_tg f))) (storage w))\<rparr>))"
  using assms by (simp add: getOrCreateUser_def Let_def case_prod_beta)

lemma getOrCreateUser_new:
  assumes "getUserByTelegramId (storage w) (toString (id_tg f)) = None"
      and "getOrCreateUser env m f w = (r, w1)"
      and "storageOk (storage w)"
  shows "r = (if welcomeSent env then Fulfilled (fst (createUser (at_createUser env)
                   (userData f (toString (id_tg f))) (storage w))) else Rejected)"
    and "botCalls w1 = botCalls w @ [SendMessage (ChatNum (chat_id m)) welcomeText noOptions]"
    and "map telegramId (Map_values (users (storage w1))) =
           map telegramId (Map_values (users (storage w))) @ [toString (id_tg f)]"
    and "keysOf (users (storage w1)) = keysOf (users (storage w)) @ [currentIds_users (storage w)]"
  using assms(2) unfolding getOrCreateUser_absent[OF assms(1)]
  by (auto simp: botCalls_call createUser_effect[OF assms(3)] userData_def)

lemma getOrCreateUser_frame:
  assumes "getOrCreateUser env m f w = (r, w1)" and "storageOk (storage w)"
  shows "storageOk (storage w1)"
    and "supportGroupId w1 = supportGroupId w"
    and "conversations (storage w1) = conversations (storage w)"
    and "messages (storage w1) = messages (storage w)"
    and "supportIssues (storage w1) = supportIssues (storage w)"
    and "filter isMediaForward (botCalls w1) = filter isMediaForward (botCalls w)"
    and "filter (isTextForward g) (botCalls w1) = filter (isTextForward g) (botCalls w)"
    and "set (map telegramId (Map_values (users (storage w)))) \<subseteq>
         set (map telegramId (Map_values (users (storage w1))))"
    and "r = Fulfilled user \<Longrightarrow> toString (id_tg f) \<in> set (map telegramId (Map_values (users (storage w1))))"
proof -
  have all: "storageOk (storage w1) \<and> supportGroupId w1 = supportGroupId w \<and>
      conversations (storage w1) = conversations (storage w) \<and>
      messages (storage w1) = messages (storage w) \<and>
      supportIssues (storage w1) = supportIssues (storage w) \<and>
      filter isMediaForward (botCalls w1) = filter isMediaForward (botCalls w) \<and>
      filter (isTextForward g) (botCalls w1) = filter (isTextForward g) (botCalls w)"
  proof (cases "getUserByTelegramId (storage w) (toString (id_tg f))")
    case None
    show ?thesis
      using assms(1) storageOk_createUser[OF assms(2)] unfolding getOrCreateUser_absent[OF None]
      by (auto simp: createUser_effect[OF assms(2)])
  next
    case (Some u)
    show ?thesis
      using assms unfolding getOrCreateUser_found[OF Some] by simp
  qed
  show "storageOk (storage w1)"
    and "supportGroupId w1 = supportGroupId w"
    and "conversations (storage w1) = conversations (storage w)"
    and "messages (storage w1) = messages (storage w)"
    and "supportIssues (storage w1) = supportIssues (storage w)"
    and "filter isMediaForward (botCalls w1) = filter isMediaForward (botCalls w)"
    and "filter (isTextForward g) (botCalls w1) = filter (isTextForward g) (botCalls w)"
    using all by simp_all
  show "set (map telegramId (Map_values (users (storage w)))) \<subseteq>
         set (map telegramId (Map_values (users (storage w1))))"
  proof (cases "getUserByTelegramId (storage w) (toString (id_tg f))")
    case None
    then show ?thesis using getOrCreateUser_new(3)[OF None assms] by auto
  next
    case (Some u)
    then show ?thesis using assms(1) by (simp add: getOrCreateUser_found)
  qed
  show "toString (id_tg f) \<in> set (map telegramId (Map_values (users (storage w1))))"
    if "r = Fulfilled user"
  proof (cases "getUserByTelegramId (storage w) (toString (id_tg f))")
    case None
    then show ?thesis using getOrCreateUser_new(3)[OF None assms] by auto
  next
    case (Some u)
    then have "w1 = w" using assms(1) by (simp add: getOrCreateUser_found)
    moreover have "u \<in> set (Map_values (users (storage w))) \<and> telegramId u = toString (id_tg f)"
      using Some unfolding getUserByTelegramId_def by (auto dest: find_SomeD)
    ultimately show ?thesis by (auto intro: rev_image_eqI)
  qed
qed

lemma find_append:
  "find P (xs @ ys) = (case find P xs of None \<Rightarrow> find P ys | Some x \<Rightarrow> Some x)"
  by (induction xs) auto

lemma getOrCreateConversation_found:
  assumes "getConversationByTelegramUserId (storage w) tid = Some c"
  shows "getOrCreateConversation env tid w = (c, w)"
  using assms by (simp add: getOrCreateConversation_def)

lemma getOrCreateConversation_absent:
  assumes "getConversationByTelegramUserId (storage w) tid = None"
  shows "getOrCreateConversation env tid w =
           (fst (createConversation (at_createConversation env) (conversationData tid) (storage w)),
            w\<lparr>storage := snd (createConversation (at_createConversation env)
                                 (conversationData tid) (storage w))\<rparr>)"
  using assms by (simp add: getOrCreateConversation_def case_prod_beta)

lemma createConversation_stored:
  "getConversation (snd (createConversation now ic s)) (currentIds_conversations s) =
     Some (fst (createConversation now ic s))"
  by (simp add: createConversation_def Let_def getConversation_def Map_get_set
        InsertConversation.extend_def Conversation.fields_def)

lemma getOrCreateConversation_frame:
  assumes "getOrCreateConversation env tid w = (c, w1)" and "storageOk (storage w)"
  shows "storageOk (storage w1)"
    and "supportGroupId w1 = supportGroupId w"
    and "botCalls w1 = botCalls w"
    and "users (storage w1) = users (storage w)"
    and "messages (storage w1) = messages (storage w)"
    and "supportIssues (storage w1) = supportIssues (storage w)"
    and "telegramUserId c = tid"
    and "getConversation (storage w1) (id_c c) = Some c"
    and "getConversationByTelegramUserId (storage w1) tid = Some c"
    and "Map_values (conversations (storage w1)) =
           Map_values (conversations (storage w)) @
             (if getConversationByTelegramUserId (storage w) tid = None then [c] else [])"
    and "keysOf (conversations (storage w1)) =
           keysOf (conversations (storage w)) @
             (if getConversationByTelegramUserId (storage w) tid = None
              then [currentIds_conversations (storage w)] else [])"
    and "getConversationByTelegramUserId (storage w) tid = None \<Longrightarrow> threadId c = None"
proof -
  have m: "mapOk id_c (currentIds_conversations (storage w)) (conversations (storage w))"
    using assms(2) by (simp add: storageOk_def)
  have all: "storageOk (storage w1) \<and> supportGroupId w1 = supportGroupId w \<and>
    botCalls w1 = botCalls w \<and> users (storage w1) = users (storage w) \<and>
    messages (storage w1) = messages (storage w) \<and>
    supportIssues (storage w1) = supportIssues (storage w) \<and> telegramUserId c = tid \<and>
    getConversation (storage w1) (id_c c) = Some c \<and>
    getConversationByTelegramUserId (storage w1) tid = Some c \<and>
    Map_values (conversations (storage w1)) =
           Map_values (conversations (storage w)) @
             (if getConversationByTelegramUserId (storage w) tid = None then [c] else []) \<and>
    keysOf (conversations (storage w1)) =
           keysOf (conversations (storage w)) @
             (if getConversationByTelegramUserId (storage w) tid = None
              then [currentIds_conversations (storage w)] else []) \<and>
    (getConversationByTelegramUserId (storage w) tid = None \<longrightarrow> threadId c = None)"
  proof (cases "getConversationByTelegramUserId (storage w) tid")
    case None
    let ?cc = "createConversation (at_createConversation env) (conversationData tid) (storage w)"
    have c: "c = fst ?cc" and w1: "w1 = w\<lparr>storage := snd ?cc\<rparr>"
      using assms(1) unfolding getOrCreateConversation_absent[OF None] by simp_all
    have t: "telegramUserId (fst ?cc) = tid" "threadId (fst ?cc) = None"
      by (simp_all add: createConversation_effect[OF assms(2)] conversationData_def)
    have "find (\<lambda>conversation. telegramUserId conversation = tid)
            (Map_values (conversations (storage w))) = None"
      using None by (simp add: getConversationByTelegramUserId_def)
    then have f: "getConversationByTelegramUserId (snd ?cc) tid = Some (fst ?cc)"
      by (simp add: getConversationByTelegramUserId_def createConversation_effect[OF assms(2)]
            find_append conversationData_def)
    show ?thesis
      using None t f storageOk_createConversation[OF assms(2)]
      by (simp add: c w1 createConversation_effect[OF assms(2)] createConversation_stored)
  next
    case (Some c')
    have e: "c = c'" "w1 = w" using assms(1) unfolding getOrCreateConversation_found[OF Some] by simp_all
    have v: "c' \<in> set (Map_values (conversations (storage w)))" and t: "telegramUserId c' = tid"
      using Some unfolding getConversationByTelegramUserId_def by (auto dest: find_SomeD)
    have "getConversation (storage w) (id_c c') = Some c'"
      unfolding getConversation_def using m v by (rule mapOk_values_get)
    then show ?thesis using Some assms(2) t by (simp add: e)
  qed
  show "storageOk (storage w1)"
    and "supportGroupId w1 = supportGroupId w"
    and "botCalls w1 = botCalls w"
    and "users (storage w1) = users (storage w)"
    and "messages (storage w1) = messages (storage w)"
    and "supportIssues (storage w1) = supportIssues (storage w)"
    and "telegramUserId c = tid"
    and "getConversation (storage w1) (id_c c) = Some c"
    and "getConversationByTelegramUserId (storage w1) tid = Some c"
    and "Map_values (conversations (storage w1)) =
           Map_values (conversations (storage w)) @
             (if getConversationByTelegramUserId (storage w) tid = None then [c] else [])"
    and "keysOf (conversations (storage w1)) =
           keysOf (conversations (storage w)) @
             (if getConversationByTelegramUserId (storage w) tid = None
              then [currentIds_conversations (storage w)] else [])"
    and "getConversationByTelegramUserId (storage w) tid = None \<Longrightarrow> threadId c = None"
    using all by simp_all
qed

lemma updateConversation_get_same:
  assumes "\<And>c. g ((foldl spreadConversationField c fs)\<lparr>lastMessageAt := now\<rparr>) = g c"
  shows "map_option g (getConversation (snd (updateConversation now i fs s)) j) =
         map_option g (getConversation s j)"
  using assms
  by (cases "getConversation s i")
     (auto simp: updateConversation_def getConversation_def Let_def Map_get_set)

lemma createMessage_get_same:
  assumes "\<And>c t. g (c\<lparr>lastMessageAt := t\<rparr>) = g c"
  shows "map_option g (getConversation (snd (createMessage now touched im s)) j) =
         map_option g (getConversation s j)"
proof -
  define s1 where "s1 = s\<lparr>currentIds_messages := currentIds_messages s + 1,
     messages := Map_set (messages s) (currentIds_messages s)
                   (InsertMessage.extend im (Message.fields (currentIds_messages s) now))\<rparr>"
  have g1: "getConversation s1 k = getConversation s k" for k
    by (simp add: s1_def getConversation_def)
  have r: "snd (createMessage now touched im s) =
             (case getConversation s1 (conversationId im) of
                None \<Rightarrow> s1 | Some c \<Rightarrow> snd (updateConversation touched (id_c c) [] s1))"
    by (simp add: createMessage_def Let_def s1_def InsertMessage.extend_def split: option.splits)
  show ?thesis
    unfolding r using updateConversation_get_same[where g = g and fs = "[]" and now = touched and s = s1] assms
    by (simp add: g1 split: option.splits)
qed

lemma storeMessage_rejected: "storeMessage env Rejected w = (Rejected, w)"
  by (simp add: storeMessage_def)

lemma storeMessage_frame:
  assumes "storeMessage env md w = (r, w1)" and "storageOk (storage w)"
  shows "storageOk (storage w1)"
    and "supportGroupId w1 = supportGroupId w"
    and "botCalls w1 = botCalls w"
    and "users (storage w1) = users (storage w)"
    and "supportIssues (storage w1) = supportIssues (storage w)"
    and "keysOf (conversations (storage w1)) = keysOf (conversations (storage w))"
    and "(\<And>c t. g (c\<lparr>lastMessageAt := t\<rparr>) = g c) \<Longrightarrow>
           map g (Map_values (conversations (storage w1))) =
           map g (Map_values (conversations (storage w)))"
    and "(\<And>c t. h (c\<lparr>lastMessageAt := t\<rparr>) = h c) \<Longrightarrow>
           map_option h (getConversation (storage w1) j) =
           map_option h (getConversation (storage w) j)"
    and "Map_values (messages (storage w1)) =
           Map_values (messages (storage w)) @
             (case md of
                Rejected \<Rightarrow> []
              | Fulfilled d \<Rightarrow>
                  [InsertMessage.extend d
                     (Message.fields (currentIds_messages (storage w)) (at_createMessage env))])"
    and "r = (case md of Rejected \<Rightarrow> Rejected | Fulfilled d \<Rightarrow> Fulfilled ())"
proof -
  have r: "r = (case md of Rejected \<Rightarrow> Rejected | Fulfilled d \<Rightarrow> Fulfilled ())"
    and w1: "w1 = (case md of Rejected \<Rightarrow> w
                   | Fulfilled d \<Rightarrow>
                       w\<lparr>storage := snd (createMessage (at_createMessage env)
                                            (at_touchConversation env) d (storage w))\<rparr>)"
    using assms(1) by (auto simp: storeMessage_def split: Promise.splits)
  show "storageOk (storage w1)"
    and "supportGroupId w1 = supportGroupId w"
    and "botCalls w1 = botCalls w"
    and "users (storage w1) = users (storage w)"
    and "supportIssues (storage w1) = supportIssues (storage w)"
    and "keysOf (conversations (storage w1)) = keysOf (conversations (storage w))"
    and "Map_values (messages (storage w1)) =
           Map_values (messages (storage w)) @
             (case md of
                Rejected \<Rightarrow> []
              | Fulfilled d \<Rightarrow>
                  [InsertMessage.extend d
                     (Message.fields (currentIds_messages (storage w)) (at_createMessage env))])"
    and "r = (case md of Rejected \<Rightarrow> Rejected | Fulfilled d \<Rightarrow> Fulfilled ())"
    using storageOk_createMessage[OF assms(2)] assms(2) r
    by (simp_all add: w1 createMessage_effect(1-4)[OF assms(2)] split: Promise.splits)
  show "map g (Map_values (conversations (storage w1))) =
           map g (Map_values (conversations (storage w)))"
    if "\<And>c t. g (c\<lparr>lastMessageAt := t\<rparr>) = g c"
    using createMessage_effect(5)[OF assms(2), of g] that
    by (simp add: w1 split: Promise.splits)
  show "map_option h (getConversation (storage w1) j) =
           map_option h (getConversation (storage w) j)"
    if "\<And>c t. h (c\<lparr>lastMessageAt := t\<rparr>) = h c"
    using createMessage_get_same[of h] that by (simp add: w1 split: Promise.splits)
qed

lemma fetchProfilePhoto_frame:
  assumes "storageOk (storage w)"
  shows "storageOk (storage (fetchProfilePhoto env tid user w))"
    and "supportGroupId (fetchProfilePhoto env tid user w) = supportGroupId w"
    and "conversations (storage (fetchProfilePhoto env tid user w)) = conversations (storage w)"
    and "messages (storage (fetchProfilePhoto env tid user w)) = messages (storage w)"
    and "supportIssues (storage (fetchProfilePhoto env tid user w)) = supportIssues (storage w)"
    and "keysOf (users (storage (fetchProfilePhoto env tid user w))) = keysOf (users (storage w))"
    and "map telegramId (Map_values (users (storage (fetchProfilePhoto env tid user w)))) =
         map telegramId (Map_values (users (storage w)))"
    and "filter isWelcome (botCalls (fetchProfilePhoto env tid user w)) = filter isWelcome (botCalls w)"
    and "filter isMediaForward (botCalls (fetchProfilePhoto env tid user w)) =
         filter isMediaForward (botCalls w)"
    and "filter (isTextForward g) (botCalls (fetchProfilePhoto env tid user w)) =
         filter (isTextForward g) (botCalls w)"
  using assms storageOk_updateUser[OF assms] updateUser_profilePhoto_telegramIds[OF assms]
  by (simp_all add: fetchProfilePhoto_def Let_def updateUser_effect
        split: option.splits list.splits)

lemma createThread_threaded:
  assumes "truthy (threadId conversation)"
  shows "createThread env g f tid user conversation w = (Fulfilled conversation, w)"
  using assms by (simp add: createThread_def)

lemma createThread_unthreaded:
  assumes "\<not> truthy (threadId conversation)"
  shows "createThread env g f tid user conversation w =
           (case threadMessageId env of
              None \<Rightarrow> (Rejected, introduced env g f tid user w)
            | Some mid \<Rightarrow>
                if forumTopicCreated env
                then (Fulfilled (conversation\<lparr>threadId := Some (toString mid)\<rparr>),
                      (topicRequested env g f tid user w)
                        \<lparr>storage := threadRecorded env tid conversation mid
                                      (storage (topicRequested env g f tid user w))\<rparr>)
                else (Fulfilled conversation, topicRequested env g f tid user w))"
  using assms
  by (simp add: createThread_def Let_def introduced_def topicRequested_def threadRecorded_def
        split: option.splits)

lemma topicRequested_frame:
  assumes "storageOk (storage w)"
  shows "storageOk (storage (topicRequested env g f tid user w))"
    and "supportGroupId (topicRequested env g f tid user w) = supportGroupId w"
    and "conversations (storage (topicRequested env g f tid user w)) = conversations (storage w)"
    and "messages (storage (topicRequested env g f tid user w)) = messages (storage w)"
    and "supportIssues (storage (topicRequested env g f tid user w)) = supportIssues (storage w)"
    and "keysOf (users (storage (topicRequested env g f tid user w))) = keysOf (users (storage w))"
    and "map telegramId (Map_values (users (storage (topicRequested env g f tid user w)))) =
         map telegramId (Map_values (users (storage w)))"
    and "filter isWelcome (botCalls (topicRequested env g f tid user w)) = filter isWelcome (botCalls w)"
    and "filter isMediaForward (botCalls (topicRequested env g f tid user w)) =
         filter isMediaForward (botCalls w)"
    and "filter (isTextForward g') (botCalls (topicRequested env g f tid user w)) =
         filter (isTextForward g') (botCalls w)"
  using fetchProfilePhoto_frame[OF assms, where env = env and tid = tid and user = user]
  by (simp_all add: topicRequested_def introduced_def)

lemma introduced_frame:
  assumes "storageOk (storage w)"
  shows "storageOk (storage (introduced env g f tid user w))"
    and "supportGroupId (introduced env g f tid user w) = supportGroupId w"
    and "conversations (storage (introduced env g f tid user w)) = conversations (storage w)"
    and "messages (storage (introduced env g f tid user w)) = messages (storage w)"
    and "supportIssues (storage (introduced env g f tid user w)) = supportIssues (storage w)"
    and "keysOf (users (storage (introduced env g f tid user w))) = keysOf (users (storage w))"
    and "map telegramId (Map_values (users (storage (introduced env g f tid user w)))) =
         map telegramId (Map_values (users (storage w)))"
    and "filter isWelcome (botCalls (introduced env g f tid user w)) = filter isWelcome (botCalls w)"
    and "filter isMediaForward (botCalls (introduced env g f tid user w)) =
         filter isMediaForward (botCalls w)"
    and "filter (isTextForward g') (botCalls (introduced env g f tid user w)) =
         filter (isTextForward g') (botCalls w)"
  using fetchProfilePhoto_frame[OF assms, where env = env and tid = tid and user = user]
  by (simp_all add: introduced_def)

lemma threadRecorded_frame:
  assumes "storageOk s"
  shows "storageOk (threadRecorded env tid conversation mid s)"
    and "users (threadRecorded env tid conversation mid s) = users s"
    and "messages (threadRecorded env tid conversation mid s) = messages s"
    and "keysOf (conversations (threadRecorded env tid conversation mid s)) = keysOf (conversations s)"
    and "map telegramUserId (Map_values (conversations (threadRecorded env tid conversation mid s))) =
         map telegramUserId (Map_values (conversations s))"
    and "Map_values (supportIssues (threadRecorded env tid conversation mid s)) =
         Map_values (supportIssues s) @
           [InsertSupportIssue.extend (issueData tid (conversation\<lparr>threadId := Some (toString mid)\<rparr>))
              (SupportIssue.fields (currentIds_supportIssues s) (at_createIssue env) None)]"
proof -
  let ?s4 = "snd (updateConversation (at_threadUpdate env) (id_c conversation)
                [Set_threadId (Some (toString mid))] s)"
  have ok4: "storageOk ?s4" using assms by (rule storageOk_updateConversation)
  have tu: "map telegramUserId (Map_values (conversations ?s4)) =
            map telegramUserId (Map_values (conversations s))"
    using assms by (rule updateConversation_same) simp
  have c4: "currentIds_supportIssues ?s4 = currentIds_supportIssues s"
    by (simp add: updateConversation_def Let_def split: option.splits)
  have fst_cs: "fst (createSupportIssue now ii s') =
                  InsertSupportIssue.extend ii (SupportIssue.fields (currentIds_supportIssues s') now None)"
    for now ii s'
    by (simp add: createSupportIssue_def Let_def)
  show "storageOk (threadRecorded env tid conversation mid s)"
    and "users (threadRecorded env tid conversation mid s) = users s"
    and "messages (threadRecorded env tid conversation mid s) = messages s"
    and "keysOf (conversations (threadRecorded env tid conversation mid s)) = keysOf (conversations s)"
    and "map telegramUserId (Map_values (conversations (threadRecorded env tid conversation mid s))) =
         map telegramUserId (Map_values (conversations s))"
    and "Map_values (supportIssues (threadRecorded env tid conversation mid s)) =
         Map_values (supportIssues s) @
           [InsertSupportIssue.extend (issueData tid (conversation\<lparr>threadId := Some (toString mid)\<rparr>))
              (SupportIssue.fields (currentIds_supportIssues s) (at_createIssue env) None)]"
    using tu storageOk_createSupportIssue[OF ok4]
    by (simp_all add: threadRecorded_def createSupportIssue_effect[OF ok4] updateConversation_effect
          fst_cs c4)
qed

lemma createThread_frame:
  assumes "createThread env g f tid user conversation w = (r, w1)" and "storageOk (storage w)"
  shows "storageOk (storage w1)"
    and "supportGroupId w1 = supportGroupId w"
    and "messages (storage w1) = messages (storage w)"
    and "keysOf (users (storage w1)) = keysOf (users (storage w))"
    and "map telegramId (Map_values (users (storage w1))) =
         map telegramId (Map_values (users (storage w)))"
    and "keysOf (conversations (storage w1)) = keysOf (conversations (storage w))"
    and "map telegramUserId (Map_values (conversations (storage w1))) =
         map telegramUserId (Map_values (conversations (storage w)))"
    and "filter isWelcome (botCalls w1) = filter isWelcome (botCalls w)"
    and "filter isMediaForward (botCalls w1) = filter isMediaForward (botCalls w)"
    and "filter (isTextForward g') (botCalls w1) = filter (isTextForward g') (botCalls w)"
proof -
  note tr = topicRequested_frame[OF assms(2), where env = env and g = g and f = f and tid = tid and user = user]
  note ir = introduced_frame[OF assms(2), where env = env and g = g and f = f and tid = tid and user = user]
  note rec = threadRecorded_frame[OF tr(1), where env = env and tid = tid and conversation = conversation]
  have w1: "w1 = snd (createThread env g f tid user conversation w)" using assms(1) by simp
  show "storageOk (storage w1)"
    and "supportGroupId w1 = supportGroupId w"
    and "messages (storage w1) = messages (storage w)"
    and "keysOf (users (storage w1)) = keysOf (users (storage w))"
    and "map telegramId (Map_values (users (storage w1))) =
         map telegramId (Map_values (users (storage w)))"
    and "keysOf (conversations (storage w1)) = keysOf (conversations (storage w))"
    and "map telegramUserId (Map_values (conversations (storage w1))) =
         map telegramUserId (Map_values (conversations (storage w)))"
    and "filter isWelcome (botCalls w1) = filter isWelcome (botCalls w)"
    and "filter isMediaForward (botCalls w1) = filter isMediaForward (botCalls w)"
    and "filter (isTextForward g') (botCalls w1) = filter (isTextForward g') (botCalls w)"
    unfolding w1 using assms(2) tr ir rec
    by (cases "truthy (threadId conversation)";
        simp add: createThread_threaded createThread_unthreaded split: option.splits)+
qed

lemma forwardText_effect:
  assumes "forwardText env g m f conversation w = (r, w1)"
  shows "storage w1 = storage w"
    and "supportGroupId w1 = supportGroupId w"
    and "botCalls w1 = botCalls w @
           (if truthy (text_m m)
            then [SendMessage (ChatStr g) (boldPrefix f (the (text_m m))) (threadOptions conversation)]
            else [])"
    and "r = (if truthy (text_m m) \<and> \<not> textForwarded env then Rejected else Fulfilled ())"
  using assms by (auto simp: forwardText_def Let_def botCalls_call split: if_splits)

lemma forwardMedia_effect:
  assumes "forwardMedia env g m f conversation w = (r, w1)"
  shows "storage w1 = storage w"
    and "supportGroupId w1 = supportGroupId w"
    and "filter isWelcome (botCalls w1) = filter isWelcome (botCalls w)"
    and "filter (isTextForward g') (botCalls w1) = filter (isTextForward g') (botCalls w)"
  using assms
  by (auto simp: forwardMedia_def Let_def split: if_splits Promise.splits)

text \<open>The options of a media send into the thread: the thread options and the prefixed caption.\<close>

lemma forwardMedia_calls:
  assumes "forwardMedia env g m f conversation w = (r, w1)"
  shows "photo m = None \<Longrightarrow> document m = None \<Longrightarrow> video m = None \<Longrightarrow> botCalls w1 = botCalls w"
    and "photo m = Some sizes \<Longrightarrow> sizes \<noteq> [] \<Longrightarrow> last sizes \<noteq> [] \<Longrightarrow>
           botCalls w1 = botCalls w @
             [SendPhoto (ChatStr g) (last sizes)
                ((threadOptions conversation)\<lparr>caption_opt := Some (boldPrefix f (orElse (caption m) []))\<rparr>)]"
    and "photo m = None \<Longrightarrow> document m = Some d \<Longrightarrow> d \<noteq> [] \<Longrightarrow>
           botCalls w1 = botCalls w @
             [SendDocument (ChatStr g) d
                ((threadOptions conversation)\<lparr>caption_opt := Some (boldPrefix f (orElse (caption m) []))\<rparr>)]"
    and "photo m = None \<Longrightarrow> document m = None \<Longrightarrow> video m = Some v \<Longrightarrow> v \<noteq> [] \<Longrightarrow>
           botCalls w1 = botCalls w @
             [SendVideo (ChatStr g) v
                ((threadOptions conversation)\<lparr>caption_opt := Some (boldPrefix f (orElse (caption m) []))\<rparr>)]"
  using assms
  by (auto simp: forwardMedia_def Let_def getFileId_def hasMedia_def truthy_def botCalls_call
        split: if_splits Promise.splits)

lemma forwardTextToUser_effect:
  assumes "forwardTextToUser env u m w = (r, w1)"
  shows "storage w1 = storage w"
    and "supportGroupId w1 = supportGroupId w"
    and "filter isMediaForward (botCalls w1) = filter isMediaForward (botCalls w)"
    and "botCalls w1 = botCalls w @
           (if truthy (text_m m) then [SendMessage (ChatStr u) (the (text_m m)) noOptions] else [])"
  using assms by (auto simp: forwardTextToUser_def Let_def botCalls_call split: if_splits)

lemma forwardMediaToUser_calls:
  assumes "forwardMediaToUser env u m w = (r, w1)"
  shows "storage w1 = storage w"
    and "supportGroupId w1 = supportGroupId w"
    and "photo m = None \<Longrightarrow> document m = None \<Longrightarrow> video m = None \<Longrightarrow> botCalls w1 = botCalls w"
    and "photo m = Some sizes \<Longrightarrow> sizes \<noteq> [] \<Longrightarrow> last sizes \<noteq> [] \<Longrightarrow>
           botCalls w1 = botCalls w @
             [SendPhoto (ChatStr u) (last sizes) (noOptions\<lparr>caption_opt := caption m\<rparr>)]"
    and "photo m = None \<Longrightarrow> document m = Some d \<Longrightarrow> d \<noteq> [] \<Longrightarrow>
           botCalls w1 = botCalls w @
             [SendDocument (ChatStr u) d (noOptions\<lparr>caption_opt := caption m\<rparr>)]"
    and "photo m = None \<Longrightarrow> document m = None \<Longrightarrow> video m = Some v \<Longrightarrow> v \<noteq> [] \<Longrightarrow>
           botCalls w1 = botCalls w @
             [SendVideo (ChatStr u) v (noOptions\<lparr>caption_opt := caption m\<rparr>)]"
  using assms
  by (auto simp: forwardMediaToUser_def Let_def getFileId_def hasMedia_def truthy_def botCalls_call
        split: if_splits Promise.splits)

subsection \<open>The paths through the user handler\<close>

lemma handleUserDirectMessage_paths [consumes 1, case_names welcomeRejected storeRejected stored]:
  assumes "from_user m = Some f"
  obtains
    (welcomeRejected) w1 where
      "getOrCreateUser env m f w = (Rejected, w1)"
      "handleUserDirectMessage env m w = (Rejected, w1)"
  | (storeRejected) user w1 conversation w2 w3 where
      "getOrCreateUser env m f w = (Fulfilled user, w1)"
      "getOrCreateConversation env (toString (id_tg f)) w1 = (conversation, w2)"
      "storeMessage env (messageData (id_c conversation) (toString (id_tg f)) ''user'' m f) w2
         = (Rejected, w3)"
      "handleUserDirectMessage env m w = (Rejected, w3)"
  | (stored) user w1 conversation w2 w3 where
      "getOrCreateUser env m f w = (Fulfilled user, w1)"
      "getOrCreateConversation env (toString (id_tg f)) w1 = (conversation, w2)"
      "storeMessage env (messageData (id_c conversation) (toString (id_tg f)) ''user'' m f) w2
         = (Fulfilled (), w3)"
      "handleUserDirectMessage env m w =
         forwardToSupport env m f (toString (id_tg f)) user conversation w3"
proof -
  obtain r1 w1 where h1: "getOrCreateUser env m f w = (r1, w1)" by force
  show thesis
  proof (cases r1)
    case Rejected
    then show thesis
      using h1 assms welcomeRejected[of w1] by (simp add: handleUserDirectMessage_def)
  next
    case (Fulfilled user)
    obtain conversation w2 where
      h2: "getOrCreateConversation env (toString (id_tg f)) w1 = (conversation, w2)" by force
    obtain r3 w3 where
      h3: "storeMessage env (messageData (id_c conversation) (toString (id_tg f)) ''user'' m f) w2
             = (r3, w3)" by force
    show thesis
    proof (cases r3)
      case Rejected
      then show thesis
        using h1 h2 h3 Fulfilled assms storeRejected[of user w1 conversation w2 w3]
        by (simp add: handleUserDirectMessage_def)
    next
      case (Fulfilled u)
      then show thesis
        using h1 h2 h3 \<open>r1 = Fulfilled user\<close> assms stored[of user w1 conversation w2 w3]
        by (simp add: handleUserDirectMessage_def)
    qed
  qed
qed

lemma forwardToSupport_paths [case_names noGroup threadRejected textRejected media]:
  obtains
    (noGroup)
      "\<not> truthy (supportGroupId w)"
      "forwardToSupport env m f tid user conversation w = (Fulfilled (), w)"
  | (threadRejected) g w1 where
      "supportGroupId w = Some g" "g \<noteq> []"
      "createThread env g f tid user conversation w = (Rejected, w1)"
      "forwardToSupport env m f tid user conversation w = (Rejected, w1)"
  | (textRejected) g conversation' w1 w2 where
      "supportGroupId w = Some g" "g \<noteq> []"
      "createThread env g f tid user conversation w = (Fulfilled conversation', w1)"
      "forwardText env g m f conversation' w1 = (Rejected, w2)"
      "forwardToSupport env m f tid user conversation w = (Rejected, w2)"
  | (media) g conversation' w1 w2 r w3 where
      "supportGroupId w = Some g" "g \<noteq> []"
      "createThread env g f tid user conversation w = (Fulfilled conversation', w1)"
      "forwardText env g m f conversation' w1 = (Fulfilled (), w2)"
      "forwardMedia env g m f conversation' w2 = (r, w3)"
      "forwardToSupport env m f tid user conversation w = (r, w3)"
proof (cases "truthy (supportGroupId w)")
  case False
  then show thesis using noGroup by (simp add: forwardToSupport_def)
next
  case True
  then obtain g where g: "supportGroupId w = Some g" "g \<noteq> []"
    by (auto simp: truthy_def split: option.splits)
  obtain r1 w1 where h1: "createThread env g f tid user conversation w = (r1, w1)" by force
  show thesis
  proof (cases r1)
    case Rejected
    then show thesis
      using True g h1 threadRejected[of g w1] by (simp add: forwardToSupport_def)
  next
    case (Fulfilled conversation')
    obtain r2 w2 where h2: "forwardText env g m f conversation' w1 = (r2, w2)" by force
    show thesis
    proof (cases r2)
      case Rejected
      then show thesis
        using True g h1 h2 Fulfilled textRejected[of g conversation' w1 w2]
        by (simp add: forwardToSupport_def)
    next
      case (Fulfilled u)
      obtain r3 w3 where h3: "forwardMedia env g m f conversation' w2 = (r3, w3)" by force
      show thesis
        using True g h1 h2 h3 Fulfilled \<open>r1 = Fulfilled conversation'\<close>
          media[of g conversation' w1 w2 r3 w3]
        by (simp add: forwardToSupport_def)
    qed
  qed
qed

subsection \<open>The paths through the support-group handler\<close>

lemma handleSupportGroupMessage_paths [consumes 3, case_names storeRejected textRejected media]:
  assumes "from_user m = Some f" and "reply_to_message m = Some rid"
      and "getConversationByThreadId (storage w) (toString rid) = Some conversation"
  obtains
    (storeRejected) w1 where
      "storeMessage env (messageData (id_c conversation) (toString (id_tg f)) ''admin'' m f) w
         = (Rejected, w1)"
      "handleSupportGroupMessage env m w = (Rejected, w1)"
  | (textRejected) w1 w2 where
      "storeMessage env (messageData (id_c conversation) (toString (id_tg f)) ''admin'' m f) w
         = (Fulfilled (), w1)"
      "forwardTextToUser env (telegramUserId conversation) m w1 = (Rejected, w2)"
      "handleSupportGroupMessage env m w = (Rejected, w2)"
  | (media) w1 w2 r w3 where
      "storeMessage env (messageData (id_c conversation) (toString (id_tg f)) ''admin'' m f) w
         = (Fulfilled (), w1)"
      "forwardTextToUser env (telegramUserId conversation) m w1 = (Fulfilled (), w2)"
      "forwardMediaToUser env (telegramUserId conversation) m w2 = (r, w3)"
      "handleSupportGroupMessage env m w = (r, w3)"
proof -
  obtain r1 w1 where
    h1: "storeMessage env (messageData (id_c conversation) (toString (id_tg f)) ''admin'' m f) w
           = (r1, w1)" by force
  show thesis
  proof (cases r1)
    case Rejected
    then show thesis
      using h1 assms storeRejected[of w1] by (simp add: handleSupportGroupMessage_def)
  next
    case (Fulfilled u)
    obtain r2 w2 where h2: "forwardTextToUser env (telegramUserId conversation) m w1 = (r2, w2)"
      by force
    show thesis
    proof (cases r2)
      case Rejected
      then show thesis
        using h1 h2 assms Fulfilled textRejected[of w1 w2]
        by (simp add: handleSupportGroupMessage_def)
    next
      case (Fulfilled u')
      obtain r3 w3 where h3: "forwardMediaToUser env (telegramUserId conversation) m w2 = (r3, w3)"
        by force
      show thesis
        using h1 h2 h3 assms Fulfilled \<open>r1 = Fulfilled u\<close> media[of w1 w2 r3 w3]
        by (simp add: handleSupportGroupMessage_def Let_def)
    qed
  qed
qed

subsection \<open>Media: what is stored and what is forwarded\<close>

lemma messageData_no_photo:
  assumes "photo m = None"
  shows "messageData cid sid stype m f =
           Fulfilled
             \<lparr>conversationId = cid, telegramMessageId = Some (toString (message_id m)),
              senderId = sid, senderType = stype, senderName = Some (senderNameOf f),
              content = orNull (text_m m), mediaType = getMediaType m,
              mediaUrl = (if document m \<noteq> None then document m
                          else if video m \<noteq> None then video m
                          else if audio m \<noteq> None then audio m
                          else voice m)\<rparr>"
  using assms by (auto simp: messageData_def getMediaUrl_def getFileId_def)

text \<open>No media call leaves the user handler when the message has no photo, document or video.\<close>

lemma user_no_media_forward:
  assumes "storageOk (storage w)"
      and "photo m = None" and "document m = None" and "video m = None"
  shows "filter isMediaForward (botCalls (snd (handleUserDirectMessage env m w))) =
         filter isMediaForward (botCalls w)"
proof (cases "from_user m")
  case None
  then show ?thesis by (simp add: handleUserDirectMessage_def)
next
  case (Some f)
  then show ?thesis
  proof (cases rule: handleUserDirectMessage_paths[where env = env and w = w])
    case (welcomeRejected w1)
    then show ?thesis using getOrCreateUser_frame(6)[OF welcomeRejected(1) assms(1)] by simp
  next
    case (storeRejected user w1 conversation w2 w3)
    note a = getOrCreateUser_frame[OF storeRejected(1) assms(1)]
    note b = getOrCreateConversation_frame[OF storeRejected(2) a(1)]
    note c = storeMessage_frame[OF storeRejected(3) b(1)]
    show ?thesis using storeRejected(4) a(6) b(3) c(3) by simp
  next
    case (stored user w1 conversation w2 w3)
    note a = getOrCreateUser_frame[OF stored(1) assms(1)]
    note b = getOrCreateConversation_frame[OF stored(2) a(1)]
    note c = storeMessage_frame[OF stored(3) b(1)]
    have w3: "filter isMediaForward (botCalls w3) = filter isMediaForward (botCalls w)"
      using a(6) b(3) c(3) by simp
    show ?thesis
    proof (cases rule: forwardToSupport_paths
             [where env = env and m = m and f = f and tid = "toString (id_tg f)"
                and user = user and conversation = conversation and w = w3])
      case noGroup
      then show ?thesis using stored(4) w3 by simp
    next
      case (threadRejected g w4)
      then show ?thesis
        using stored(4) w3 createThread_frame(9)[OF threadRejected(3) c(1)] by simp
    next
      case (textRejected g conversation' w4 w5)
      then show ?thesis
        using stored(4) w3 createThread_frame(9)[OF textRejected(3) c(1)]
          forwardText_effect(3)[OF textRejected(4)] by simp
    next
      case (media g conversation' w4 w5 r w6)
      then show ?thesis
        using stored(4) w3 createThread_frame(9)[OF media(3) c(1)]
          forwardText_effect(3)[OF media(4)] forwardMedia_calls(1)[OF media(5) assms(2-4)]
        by simp
    qed
  qed
qed

lemma forwardToSupport_frame:
  assumes "forwardToSupport env m f tid user conversation w = (r, w')" and "storageOk (storage w)"
  shows "storageOk (storage w')"
    and "supportGroupId w' = supportGroupId w"
    and "messages (storage w') = messages (storage w)"
    and "keysOf (users (storage w')) = keysOf (users (storage w))"
    and "map telegramId (Map_values (users (storage w'))) =
         map telegramId (Map_values (users (storage w)))"
    and "keysOf (conversations (storage w')) = keysOf (conversations (storage w))"
    and "map telegramUserId (Map_values (conversations (storage w'))) =
         map telegramUserId (Map_values (conversations (storage w)))"
    and "filter isWelcome (botCalls w') = filter isWelcome (botCalls w)"
proof -
  have "storageOk (storage w') \<and> supportGroupId w' = supportGroupId w \<and>
    messages (storage w') = messages (storage w) \<and>
    keysOf (users (storage w')) = keysOf (users (storage w)) \<and>
    map telegramId (Map_values (users (storage w'))) =
         map telegramId (Map_values (users (storage w))) \<and>
    keysOf (conversations (storage w')) = keysOf (conversations (storage w)) \<and>
    map telegramUserId (Map_values (conversations (storage w'))) =
         map telegramUserId (Map_values (conversations (storage w))) \<and>
    filter isWelcome (botCalls w') = filter isWelcome (botCalls w)"
  proof (cases rule: forwardToSupport_paths
           [where env = env and m = m and f = f and tid = tid
              and user = user and conversation = conversation and w = w])
    case noGroup
    then show ?thesis using assms by simp
  next
    case (threadRejected g w1)
    then show ?thesis using assms createThread_frame[OF threadRejected(3) assms(2)] by simp
  next
    case (textRejected g conversation' w1 w2)
    then show ?thesis
      using assms createThread_frame[OF textRejected(3) assms(2)]
        forwardText_effect[OF textRejected(4)] by simp
  next
    case (media g conversation' w1 w2 r' w3)
    then show ?thesis
      using assms createThread_frame[OF media(3) assms(2)]
        forwardText_effect[OF media(4)] forwardMedia_effect[OF media(5)] by simp
  qed
  then show "storageOk (storage w')"
    and "supportGroupId w' = supportGroupId w"
    and "messages (storage w') = messages (storage w)"
    and "keysOf (users (storage w')) = keysOf (users (storage w))"
    and "map telegramId (Map_values (users (storage w'))) =
         map telegramId (Map_values (users (storage w)))"
    and "keysOf (conversations (storage w')) = keysOf (conversations (storage w))"
    and "map telegramUserId (Map_values (conversations (storage w'))) =
         map telegramUserId (Map_values (conversations (storage w)))"
    and "filter isWelcome (botCalls w') = filter isWelcome (botCalls w)"
    by simp_all
qed

text \<open>
  When the user handler gets past the welcome and the message has no photo, exactly one
  message is stored, with the media kind and the file id of the event.
\<close>

lemma user_message_stored:
  assumes "storageOk (storage w)" and "from_user m = Some f" and "photo m = None"
      and "getUserByTelegramId (storage w) (toString (id_tg f)) \<noteq> None \<or> welcomeSent env"
  shows "\<exists>msg. Map_values (messages (storage (snd (handleUserDirectMessage env m w)))) =
                 Map_values (messages (storage w)) @ [msg] \<and>
               senderType msg = ''user'' \<and>
               mediaType msg = getMediaType m \<and>
               mediaUrl msg = (if document m \<noteq> None then document m
                               else if video m \<noteq> None then video m
                               else if audio m \<noteq> None then audio m
                               else voice m)"
  using assms(2)
proof (cases rule: handleUserDirectMessage_paths[where env = env and w = w])
  case (welcomeRejected w1)
  show ?thesis
  proof (cases "getUserByTelegramId (storage w) (toString (id_tg f))")
    case None
    then show ?thesis
      using assms(4) welcomeRejected(1) getOrCreateUser_new(1)[OF None welcomeRejected(1) assms(1)]
      by simp
  next
    case (Some u)
    then show ?thesis using welcomeRejected(1) by (simp add: getOrCreateUser_found)
  qed
next
  case (storeRejected user w1 conversation w2 w3)
  note a = getOrCreateUser_frame[OF storeRejected(1) assms(1)]
  note b = getOrCreateConversation_frame[OF storeRejected(2) a(1)]
  show ?thesis
    using storeMessage_frame(10)[OF storeRejected(3) b(1)]
    by (simp add: messageData_no_photo[OF assms(3)])
next
  case (stored user w1 conversation w2 w3)
  note a = getOrCreateUser_frame[OF stored(1) assms(1)]
  note b = getOrCreateConversation_frame[OF stored(2) a(1)]
  note c = storeMessage_frame[OF stored(3) b(1)]
  obtain r w' where h: "forwardToSupport env m f (toString (id_tg f)) user conversation w3 = (r, w')"
    by force
  note d = forwardToSupport_frame[OF h c(1)]
  show ?thesis
    using stored(4) h d(3) c(9) a(4) b(5)
    by (simp add: messageData_no_photo[OF assms(3)] InsertMessage.extend_def Message.fields_def)
qed

text \<open>
  A run of the user handler that completes with a support group configured ends in the
  media block, and no media call was made before that block.
\<close>

lemma user_reaches_media_block:
  assumes "storageOk (storage w)" and "from_user m = Some f"
      and "supportGroupId w = Some g" and "g \<noteq> []"
      and "handleUserDirectMessage env m w = (Fulfilled (), w')"
  shows "\<exists>conversation' w5.
           forwardMedia env g m f conversation' w5 = (Fulfilled (), w') \<and>
           filter isMediaForward (botCalls w5) = filter isMediaForward (botCalls w)"
  using assms(2)
proof (cases rule: handleUserDirectMessage_paths[where env = env and w = w])
  case (welcomeRejected w1)
  then show ?thesis using assms(5) by simp
next
  case (storeRejected user w1 conversation w2 w3)
  then show ?thesis using assms(5) by simp
next
  case (stored user w1 conversation w2 w3)
  note a = getOrCreateUser_frame[OF stored(1) assms(1)]
  note b = getOrCreateConversation_frame[OF stored(2) a(1)]
  note c = storeMessage_frame[OF stored(3) b(1)]
  have w3: "filter isMediaForward (botCalls w3) = filter isMediaForward (botCalls w)"
    using a(6) b(3) c(3) by simp
  have g3: "supportGroupId w3 = Some g" using a(2) b(2) c(2) assms(3) by simp
  show ?thesis
  proof (cases rule: forwardToSupport_paths
           [where env = env and m = m and f = f and tid = "toString (id_tg f)"
              and user = user and conversation = conversation and w = w3])
    case noGroup
    then show ?thesis using g3 assms(4) by (simp add: truthy_def)
  next
    case (threadRejected g' w4)
    then show ?thesis using stored(4) assms(5) by simp
  next
    case (textRejected g' conversation' w4 w5)
    then show ?thesis using stored(4) assms(5) by simp
  next
    case (media g' conversation' w4 w5 r w6)
    have "g' = g" using media(1) g3 by simp
    moreover have "r = Fulfilled ()" "w6 = w'" using media(6) stored(4) assms(5) by simp_all
    moreover have "filter isMediaForward (botCalls w5) = filter isMediaForward (botCalls w)"
      using w3 createThread_frame(9)[OF media(3) c(1)] forwardText_effect(3)[OF media(4)] by simp
    ultimately show ?thesis using media(5) by blast
  qed
qed

lemma user_media_forwarded:
  assumes "storageOk (storage w)" and "from_user m = Some f"
      and "supportGroupId w = Some g" and "g \<noteq> []"
      and "handleUserDirectMessage env m w = (Fulfilled (), w')"
  shows "photo m = Some sizes \<Longrightarrow> sizes \<noteq> [] \<Longrightarrow> last sizes \<noteq> [] \<Longrightarrow>
           \<exists>opts. filter isMediaForward (botCalls w') =
                    filter isMediaForward (botCalls w) @ [SendPhoto (ChatStr g) (last sizes) opts]"
    and "photo m = None \<Longrightarrow> document m = Some d \<Longrightarrow> d \<noteq> [] \<Longrightarrow>
           \<exists>opts. filter isMediaForward (botCalls w') =
                    filter isMediaForward (botCalls w) @ [SendDocument (ChatStr g) d opts]"
    and "photo m = None \<Longrightarrow> document m = None \<Longrightarrow> video m = Some v \<Longrightarrow> v \<noteq> [] \<Longrightarrow>
           \<exists>opts. filter isMediaForward (botCalls w') =
                    filter isMediaForward (botCalls w) @ [SendVideo (ChatStr g) v opts]"
proof -
  obtain conversation' w5 where
    h: "forwardMedia env g m f conversation' w5 = (Fulfilled (), w')" and
    b: "filter isMediaForward (botCalls w5) = filter isMediaForward (botCalls w)"
    using user_reaches_media_block[OF assms] by blast
  show "\<exists>opts. filter isMediaForward (botCalls w') =
                    filter isMediaForward (botCalls w) @ [SendPhoto (ChatStr g) (last sizes) opts]"
    if "photo m = Some sizes" "sizes \<noteq> []" "last sizes \<noteq> []"
    using forwardMedia_calls(2)[OF h that] b by simp
  show "\<exists>opts. filter isMediaForward (botCalls w') =
                    filter isMediaForward (botCalls w) @ [SendDocument (ChatStr g) d opts]"
    if "photo m = None" "document m = Some d" "d \<noteq> []"
    using forwardMedia_calls(3)[OF h that] b by simp
  show "\<exists>opts. filter isMediaForward (botCalls w') =
                    filter isMediaForward (botCalls w) @ [SendVideo (ChatStr g) v opts]"
    if "photo m = None" "document m = None" "video m = Some v" "v \<noteq> []"
    using forwardMedia_calls(4)[OF h that] b by simp
qed

text \<open>The same three facts for a reply in the support group that is tied to a conversation.\<close>

lemma admin_no_media_forward:
  assumes "storageOk (storage w)"
      and "photo m = None" and "document m = None" and "video m = None"
  shows "filter isMediaForward (botCalls (snd (handleSupportGroupMessage env m w))) =
         filter isMediaForward (botCalls w)"
proof (cases "from_user m")
  case None
  then show ?thesis by (simp add: handleSupportGroupMessage_def)
next
  case f: (Some f)
  show ?thesis
  proof (cases "reply_to_message m")
    case None
    then show ?thesis using f by (simp add: handleSupportGroupMessage_def)
  next
    case rid: (Some rid)
    show ?thesis
    proof (cases "getConversationByThreadId (storage w) (toString rid)")
      case None
      then show ?thesis using f rid by (simp add: handleSupportGroupMessage_def)
    next
      case (Some conversation)
      from f rid Some show ?thesis
      proof (cases rule: handleSupportGroupMessage_paths[where env = env])
        case (storeRejected w1)
        then show ?thesis using storeMessage_frame(3)[OF storeRejected(1) assms(1)] by simp
      next
        case (textRejected w1 w2)
        then show ?thesis
          using storeMessage_frame(3)[OF textRejected(1) assms(1)]
            forwardTextToUser_effect(3)[OF textRejected(2)] by simp
      next
        case (media w1 w2 r w3)
        then show ?thesis
          using storeMessage_frame(3)[OF media(1) assms(1)]
            forwardTextToUser_effect(3)[OF media(2)]
            forwardMediaToUser_calls(3)[OF media(3) assms(2-4)] by simp
      qed
    qed
  qed
qed

lemma admin_message_stored:
  assumes "storageOk (storage w)" and "from_user m = Some f" and "reply_to_message m = Some rid"
      and "getConversationByThreadId (storage w) (toString rid) = Some conversation"
      and "photo m = None"
  shows "\<exists>msg. Map_values (messages (storage (snd (handleSupportGroupMessage env m w)))) =
                 Map_values (messages (storage w)) @ [msg] \<and>
               senderType msg = ''admin'' \<and>
               mediaType msg = getMediaType m \<and>
               mediaUrl msg = (if document m \<noteq> None then document m
                               else if video m \<noteq> None then video m
                               else if audio m \<noteq> None then audio m
                               else voice m)"
  using assms(2-4)
proof (cases rule: handleSupportGroupMessage_paths[where env = env])
  case (storeRejected w1)
  then show ?thesis
    using storeMessage_frame(10)[OF storeRejected(1) assms(1)]
    by (simp add: messageData_no_photo[OF assms(5)])
next
  case (textRejected w1 w2)
  then show ?thesis
    using storeMessage_frame(9)[OF textRejected(1) assms(1)]
      forwardTextToUser_effect(1)[OF textRejected(2)]
    by (simp add: messageData_no_photo[OF assms(5)] InsertMessage.extend_def Message.fields_def)
next
  case (media w1 w2 r w3)
  then show ?thesis
    using storeMessage_frame(9)[OF media(1) assms(1)]
      forwardTextToUser_effect(1)[OF media(2)] forwardMediaToUser_calls(1)[OF media(3)]
    by (simp add: messageData_no_photo[OF assms(5)] InsertMessage.extend_def Message.fields_def)
qed

lemma admin_media_forwarded:
  assumes "storageOk (storage w)" and "from_user m = Some f" and "reply_to_message m = Some rid"
      and "getConversationByThreadId (storage w) (toString rid) = Some conversation"
      and "handleSupportGroupMessage env m w = (Fulfilled (), w')"
  shows "photo m = Some sizes \<Longrightarrow> sizes \<noteq> [] \<Longrightarrow> last sizes \<noteq> [] \<Longrightarrow>
           filter isMediaForward (botCalls w') =
             filter isMediaForward (botCalls w) @
               [SendPhoto (ChatStr (telegramUserId conversation)) (last sizes)
                  (noOptions\<lparr>caption_opt := caption m\<rparr>)]"
    and "photo m = None \<Longrightarrow> document m = Some d \<Longrightarrow> d \<noteq> [] \<Longrightarrow>
           filter isMediaForward (botCalls w') =
             filter isMediaForward (botCalls w) @
               [SendDocument (ChatStr (telegramUserId conversation)) d
                  (noOptions\<lparr>caption_opt := caption m\<rparr>)]"
    and "photo m = None \<Longrightarrow> document m = None \<Longrightarrow> video m = Some v \<Longrightarrow> v \<noteq> [] \<Longrightarrow>
           filter isMediaForward (botCalls w') =
             filter isMediaForward (botCalls w) @
               [SendVideo (ChatStr (telegramUserId conversation)) v
                  (noOptions\<lparr>caption_opt := caption m\<rparr>)]"
proof -
  obtain w2 where
    h: "forwardMediaToUser env (telegramUserId conversation) m w2 = (Fulfilled (), w')" and
    b: "filter isMediaForward (botCalls w2) = filter isMediaForward (botCalls w)"
    using assms(2-4)
  proof (cases rule: handleSupportGroupMessage_paths[where env = env])
    case (storeRejected w1)
    then show ?thesis using assms(5) by simp
  next
    case (textRejected w1 w2)
    then show ?thesis using assms(5) by simp
  next
    case (media w1 w2 r w3)
    then show ?thesis
      using assms(5) that[of w2] storeMessage_frame(3)[OF media(1) assms(1)]
        forwardTextToUser_effect(3)[OF media(2)] by simp
  qed
  show "filter isMediaForward (botCalls w') =
             filter isMediaForward (botCalls w) @
               [SendPhoto (ChatStr (telegramUserId conversation)) (last sizes)
                  (noOptions\<lparr>caption_opt := caption m\<rparr>)]"
    if "photo m = Some sizes" "sizes \<noteq> []" "last sizes \<noteq> []"
    using forwardMediaToUser_calls(4)[OF h that] b by simp
  show "filter isMediaForward (botCalls w') =
             filter isMediaForward (botCalls w) @
               [SendDocument (ChatStr (telegramUserId conversation)) d
                  (noOptions\<lparr>caption_opt := caption m\<rparr>)]"
    if "photo m = None" "document m = Some d" "d \<noteq> []"
    using forwardMediaToUser_calls(5)[OF h that] b by simp
  show "filter isMediaForward (botCalls w') =
             filter isMediaForward (botCalls w) @
               [SendVideo (ChatStr (telegramUserId conversation)) v
                  (noOptions\<lparr>caption_opt := caption m\<rparr>)]"
    if "photo m = None" "document m = None" "video m = Some v" "v \<noteq> []"
    using forwardMediaToUser_calls(6)[OF h that] b by simp
qed

subsection \<open>Following one conversation through the user handler\<close>

lemma find_replace:
  assumes "find P xs = Some c"
      and "\<And>x. x \<in> set xs \<Longrightarrow> ident x = ident c \<Longrightarrow> x = c"
      and "P c'"
  shows "find P (map (\<lambda>x. if ident x = ident c then c' else x) xs) = Some c'"
  using assms(1,2)
proof (induction xs)
  case Nil
  then show ?case by simp
next
  case (Cons x xs)
  show ?case
  proof (cases "P x")
    case True
    then have "x = c" using Cons.prems(1) by simp
    then show ?thesis using assms(3) by simp
  next
    case False
    then have f: "find P xs = Some c" using Cons.prems(1) by simp
    have "P c" using f by (auto dest: find_SomeD)
    then have "ident x \<noteq> ident c" using False Cons.prems(2)[of x] by auto
    then show ?thesis using False Cons.IH[OF f] Cons.prems(2) by simp
  qed
qed

lemma createMessage_values:
  assumes "storageOk s" and "getConversation s (conversationId im) = Some c"
  shows "Map_values (conversations (snd (createMessage now touched im s))) =
           map (\<lambda>x. if id_c x = id_c c then c\<lparr>lastMessageAt := touched\<rparr> else x)
               (Map_values (conversations s))"
proof -
  define s1 where "s1 = s\<lparr>currentIds_messages := currentIds_messages s + 1,
     messages := Map_set (messages s) (currentIds_messages s)
                   (InsertMessage.extend im (Message.fields (currentIds_messages s) now))\<rparr>"
  have ok1: "storageOk s1"
    using assms(1) unfolding storageOk_def s1_def
    by (simp add: mapOk_append InsertMessage.extend_def Message.fields_def)
  have m: "mapOk id_c (currentIds_conversations s) (conversations s)"
    using assms(1) by (simp add: storageOk_def)
  have i: "id_c c = conversationId im"
    using mapOk_get_id[OF m] assms(2) by (simp add: getConversation_def)
  have g1: "getConversation s1 (id_c c) = Some c"
    using assms(2) i by (simp add: s1_def getConversation_def)
  have r: "snd (createMessage now touched im s) = snd (updateConversation touched (id_c c) [] s1)"
    using g1 i by (simp add: createMessage_def Let_def s1_def InsertMessage.extend_def)
  show ?thesis
    unfolding r using updateConversation_values[OF ok1 g1, of touched "[]"]
    by (simp add: s1_def)
qed

lemma stored_conversation_unique:
  assumes "storageOk s" and "getConversation s i = Some c"
      and "x \<in> set (Map_values (conversations s))" and "id_c x = id_c c"
  shows "x = c"
proof -
  have m: "mapOk id_c (currentIds_conversations s) (conversations s)"
    using assms(1) by (simp add: storageOk_def)
  have g: "Map_get (conversations s) i = Some c" using assms(2) by (simp add: getConversation_def)
  have "id_c c = i" using mapOk_get_id[OF m g] .
  then show ?thesis using mapOk_same_id[OF m g assms(3)] assms(4) by simp
qed

text \<open>
  The prefix of the user handler up to the stored message, seen from the conversation it
  resolved: the conversation is stored under its identifier and is the one found for the
  user id, with the thread reference it had before the event (none if it was created).
\<close>

lemma user_prefix:
  assumes "storageOk (storage w)"
      and "getOrCreateUser env m f w = (Fulfilled user, w1)"
      and "getOrCreateConversation env (toString (id_tg f)) w1 = (conversation, w2)"
      and "storeMessage env (messageData (id_c conversation) (toString (id_tg f)) ''user'' m f) w2
             = (Fulfilled (), w3)"
  shows "storageOk (storage w3)"
    and "supportGroupId w3 = supportGroupId w"
    and "supportIssues (storage w3) = supportIssues (storage w)"
    and "filter isMediaForward (botCalls w3) = filter isMediaForward (botCalls w)"
    and "filter (isTextForward g) (botCalls w3) = filter (isTextForward g) (botCalls w)"
    and "telegramUserId conversation = toString (id_tg f)"
    and "getConversation (storage w3) (id_c conversation) =
           Some (conversation\<lparr>lastMessageAt := at_touchConversation env\<rparr>)"
    and "getConversationByTelegramUserId (storage w3) (toString (id_tg f)) =
           Some (conversation\<lparr>lastMessageAt := at_touchConversation env\<rparr>)"
    and "threadId conversation =
           (case getConversationByTelegramUserId (storage w) (toString (id_tg f)) of
              None \<Rightarrow> None | Some c \<Rightarrow> threadId c)"
    and "id_c conversation =
           (case getConversationByTelegramUserId (storage w) (toString (id_tg f)) of
              None \<Rightarrow> currentIds_conversations (storage w) | Some c \<Rightarrow> id_c c)"
    and "map (\<lambda>c. (id_c c, threadId c)) (Map_values (conversations (storage w3))) =
         map (\<lambda>c. (id_c c, threadId c)) (Map_values (conversations (storage w))) @
           (if getConversationByTelegramUserId (storage w) (toString (id_tg f)) = None
            then [(id_c conversation, None)] else [])"
proof -
  let ?tid = "toString (id_tg f)"
  note a = getOrCreateUser_frame[OF assms(2,1)]
  note b = getOrCreateConversation_frame[OF assms(3) a(1)]
  note c = storeMessage_frame[OF assms(4) b(1)]
  obtain d where d: "messageData (id_c conversation) ?tid ''user'' m f = Fulfilled d"
    using c(10) by (cases "messageData (id_c conversation) ?tid ''user'' m f") simp_all
  have cid: "conversationId d = id_c conversation"
    using d by (auto simp: messageData_def split: Promise.splits)
  have w3: "w3 = w2\<lparr>storage := snd (createMessage (at_createMessage env) (at_touchConversation env)
                                      d (storage w2))\<rparr>"
    using assms(4) d by (simp add: storeMessage_def)
  have g2: "getConversation (storage w2) (conversationId d) = Some conversation"
    using b(8) cid by simp
  have vals: "Map_values (conversations (storage w3)) =
                map (\<lambda>x. if id_c x = id_c conversation
                          then conversation\<lparr>lastMessageAt := at_touchConversation env\<rparr> else x)
                    (Map_values (conversations (storage w2)))"
    unfolding w3 using createMessage_values[OF b(1) g2] by simp
  have same2: "getConversationByTelegramUserId (storage w1) ?tid =
               getConversationByTelegramUserId (storage w) ?tid"
    by (simp add: getConversationByTelegramUserId_def a(3))
  show "storageOk (storage w3)" by (rule c(1))
  show "supportGroupId w3 = supportGroupId w" using a(2) b(2) c(2) by simp
  show "supportIssues (storage w3) = supportIssues (storage w)" using a(5) b(6) c(5) by simp
  show "filter isMediaForward (botCalls w3) = filter isMediaForward (botCalls w)"
    using a(6) b(3) c(3) by simp
  show "filter (isTextForward g) (botCalls w3) = filter (isTextForward g) (botCalls w)"
    using a(7) b(3) c(3) by simp
  show "telegramUserId conversation = ?tid" by (rule b(7))
  show "getConversation (storage w3) (id_c conversation) =
           Some (conversation\<lparr>lastMessageAt := at_touchConversation env\<rparr>)"
    unfolding w3 using createMessage_touches[OF g2] cid by simp
  show "getConversationByTelegramUserId (storage w3) ?tid =
           Some (conversation\<lparr>lastMessageAt := at_touchConversation env\<rparr>)"
    unfolding getConversationByTelegramUserId_def vals
  proof (rule find_replace)
    show "find (\<lambda>conversation. telegramUserId conversation = ?tid)
            (Map_values (conversations (storage w2))) = Some conversation"
      using b(9) by (simp add: getConversationByTelegramUserId_def)
    show "x = conversation"
      if "x \<in> set (Map_values (conversations (storage w2)))" "id_c x = id_c conversation" for x
      using stored_conversation_unique[OF b(1) b(8) that] .
    show "telegramUserId (conversation\<lparr>lastMessageAt := at_touchConversation env\<rparr>) = ?tid"
      using b(7) by simp
  qed
  show "threadId conversation =
           (case getConversationByTelegramUserId (storage w) ?tid of
              None \<Rightarrow> None | Some c \<Rightarrow> threadId c)"
  proof (cases "getConversationByTelegramUserId (storage w) ?tid")
    case None
    then show ?thesis using b(12) same2 by simp
  next
    case (Some c')
    then show ?thesis using assms(3) same2 by (simp add: getOrCreateConversation_found)
  qed
  show "id_c conversation =
           (case getConversationByTelegramUserId (storage w) ?tid of
              None \<Rightarrow> currentIds_conversations (storage w) | Some c \<Rightarrow> id_c c)"
  proof (cases "getConversationByTelegramUserId (storage w) ?tid")
    case None
    then have n1: "getConversationByTelegramUserId (storage w1) ?tid = None" using same2 by simp
    have "id_c conversation = currentIds_conversations (storage w1)"
      using assms(3) unfolding getOrCreateConversation_absent[OF n1]
      by (auto simp: createConversation_effect[OF a(1)])
    moreover have "currentIds_conversations (storage w1) = currentIds_conversations (storage w)"
      using assms(2)
      by (auto simp: getOrCreateUser_def Let_def createUser_def call_def
            split: option.splits if_splits)
    ultimately show ?thesis using None by simp
  next
    case (Some c')
    then show ?thesis using assms(3) same2 by (simp add: getOrCreateConversation_found)
  qed
  have "map (\<lambda>c. (id_c c, threadId c)) (Map_values (conversations (storage w3))) =
        map (\<lambda>c. (id_c c, threadId c)) (Map_values (conversations (storage w2)))"
    by (rule c(7)) simp
  then show "map (\<lambda>c. (id_c c, threadId c)) (Map_values (conversations (storage w3))) =
         map (\<lambda>c. (id_c c, threadId c)) (Map_values (conversations (storage w))) @
           (if getConversationByTelegramUserId (storage w) ?tid = None
            then [(id_c conversation, None)] else [])"
    using b(10) b(12) same2 a(3) by simp
qed

lemma createThread_not_recorded:
  assumes "createThread env g f tid user conversation w = (r, w1)" and "storageOk (storage w)"
      and "truthy (threadId conversation) \<or> threadMessageId env = None \<or> \<not> forumTopicCreated env"
  shows "conversations (storage w1) = conversations (storage w)"
    and "supportIssues (storage w1) = supportIssues (storage w)"
    and "r = Rejected \<or> r = Fulfilled conversation"
    and "r = Rejected \<longleftrightarrow> \<not> truthy (threadId conversation) \<and> threadMessageId env = None"
proof -
  note tr = topicRequested_frame[OF assms(2), where env = env and g = g and f = f and tid = tid and user = user]
  note ir = introduced_frame[OF assms(2), where env = env and g = g and f = f and tid = tid and user = user]
  have "conversations (storage w1) = conversations (storage w) \<and>
        supportIssues (storage w1) = supportIssues (storage w) \<and>
        (r = Rejected \<or> r = Fulfilled conversation) \<and>
        (r = Rejected \<longleftrightarrow> \<not> truthy (threadId conversation) \<and> threadMessageId env = None)"
  proof (cases "truthy (threadId conversation)")
    case True
    then show ?thesis using assms(1) by (auto simp: createThread_threaded)
  next
    case False
    then show ?thesis
      using assms(1,3) tr(3,5) ir(3,5)
      by (auto simp: createThread_unthreaded split: option.splits if_splits)
  qed
  then show "conversations (storage w1) = conversations (storage w)"
    and "supportIssues (storage w1) = supportIssues (storage w)"
    and "r = Rejected \<or> r = Fulfilled conversation"
    and "r = Rejected \<longleftrightarrow> \<not> truthy (threadId conversation) \<and> threadMessageId env = None"
    by blast+
qed

lemma createThread_recorded:
  assumes "createThread env g f tid user conversation w = (r, w1)" and "storageOk (storage w)"
      and "\<not> truthy (threadId conversation)"
      and "threadMessageId env = Some mid" and "forumTopicCreated env"
      and "getConversation (storage w) (id_c conversation) = Some stored"
      and "getConversationByTelegramUserId (storage w) tid = Some stored"
  shows "r = Fulfilled (conversation\<lparr>threadId := Some (toString mid)\<rparr>)"
    and "\<exists>issue. Map_values (supportIssues (storage w1)) =
                   Map_values (supportIssues (storage w)) @ [issue] \<and>
                 InsertSupportIssue.truncate issue =
                   issueData tid (conversation\<lparr>threadId := Some (toString mid)\<rparr>)"
    and "Map_values (conversations (storage w1)) =
           map (\<lambda>x. if id_c x = id_c conversation
                     then stored\<lparr>threadId := Some (toString mid), lastMessageAt := at_threadUpdate env\<rparr>
                     else x)
               (Map_values (conversations (storage w)))"
    and "getConversationByTelegramUserId (storage w1) tid =
           Some (stored\<lparr>threadId := Some (toString mid), lastMessageAt := at_threadUpdate env\<rparr>)"
proof -
  let ?w3 = "topicRequested env g f tid user w"
  let ?s4 = "snd (updateConversation (at_threadUpdate env) (id_c conversation)
                [Set_threadId (Some (toString mid))] (storage ?w3))"
  let ?new = "stored\<lparr>threadId := Some (toString mid), lastMessageAt := at_threadUpdate env\<rparr>"
  note tr = topicRequested_frame[OF assms(2), where env = env and g = g and f = f and tid = tid and user = user]
  note rec = threadRecorded_frame[OF tr(1), where env = env and tid = tid
                and conversation = conversation and mid = mid]
  have eq: "r = Fulfilled (conversation\<lparr>threadId := Some (toString mid)\<rparr>)"
    "w1 = ?w3\<lparr>storage := threadRecorded env tid conversation mid (storage ?w3)\<rparr>"
    using assms(1,3,4,5) by (simp_all add: createThread_unthreaded)
  show "r = Fulfilled (conversation\<lparr>threadId := Some (toString mid)\<rparr>)" by (rule eq(1))
  show "\<exists>issue. Map_values (supportIssues (storage w1)) =
                   Map_values (supportIssues (storage w)) @ [issue] \<and>
                 InsertSupportIssue.truncate issue =
                   issueData tid (conversation\<lparr>threadId := Some (toString mid)\<rparr>)"
    using rec(6) tr(5)
    by (simp add: eq(2) InsertSupportIssue.truncate_def InsertSupportIssue.extend_def
          SupportIssue.fields_def)
  have g3: "getConversation (storage ?w3) (id_c conversation) = Some stored"
    using assms(6) tr(3) by (simp add: getConversation_def)
  have s5: "conversations (threadRecorded env tid conversation mid (storage ?w3)) = conversations ?s4"
    by (simp add: threadRecorded_def createSupportIssue_def Let_def)
  have m: "mapOk id_c (currentIds_conversations (storage w)) (conversations (storage w))"
    using assms(2) by (simp add: storageOk_def)
  have i: "id_c stored = id_c conversation"
    using mapOk_get_id[OF m] assms(6) by (simp add: getConversation_def)
  show vals: "Map_values (conversations (storage w1)) =
           map (\<lambda>x. if id_c x = id_c conversation then ?new else x)
               (Map_values (conversations (storage w)))"
    using updateConversation_values[OF tr(1) g3, of "at_threadUpdate env" "[Set_threadId (Some (toString mid))]"]
      tr(3)
    by (simp add: eq(2) s5)
  have t: "telegramUserId stored = tid"
    using assms(7) unfolding getConversationByTelegramUserId_def by (auto dest: find_SomeD)
  show "getConversationByTelegramUserId (storage w1) tid = Some ?new"
    unfolding getConversationByTelegramUserId_def vals i[symmetric]
  proof (rule find_replace)
    show "find (\<lambda>conversation. telegramUserId conversation = tid)
            (Map_values (conversations (storage w))) = Some stored"
      using assms(7) by (simp add: getConversationByTelegramUserId_def)
    show "x = stored"
      if "x \<in> set (Map_values (conversations (storage w)))" "id_c x = id_c stored" for x
      using stored_conversation_unique[OF assms(2,6) that] .
    show "telegramUserId ?new = tid" using t by simp
  qed
qed

lemma messageData_fulfilled:
  assumes "photo m \<noteq> Some []"
  shows "\<exists>d. messageData cid sid stype m f = Fulfilled d"
  using assms by (auto simp: messageData_def getMediaUrl_def getFileId_def split: option.splits)

text \<open>
  When the sender is known or the welcome is accepted, and the message has no empty photo
  array, the user handler stores the message and goes on to the support-group part.
\<close>

lemma user_stored_path:
  assumes "storageOk (storage w)" and "from_user m = Some f" and "photo m \<noteq> Some []"
      and "getUserByTelegramId (storage w) (toString (id_tg f)) \<noteq> None \<or> welcomeSent env"
  obtains user w1 conversation w2 w3 where
      "getOrCreateUser env m f w = (Fulfilled user, w1)"
      "getOrCreateConversation env (toString (id_tg f)) w1 = (conversation, w2)"
      "storeMessage env (messageData (id_c conversation) (toString (id_tg f)) ''user'' m f) w2
         = (Fulfilled (), w3)"
      "handleUserDirectMessage env m w =
         forwardToSupport env m f (toString (id_tg f)) user conversation w3"
  using assms(2)
proof (cases rule: handleUserDirectMessage_paths[where env = env and w = w])
  case (welcomeRejected w1)
  show ?thesis
  proof (cases "getUserByTelegramId (storage w) (toString (id_tg f))")
    case None
    then show ?thesis
      using assms(4) getOrCreateUser_new(1)[OF None welcomeRejected(1) assms(1)] by simp
  next
    case (Some u)
    then show ?thesis using welcomeRejected(1) by (simp add: getOrCreateUser_found)
  qed
next
  case (storeRejected user w1 conversation w2 w3)
  note a = getOrCreateUser_frame[OF storeRejected(1) assms(1)]
  note b = getOrCreateConversation_frame[OF storeRejected(2) a(1)]
  obtain d where "messageData (id_c conversation) (toString (id_tg f)) ''user'' m f = Fulfilled d"
    using messageData_fulfilled[OF assms(3)] by blast
  then show ?thesis using storeMessage_frame(10)[OF storeRejected(3) b(1)] by simp
next
  case (stored user w1 conversation w2 w3)
  then show ?thesis using that by blast
qed

lemma forwardToSupport_no_group:
  assumes "\<not> truthy (supportGroupId w)"
  shows "forwardToSupport env m f tid user conversation w = (Fulfilled (), w)"
  using assms by (simp add: forwardToSupport_def)

lemma forwardToSupport_thread_rejected:
  assumes "supportGroupId w = Some g" and "g \<noteq> []"
      and "createThread env g f tid user conversation w = (Rejected, w1)"
  shows "forwardToSupport env m f tid user conversation w = (Rejected, w1)"
  using assms by (simp add: forwardToSupport_def truthy_def)

lemma forwardToSupport_after_thread:
  assumes "supportGroupId w = Some g" and "g \<noteq> []"
      and "createThread env g f tid user conversation w = (Fulfilled conversation', w1)"
      and "forwardToSupport env m f tid user conversation w = (r, w')"
  shows "storage w' = storage w1"
    and "filter (isTextForward g) (botCalls w') =
           filter (isTextForward g) (botCalls w1) @
             (if truthy (text_m m)
              then [SendMessage (ChatStr g) (boldPrefix f (the (text_m m))) (threadOptions conversation')]
              else [])"
proof -
  obtain r2 w2 where h2: "forwardText env g m f conversation' w1 = (r2, w2)" by force
  note t = forwardText_effect[OF h2]
  have tf: "filter (isTextForward g) (botCalls w2) =
           filter (isTextForward g) (botCalls w1) @
             (if truthy (text_m m)
              then [SendMessage (ChatStr g) (boldPrefix f (the (text_m m))) (threadOptions conversation')]
              else [])"
    unfolding t(3) by (simp add: threadOptions_def)
  have "storage w' = storage w1 \<and>
        filter (isTextForward g) (botCalls w') = filter (isTextForward g) (botCalls w2)"
  proof (cases r2)
    case Rejected
    then show ?thesis
      using assms h2 t(1) by (simp add: forwardToSupport_def truthy_def)
  next
    case (Fulfilled u)
    obtain r3 w3 where h3: "forwardMedia env g m f conversation' w2 = (r3, w3)" by force
    then show ?thesis
      using assms h2 Fulfilled t(1) forwardMedia_effect[OF h3]
      by (simp add: forwardToSupport_def truthy_def)
  qed
  then show "storage w' = storage w1"
    and "filter (isTextForward g) (botCalls w') =
           filter (isTextForward g) (botCalls w1) @
             (if truthy (text_m m)
              then [SendMessage (ChatStr g) (boldPrefix f (the (text_m m))) (threadOptions conversation')]
              else [])"
    using tf by simp_all
qed

lemma orElse_truthy: "truthy v \<Longrightarrow> orElse v d = the v"
  and orElse_falsy: "\<not> truthy v \<Longrightarrow> orElse v d = d"
  by (auto simp: orElse_def truthy_def split: option.splits)

lemma digits_nonempty: "digits n \<noteq> []"
  by (subst digits.simps) simp

lemma toString_nonempty: "toString i \<noteq> []"
  by (simp add: toString_def digits_nonempty)

lemma byTelegramUserId_conversations:
  "conversations s' = conversations s \<Longrightarrow>
   getConversationByTelegramUserId s' tid = getConversationByTelegramUserId s tid"
  by (simp add: getConversationByTelegramUserId_def)

text \<open>
  The user handler with a support group configured, once it is past the stored message:
  what it leaves, by what the thread block did.
\<close>

lemma user_with_group:
  assumes "storageOk (storage w)" and "from_user m = Some f" and "photo m \<noteq> Some []"
      and "getUserByTelegramId (storage w) (toString (id_tg f)) \<noteq> None \<or> welcomeSent env"
      and "supportGroupId w = Some g" and "g \<noteq> []"
      and "handleUserDirectMessage env m w = (r, w')"
  shows "getConversationByTelegramUserId (storage w) (toString (id_tg f)) = Some c \<Longrightarrow>
         truthy (threadId c) \<Longrightarrow>
           supportIssues (storage w') = supportIssues (storage w) \<and>
           getConversationByTelegramUserId (storage w') (toString (id_tg f)) =
             Some (c\<lparr>lastMessageAt := at_touchConversation env\<rparr>) \<and>
           filter (isTextForward g) (botCalls w') =
             filter (isTextForward g) (botCalls w) @
               (if truthy (text_m m)
                then [SendMessage (ChatStr g) (boldPrefix f (the (text_m m)))
                        \<lparr>reply_to_message_id = Some (parseInt (the (threadId c))),
                         parse_mode = Some ''HTML'', caption_opt = None\<rparr>]
                else [])"
    and "unthreaded (storage w) (toString (id_tg f)) \<Longrightarrow> threadMessageId env = None \<Longrightarrow>
           r = Rejected \<and>
           supportIssues (storage w') = supportIssues (storage w) \<and>
           unthreaded (storage w') (toString (id_tg f)) \<and>
           filter (isTextForward g) (botCalls w') = filter (isTextForward g) (botCalls w)"
    and "unthreaded (storage w) (toString (id_tg f)) \<Longrightarrow> threadMessageId env = Some mid \<Longrightarrow>
         \<not> forumTopicCreated env \<Longrightarrow>
           supportIssues (storage w') = supportIssues (storage w) \<and>
           unthreaded (storage w') (toString (id_tg f)) \<and>
           getConversationByTelegramUserId (storage w') (toString (id_tg f)) \<noteq> None \<and>
           filter (isTextForward g) (botCalls w') =
             filter (isTextForward g) (botCalls w) @
               (if truthy (text_m m)
                then [SendMessage (ChatStr g) (boldPrefix f (the (text_m m)))
                        \<lparr>reply_to_message_id = Some (parseInt ''0''),
                         parse_mode = Some ''HTML'', caption_opt = None\<rparr>]
                else [])"
    and "unthreaded (storage w) (toString (id_tg f)) \<Longrightarrow> threadMessageId env = Some mid \<Longrightarrow>
         forumTopicCreated env \<Longrightarrow>
           (\<exists>issue c'.
              Map_values (supportIssues (storage w')) =
                Map_values (supportIssues (storage w)) @ [issue] \<and>
              InsertSupportIssue.truncate issue =
                \<lparr>userId = toString (id_tg f), conversationId_i = id_c c',
                 title = ''New Support Request'', status_i = ''pending'', assignedTo = None\<rparr> \<and>
              getConversationByTelegramUserId (storage w') (toString (id_tg f)) = Some c' \<and>
              threadId c' = Some (toString mid) \<and>
              id_c c' =
                (case getConversationByTelegramUserId (storage w) (toString (id_tg f)) of
                   None \<Rightarrow> currentIds_conversations (storage w) | Some c \<Rightarrow> id_c c)) \<and>
           filter (isTextForward g) (botCalls w') =
             filter (isTextForward g) (botCalls w) @
               (if truthy (text_m m)
                then [SendMessage (ChatStr g) (boldPrefix f (the (text_m m)))
                        \<lparr>reply_to_message_id = Some (parseInt (toString mid)),
                         parse_mode = Some ''HTML'', caption_opt = None\<rparr>]
                else [])"
proof -
  let ?tid = "toString (id_tg f)"
  obtain user w1 conversation w2 w3 where
    h: "getOrCreateUser env m f w = (Fulfilled user, w1)"
       "getOrCreateConversation env ?tid w1 = (conversation, w2)"
       "storeMessage env (messageData (id_c conversation) ?tid ''user'' m f) w2 = (Fulfilled (), w3)"
       "handleUserDirectMessage env m w = forwardToSupport env m f ?tid user conversation w3"
    using user_stored_path[OF assms(1-4)] by blast
  note p = user_prefix[OF assms(1) h(1-3)]
  let ?stored = "conversation\<lparr>lastMessageAt := at_touchConversation env\<rparr>"
  have g3: "supportGroupId w3 = Some g" using p(2) assms(5) by simp
  have run: "forwardToSupport env m f ?tid user conversation w3 = (r, w')"
    using h(4) assms(7) by simp
  obtain r4 w4 where h4: "createThread env g f ?tid user conversation w3 = (r4, w4)" by force
  note fr = createThread_frame[OF h4 p(1)]
  have tf3: "filter (isTextForward g) (botCalls w4) = filter (isTextForward g) (botCalls w)"
    using fr(10)[of g] p(5)[of g] by simp
  show "supportIssues (storage w') = supportIssues (storage w) \<and>
           getConversationByTelegramUserId (storage w') ?tid =
             Some (c\<lparr>lastMessageAt := at_touchConversation env\<rparr>) \<and>
           filter (isTextForward g) (botCalls w') =
             filter (isTextForward g) (botCalls w) @
               (if truthy (text_m m)
                then [SendMessage (ChatStr g) (boldPrefix f (the (text_m m)))
                        \<lparr>reply_to_message_id = Some (parseInt (the (threadId c))),
                         parse_mode = Some ''HTML'', caption_opt = None\<rparr>]
                else [])"
    if c: "getConversationByTelegramUserId (storage w) ?tid = Some c" and t: "truthy (threadId c)"
  proof -
    have "getConversationByTelegramUserId (storage w1) ?tid = Some c"
      using c byTelegramUserId_conversations[OF getOrCreateUser_frame(3)[OF h(1) assms(1)]] by simp
    then have cc: "conversation = c" using h(2) by (simp add: getOrCreateConversation_found)
    have e4: "r4 = Fulfilled conversation" "w4 = w3"
      using h4 t cc by (simp_all add: createThread_threaded)
    note af = forwardToSupport_after_thread[OF g3 assms(6) h4[unfolded e4(1)] run]
    show ?thesis
      using af p(3) p(8) t cc e4(2)
      by (simp add: threadOptions_def orElse_truthy p(5))
  qed
  have un: "\<not> truthy (threadId conversation)" if "unthreaded (storage w) ?tid"
    using that p(9) by (auto simp: unthreaded_def truthy_def split: option.splits)
  have keep: "unthreaded (storage w4) ?tid \<and> supportIssues (storage w4) = supportIssues (storage w) \<and>
              getConversationByTelegramUserId (storage w4) ?tid \<noteq> None \<and>
              (r4 = Rejected \<or> r4 = Fulfilled conversation) \<and>
              (r4 = Rejected \<longleftrightarrow> threadMessageId env = None)"
    if u: "unthreaded (storage w) ?tid" and n: "threadMessageId env = None \<or> \<not> forumTopicCreated env"
  proof -
    note nr = createThread_not_recorded[OF h4 p(1)]
    have d: "truthy (threadId conversation) \<or> threadMessageId env = None \<or> \<not> forumTopicCreated env"
      using n by blast
    show ?thesis
      using nr(1)[OF d] nr(2)[OF d] nr(3)[OF d] nr(4)[OF d] p(3) p(8) un[OF u]
      by (simp add: unthreaded_def getConversationByTelegramUserId_def)
  qed
  show "r = Rejected \<and>
           supportIssues (storage w') = supportIssues (storage w) \<and>
           unthreaded (storage w') ?tid \<and>
           filter (isTextForward g) (botCalls w') = filter (isTextForward g) (botCalls w)"
    if u: "unthreaded (storage w) ?tid" and n: "threadMessageId env = None"
  proof -
    have k: "unthreaded (storage w4) ?tid" "supportIssues (storage w4) = supportIssues (storage w)"
      "r4 = Rejected"
      using keep[OF u] n by simp_all
    have "forwardToSupport env m f ?tid user conversation w3 = (Rejected, w4)"
      using forwardToSupport_thread_rejected[OF g3 assms(6)] h4 k(3) by simp
    then show ?thesis using run k tf3 by simp
  qed
  show "supportIssues (storage w') = supportIssues (storage w) \<and>
           unthreaded (storage w') ?tid \<and>
           getConversationByTelegramUserId (storage w') ?tid \<noteq> None \<and>
           filter (isTextForward g) (botCalls w') =
             filter (isTextForward g) (botCalls w) @
               (if truthy (text_m m)
                then [SendMessage (ChatStr g) (boldPrefix f (the (text_m m)))
                        \<lparr>reply_to_message_id = Some (parseInt ''0''),
                         parse_mode = Some ''HTML'', caption_opt = None\<rparr>]
                else [])"
    if u: "unthreaded (storage w) ?tid" and n: "threadMessageId env = Some mid"
      "\<not> forumTopicCreated env"
  proof -
    have k: "unthreaded (storage w4) ?tid" "supportIssues (storage w4) = supportIssues (storage w)"
      "getConversationByTelegramUserId (storage w4) ?tid \<noteq> None"
      "r4 = Fulfilled conversation"
      using keep[OF u] n by auto
    note af = forwardToSupport_after_thread[OF g3 assms(6) h4[unfolded k(4)] run]
    show ?thesis
      using af k tf3 un[OF u] by (simp add: threadOptions_def orElse_falsy)
  qed
  show "(\<exists>issue c'.
              Map_values (supportIssues (storage w')) =
                Map_values (supportIssues (storage w)) @ [issue] \<and>
              InsertSupportIssue.truncate issue =
                \<lparr>userId = ?tid, conversationId_i = id_c c',
                 title = ''New Support Request'', status_i = ''pending'', assignedTo = None\<rparr> \<and>
              getConversationByTelegramUserId (storage w') ?tid = Some c' \<and>
              threadId c' = Some (toString mid) \<and>
              id_c c' =
                (case getConversationByTelegramUserId (storage w) ?tid of
                   None \<Rightarrow> currentIds_conversations (storage w) | Some c \<Rightarrow> id_c c)) \<and>
           filter (isTextForward g) (botCalls w') =
             filter (isTextForward g) (botCalls w) @
               (if truthy (text_m m)
                then [SendMessage (ChatStr g) (boldPrefix f (the (text_m m)))
                        \<lparr>reply_to_message_id = Some (parseInt (toString mid)),
                         parse_mode = Some ''HTML'', caption_opt = None\<rparr>]
                else [])"
    if u: "unthreaded (storage w) ?tid" and n: "threadMessageId env = Some mid" "forumTopicCreated env"
  proof -
    note rc = createThread_recorded[OF h4 p(1) un[OF u] n p(7) p(8)]
    note af = forwardToSupport_after_thread[OF g3 assms(6) h4[unfolded rc(1)] run]
    obtain issue where
      i: "Map_values (supportIssues (storage w4)) = Map_values (supportIssues (storage w3)) @ [issue]"
         "InsertSupportIssue.truncate issue =
            issueData ?tid (conversation\<lparr>threadId := Some (toString mid)\<rparr>)"
      using rc(2) by blast
    let ?c' = "?stored\<lparr>threadId := Some (toString mid), lastMessageAt := at_threadUpdate env\<rparr>"
    have "Map_values (supportIssues (storage w')) =
                Map_values (supportIssues (storage w)) @ [issue] \<and>
              InsertSupportIssue.truncate issue =
                \<lparr>userId = ?tid, conversationId_i = id_c ?c',
                 title = ''New Support Request'', status_i = ''pending'', assignedTo = None\<rparr> \<and>
              getConversationByTelegramUserId (storage w') ?tid = Some ?c' \<and>
              threadId ?c' = Some (toString mid) \<and>
              id_c ?c' =
                (case getConversationByTelegramUserId (storage w) ?tid of
                   None \<Rightarrow> currentIds_conversations (storage w) | Some c \<Rightarrow> id_c c)"
      using i af(1) rc(4) p(3) p(10) by (simp add: issueData_def)
    then show ?thesis
      using af(2) tf3 by (auto simp: threadOptions_def orElse_def toString_nonempty)
  qed
qed

subsection \<open>Thread references stay, and issues follow them\<close>

lemma threadedId_cong:
  assumes "map (\<lambda>c. (id_c c, threadId c)) (Map_values (conversations s')) =
           map (\<lambda>c. (id_c c, threadId c)) (Map_values (conversations s))"
  shows "threadedId s' cid = threadedId s cid"
proof -
  have h: "list_ex (\<lambda>c. id_c c = cid \<and> truthy (threadId c)) xs =
        list_ex (\<lambda>p. fst p = cid \<and> truthy (snd p)) (map (\<lambda>c. (id_c c, threadId c)) xs)" for xs
    by (induction xs) auto
  show ?thesis by (simp only: threadedId_def h assms)
qed

lemma threadedId_append:
  assumes "Map_values (conversations s') = Map_values (conversations s) @ ys"
      and "threadedId s cid"
  shows "threadedId s' cid"
  using assms by (auto simp: threadedId_def list_ex_iff)

lemma threadedId_replace:
  assumes "Map_values (conversations s') =
             map (\<lambda>x. if id_c x = i then new else x) (Map_values (conversations s))"
      and "id_c new = i" and "truthy (threadId new)"
  shows "threadedId s cid \<Longrightarrow> threadedId s' cid"
    and "i \<in> set (map id_c (Map_values (conversations s))) \<Longrightarrow> threadedId s' i"
proof -
  show "threadedId s' cid" if t: "threadedId s cid"
  proof -
    obtain x where x: "x \<in> set (Map_values (conversations s))" "id_c x = cid" "truthy (threadId x)"
      using t by (auto simp: threadedId_def list_ex_iff)
    let ?y = "if id_c x = i then new else x"
    have "?y \<in> set (Map_values (conversations s'))" using x(1) assms(1) by auto
    moreover have "id_c ?y = cid \<and> truthy (threadId ?y)" using x assms(2,3) by auto
    ultimately show ?thesis unfolding threadedId_def list_ex_iff by blast
  qed
  show "threadedId s' i" if t: "i \<in> set (map id_c (Map_values (conversations s)))"
  proof -
    obtain x where x: "x \<in> set (Map_values (conversations s))" "id_c x = i" using t by auto
    then have "new \<in> set (Map_values (conversations s'))" using assms(1) by force
    then show ?thesis using assms(2,3) unfolding threadedId_def list_ex_iff by blast
  qed
qed

lemma createThread_keeps:
  assumes "createThread env g f tid user conversation w = (r, w1)" and "storageOk (storage w)"
      and "getConversation (storage w) (id_c conversation) = Some stored"
  shows "threadedId (storage w) cid \<Longrightarrow> threadedId (storage w1) cid"
    and "Map_values (supportIssues (storage w1)) = Map_values (supportIssues (storage w)) \<or>
         (\<exists>issue. Map_values (supportIssues (storage w1)) =
                    Map_values (supportIssues (storage w)) @ [issue] \<and>
                  conversationId_i issue = id_c conversation \<and>
                  \<not> truthy (threadId conversation) \<and>
                  threadedId (storage w1) (id_c conversation))"
proof -
  have both: "(threadedId (storage w) cid \<longrightarrow> threadedId (storage w1) cid) \<and>
        (Map_values (supportIssues (storage w1)) = Map_values (supportIssues (storage w)) \<or>
         (\<exists>issue. Map_values (supportIssues (storage w1)) =
                    Map_values (supportIssues (storage w)) @ [issue] \<and>
                  conversationId_i issue = id_c conversation \<and>
                  \<not> truthy (threadId conversation) \<and>
                  threadedId (storage w1) (id_c conversation)))"
  proof (cases "truthy (threadId conversation) \<or> threadMessageId env = None \<or> \<not> forumTopicCreated env")
    case True
    note nr = createThread_not_recorded[OF assms(1,2) True]
    show ?thesis using nr(1,2) by (simp add: threadedId_def)
  next
    case False
    then obtain mid where n: "\<not> truthy (threadId conversation)" "threadMessageId env = Some mid"
      "forumTopicCreated env" by auto
    let ?w3 = "topicRequested env g f tid user w"
    let ?new = "stored\<lparr>threadId := Some (toString mid), lastMessageAt := at_threadUpdate env\<rparr>"
    note tr = topicRequested_frame[OF assms(2), where env = env and g = g and f = f and tid = tid and user = user]
    note rec = threadRecorded_frame[OF tr(1), where env = env and tid = tid
                  and conversation = conversation and mid = mid]
    have w1: "w1 = ?w3\<lparr>storage := threadRecorded env tid conversation mid (storage ?w3)\<rparr>"
      using assms(1) n by (simp add: createThread_unthreaded)
    have g3: "getConversation (storage ?w3) (id_c conversation) = Some stored"
      using assms(3) tr(3) by (simp add: getConversation_def)
    have s5: "conversations (threadRecorded env tid conversation mid (storage ?w3)) =
              conversations (snd (updateConversation (at_threadUpdate env) (id_c conversation)
                                    [Set_threadId (Some (toString mid))] (storage ?w3)))"
      by (simp add: threadRecorded_def createSupportIssue_def Let_def)
    have vals: "Map_values (conversations (storage w1)) =
                  map (\<lambda>x. if id_c x = id_c conversation then ?new else x)
                      (Map_values (conversations (storage w)))"
      using updateConversation_values[OF tr(1) g3, of "at_threadUpdate env"
              "[Set_threadId (Some (toString mid))]"] tr(3)
      by (simp add: w1 s5)
    have m: "mapOk id_c (currentIds_conversations (storage w)) (conversations (storage w))"
      using assms(2) by (simp add: storageOk_def)
    have i: "id_c stored = id_c conversation"
      using mapOk_get_id[OF m] assms(3) by (simp add: getConversation_def)
    have new: "id_c ?new = id_c conversation" "truthy (threadId ?new)"
      using i by (simp_all add: truthy_def toString_nonempty)
    have "stored \<in> set (Map_values (conversations (storage w)))"
      using Map_get_in_values[of "conversations (storage w)" "id_c conversation" stored] assms(3)
      by (simp add: getConversation_def)
    then have mem: "id_c conversation \<in> set (map id_c (Map_values (conversations (storage w))))"
      using i by (auto intro: rev_image_eqI)
    note th = threadedId_replace[OF vals new]
    have iss: "Map_values (supportIssues (storage w1)) =
                 Map_values (supportIssues (storage w)) @
                   [InsertSupportIssue.extend
                      (issueData tid (conversation\<lparr>threadId := Some (toString mid)\<rparr>))
                      (SupportIssue.fields (currentIds_supportIssues (storage ?w3))
                         (at_createIssue env) None)]"
      using rec(6) tr(5) by (simp add: w1)
    show ?thesis
      using th(1) th(2)[OF mem] n(1) iss
      by (simp add: issueData_def InsertSupportIssue.extend_def SupportIssue.fields_def)
  qed
  show "threadedId (storage w) cid \<Longrightarrow> threadedId (storage w1) cid"
    and "Map_values (supportIssues (storage w1)) = Map_values (supportIssues (storage w)) \<or>
         (\<exists>issue. Map_values (supportIssues (storage w1)) =
                    Map_values (supportIssues (storage w)) @ [issue] \<and>
                  conversationId_i issue = id_c conversation \<and>
                  \<not> truthy (threadId conversation) \<and>
                  threadedId (storage w1) (id_c conversation))"
    using both by blast+
qed

lemma forwardToSupport_keeps:
  assumes "forwardToSupport env m f tid user conversation w = (r, w')" and "storageOk (storage w)"
      and "getConversation (storage w) (id_c conversation) = Some stored"
  shows "threadedId (storage w) cid \<Longrightarrow> threadedId (storage w') cid"
    and "Map_values (supportIssues (storage w')) = Map_values (supportIssues (storage w)) \<or>
         (\<exists>issue. Map_values (supportIssues (storage w')) =
                    Map_values (supportIssues (storage w)) @ [issue] \<and>
                  conversationId_i issue = id_c conversation \<and>
                  \<not> truthy (threadId conversation) \<and>
                  threadedId (storage w') (id_c conversation))"
proof -
  have "\<exists>r1 w1. createThread env (the (supportGroupId w)) f tid user conversation w = (r1, w1) \<and>
          (storage w' = storage w \<or> storage w' = storage w1)"
  proof (cases rule: forwardToSupport_paths
           [where env = env and m = m and f = f and tid = tid
              and user = user and conversation = conversation and w = w])
    case noGroup
    then show ?thesis using assms(1) by (cases "createThread env (the (supportGroupId w)) f tid user conversation w") simp
  next
    case (threadRejected g w1)
    then show ?thesis using assms(1) by simp
  next
    case (textRejected g conversation' w1 w2)
    then show ?thesis
      using assms(1) forwardToSupport_after_thread(1)[OF textRejected(1,2,3) assms(1)] by simp
  next
    case (media g conversation' w1 w2 r' w3)
    then show ?thesis
      using assms(1) forwardToSupport_after_thread(1)[OF media(1,2,3) assms(1)] by simp
  qed
  then obtain r1 w1 where
    h: "createThread env (the (supportGroupId w)) f tid user conversation w = (r1, w1)"
       "storage w' = storage w \<or> storage w' = storage w1"
    by blast
  note k = createThread_keeps[OF h(1) assms(2,3)]
  show "threadedId (storage w') cid" if "threadedId (storage w) cid"
    using h(2) k(1)[OF that] that by auto
  show "Map_values (supportIssues (storage w')) = Map_values (supportIssues (storage w)) \<or>
         (\<exists>issue. Map_values (supportIssues (storage w')) =
                    Map_values (supportIssues (storage w)) @ [issue] \<and>
                  conversationId_i issue = id_c conversation \<and>
                  \<not> truthy (threadId conversation) \<and>
                  threadedId (storage w') (id_c conversation))"
    using h(2) k(2) by auto
qed

lemma not_threadedId_fresh:
  assumes "storageOk s"
  shows "\<not> threadedId s (currentIds_conversations s)"
proof -
  have m: "mapOk id_c (currentIds_conversations s) (conversations s)"
    using assms by (simp add: storageOk_def)
  show ?thesis
    using mapOk_value_below[OF m] by (fastforce simp: threadedId_def list_ex_iff)
qed

lemma not_threadedId_found:
  assumes "storageOk s" and "c \<in> set (Map_values (conversations s))" and "\<not> truthy (threadId c)"
  shows "\<not> threadedId s (id_c c)"
proof
  assume "threadedId s (id_c c)"
  then obtain x where x: "x \<in> set (Map_values (conversations s))" "id_c x = id_c c"
    "truthy (threadId x)"
    by (auto simp: threadedId_def list_ex_iff)
  have m: "mapOk id_c (currentIds_conversations s) (conversations s)"
    using assms(1) by (simp add: storageOk_def)
  have "getConversation s (id_c c) = Some c"
    unfolding getConversation_def using m assms(2) by (rule mapOk_values_get)
  then have "x = c" using stored_conversation_unique[OF assms(1) _ x(1,2)] by blast
  then show False using x(3) assms(3) by simp
qed

text \<open>What one run of the user handler can do to the store, whatever path it takes.\<close>

lemma handleUserDirectMessage_summary:
  assumes "storageOk (storage w)" and "handleUserDirectMessage env m w = (r, w')"
  shows "storageOk (storage w')"
    and "supportGroupId w' = supportGroupId w"
    and "set (map telegramId (Map_values (users (storage w)))) \<subseteq>
         set (map telegramId (Map_values (users (storage w'))))"
    and "set (map telegramUserId (Map_values (conversations (storage w')))) \<subseteq>
         set (map telegramUserId (Map_values (conversations (storage w)))) \<union>
         set (map telegramId (Map_values (users (storage w'))))"
    and "threadedId (storage w) cid \<Longrightarrow> threadedId (storage w') cid"
    and "Map_values (supportIssues (storage w')) = Map_values (supportIssues (storage w)) \<or>
         (\<exists>issue. Map_values (supportIssues (storage w')) =
                    Map_values (supportIssues (storage w)) @ [issue] \<and>
                  threadedId (storage w') (conversationId_i issue) \<and>
                  \<not> threadedId (storage w) (conversationId_i issue))"
proof -
  let ?T = "\<lambda>w. set (map telegramId (Map_values (users (storage w))))"
  let ?C = "\<lambda>w. set (map telegramUserId (Map_values (conversations (storage w))))"
  have all: "storageOk (storage w') \<and> supportGroupId w' = supportGroupId w \<and>
    ?T w \<subseteq> ?T w' \<and> ?C w' \<subseteq> ?C w \<union> ?T w' \<and>
    (threadedId (storage w) cid \<longrightarrow> threadedId (storage w') cid) \<and>
    (Map_values (supportIssues (storage w')) = Map_values (supportIssues (storage w)) \<or>
         (\<exists>issue. Map_values (supportIssues (storage w')) =
                    Map_values (supportIssues (storage w)) @ [issue] \<and>
                  threadedId (storage w') (conversationId_i issue) \<and>
                  \<not> threadedId (storage w) (conversationId_i issue)))"
  proof (cases "from_user m")
    case None
    then show ?thesis using assms by (simp add: handleUserDirectMessage_def)
  next
    case (Some f)
    let ?tid = "toString (id_tg f)"
    from Some show ?thesis
    proof (cases rule: handleUserDirectMessage_paths[where env = env and w = w])
      case (welcomeRejected w1)
      note a = getOrCreateUser_frame[OF welcomeRejected(1) assms(1)]
      have "w' = w1" using welcomeRejected(2) assms(2) by simp
      then show ?thesis using a(1,2,3,5,8) by (simp add: threadedId_def)
    next
      case (storeRejected user w1 conversation w2 w3)
      note a = getOrCreateUser_frame[OF storeRejected(1) assms(1)]
      note b = getOrCreateConversation_frame[OF storeRejected(2) a(1)]
      note c = storeMessage_frame[OF storeRejected(3) b(1)]
      have e: "w' = w3" using storeRejected(4) assms(2) by simp
      have tu: "map telegramUserId (Map_values (conversations (storage w3))) =
                map telegramUserId (Map_values (conversations (storage w2)))"
        by (rule c(7)) simp
      have th: "threadedId (storage w3) cid = threadedId (storage w2) cid"
        by (rule threadedId_cong, rule c(7)) simp
      have th2: "threadedId (storage w) cid \<Longrightarrow> threadedId (storage w2) cid"
        using threadedId_append[OF b(10)] a(3) by (simp add: threadedId_def)
      have inT: "?tid \<in> ?T w3" using a(9)[OF refl] b(4) c(4) by simp
      have "?C w3 \<subseteq> ?C w \<union> ?T w3"
        using tu b(10) b(7) a(3) inT by (auto split: if_splits)
      then show ?thesis
        using e c(1) a(2) b(2) c(2) a(8) b(4) c(4) th th2 a(5) b(6) c(5) by simp
    next
      case (stored user w1 conversation w2 w3)
      note a = getOrCreateUser_frame[OF stored(1) assms(1)]
      note b = getOrCreateConversation_frame[OF stored(2) a(1)]
      note c = storeMessage_frame[OF stored(3) b(1)]
      note p = user_prefix[OF assms(1) stored(1-3)]
      have run: "forwardToSupport env m f ?tid user conversation w3 = (r, w')"
        using stored(4) assms(2) by simp
      note d = forwardToSupport_frame[OF run c(1)]
      note k = forwardToSupport_keeps[OF run c(1) p(7)]
      have tu: "map telegramUserId (Map_values (conversations (storage w3))) =
                map telegramUserId (Map_values (conversations (storage w2)))"
        by (rule c(7)) simp
      have th: "threadedId (storage w3) x = threadedId (storage w2) x" for x
        by (rule threadedId_cong, rule c(7)) simp
      have th2: "threadedId (storage w) x \<Longrightarrow> threadedId (storage w2) x" for x
        using threadedId_append[OF b(10)] a(3) by (simp add: threadedId_def)
      have inT: "?tid \<in> ?T w3" using a(9)[OF refl] b(4) c(4) by simp
      have C: "?C w' \<subseteq> ?C w \<union> ?T w'"
        using tu b(10) b(7) a(3) inT d(5) d(7) by (auto split: if_splits)
      have T: "?T w \<subseteq> ?T w'" using a(8) b(4) c(4) d(5) by simp
      have mono: "threadedId (storage w) cid \<longrightarrow> threadedId (storage w') cid"
        using k(1)[of cid] th th2 by blast
      have fresh: "\<not> threadedId (storage w) (id_c conversation)"
        if u: "\<not> truthy (threadId conversation)"
      proof (cases "getConversationByTelegramUserId (storage w) ?tid")
        case None
        then show ?thesis using p(10) not_threadedId_fresh[OF assms(1)] by simp
      next
        case (Some c0)
        have "c0 \<in> set (Map_values (conversations (storage w)))"
          using Some unfolding getConversationByTelegramUserId_def by (auto dest: find_SomeD)
        moreover have "\<not> truthy (threadId c0)" "id_c conversation = id_c c0"
          using Some p(9) p(10) u by simp_all
        ultimately show ?thesis using not_threadedId_found[OF assms(1)] by simp
      qed
      have iss: "Map_values (supportIssues (storage w')) = Map_values (supportIssues (storage w)) \<or>
         (\<exists>issue. Map_values (supportIssues (storage w')) =
                    Map_values (supportIssues (storage w)) @ [issue] \<and>
                  threadedId (storage w') (conversationId_i issue) \<and>
                  \<not> threadedId (storage w) (conversationId_i issue))"
        using k(2) p(3) fresh by auto
      show ?thesis using d(1) d(2) p(2) T C mono iss by simp
    qed
  qed
  show "storageOk (storage w')"
    and "supportGroupId w' = supportGroupId w"
    and "?T w \<subseteq> ?T w'"
    and "?C w' \<subseteq> ?C w \<union> ?T w'"
    and "threadedId (storage w) cid \<Longrightarrow> threadedId (storage w') cid"
    and "Map_values (supportIssues (storage w')) = Map_values (supportIssues (storage w)) \<or>
         (\<exists>issue. Map_values (supportIssues (storage w')) =
                    Map_values (supportIssues (storage w)) @ [issue] \<and>
                  threadedId (storage w') (conversationId_i issue) \<and>
                  \<not> threadedId (storage w) (conversationId_i issue))"
    using all by blast+
qed

lemma handleSupportGroupMessage_summary:
  assumes "storageOk (storage w)" and "handleSupportGroupMessage env m w = (r, w')"
  shows "storageOk (storage w')"
    and "supportGroupId w' = supportGroupId w"
    and "users (storage w') = users (storage w)"
    and "supportIssues (storage w') = supportIssues (storage w)"
    and "(\<And>c t. g (c\<lparr>lastMessageAt := t\<rparr>) = g c) \<Longrightarrow>
           map g (Map_values (conversations (storage w'))) =
           map g (Map_values (conversations (storage w)))"
proof -
  have "\<exists>md. w' = w \<or>
               (storage w' = storage (snd (storeMessage env md w)) \<and>
                supportGroupId w' = supportGroupId (snd (storeMessage env md w)))"
  proof (cases "from_user m")
    case None
    then show ?thesis using assms(2) by (simp add: handleSupportGroupMessage_def)
  next
    case f: (Some f)
    show ?thesis
    proof (cases "reply_to_message m")
      case None
      then show ?thesis using f assms(2) by (simp add: handleSupportGroupMessage_def)
    next
      case rid: (Some rid)
      show ?thesis
      proof (cases "getConversationByThreadId (storage w) (toString rid)")
        case None
        then show ?thesis using f rid assms(2) by (simp add: handleSupportGroupMessage_def)
      next
        case (Some conversation)
        let ?md = "messageData (id_c conversation) (toString (id_tg f)) ''admin'' m f"
        from f rid Some have "storage w' = storage (snd (storeMessage env ?md w)) \<and>
                supportGroupId w' = supportGroupId (snd (storeMessage env ?md w))"
        proof (cases rule: handleSupportGroupMessage_paths[where env = env])
          case (storeRejected w1)
          then show ?thesis using assms(2) by simp
        next
          case (textRejected w1 w2)
          then show ?thesis
            using assms(2) forwardTextToUser_effect(1,2)[OF textRejected(2)] by simp
        next
          case (media w1 w2 r' w3)
          then show ?thesis
            using assms(2) forwardTextToUser_effect(1,2)[OF media(2)]
              forwardMediaToUser_calls(1,2)[OF media(3)] by simp
        qed
        then show ?thesis by blast
      qed
    qed
  qed
  then obtain md where
    h2: "w' = w \<or> (storage w' = storage (snd (storeMessage env md w)) \<and>
                   supportGroupId w' = supportGroupId (snd (storeMessage env md w)))"
    by blast
  obtain r1 w1 where h1: "storeMessage env md w = (r1, w1)" by force
  have h: "storeMessage env md w = (r1, w1)"
       "w' = w \<or> (storage w' = storage w1 \<and> supportGroupId w' = supportGroupId w1)"
    using h1 h2 by simp_all
  note c = storeMessage_frame[OF h(1) assms(1)]
  show "storageOk (storage w')" using h(2) c(1) assms(1) by auto
  show "supportGroupId w' = supportGroupId w" using h(2) c(2) by auto
  show "users (storage w') = users (storage w)" using h(2) c(4) by auto
  show "supportIssues (storage w') = supportIssues (storage w)" using h(2) c(5) by auto
  show "map g (Map_values (conversations (storage w'))) =
           map g (Map_values (conversations (storage w)))"
    if "\<And>c t. g (c\<lparr>lastMessageAt := t\<rparr>) = g c"
    using h(2) c(7)[of g] that by auto
qed

text \<open>The router's invariant is kept by one step from a world to the next.\<close>

lemma routerOk_step:
  assumes "routerOk w" and "storageOk (storage w')"
      and "set (map telegramId (Map_values (users (storage w)))) \<subseteq>
           set (map telegramId (Map_values (users (storage w'))))"
      and "set (map telegramUserId (Map_values (conversations (storage w')))) \<subseteq>
           set (map telegramUserId (Map_values (conversations (storage w)))) \<union>
           set (map telegramId (Map_values (users (storage w'))))"
      and "\<And>cid. threadedId (storage w) cid \<Longrightarrow> threadedId (storage w') cid"
      and "Map_values (supportIssues (storage w')) = Map_values (supportIssues (storage w)) \<or>
           (\<exists>issue. Map_values (supportIssues (storage w')) =
                      Map_values (supportIssues (storage w)) @ [issue] \<and>
                    threadedId (storage w') (conversationId_i issue))"
  shows "routerOk w'"
proof -
  have c: "\<forall>c \<in> set (Map_values (conversations (storage w))).
             telegramUserId c \<in> set (map telegramId (Map_values (users (storage w))))"
    and i: "\<forall>i \<in> set (Map_values (supportIssues (storage w))).
             threadedId (storage w) (conversationId_i i)"
    using assms(1) by (simp_all add: routerOk_def list_all_iff threadedId_def)
  have c': "\<forall>c \<in> set (Map_values (conversations (storage w'))).
             telegramUserId c \<in> set (map telegramId (Map_values (users (storage w'))))"
  proof
    fix x assume "x \<in> set (Map_values (conversations (storage w')))"
    then have "telegramUserId x \<in> set (map telegramUserId (Map_values (conversations (storage w'))))"
      by simp
    then have "telegramUserId x \<in> set (map telegramUserId (Map_values (conversations (storage w)))) \<or>
               telegramUserId x \<in> set (map telegramId (Map_values (users (storage w'))))"
      using assms(4) by blast
    then show "telegramUserId x \<in> set (map telegramId (Map_values (users (storage w'))))"
    proof
      assume "telegramUserId x \<in> set (map telegramUserId (Map_values (conversations (storage w))))"
      then obtain y where "y \<in> set (Map_values (conversations (storage w)))"
        "telegramUserId y = telegramUserId x" by auto
      then have "telegramUserId x \<in> set (map telegramId (Map_values (users (storage w))))"
        using c by metis
      then show ?thesis using assms(3) by blast
    qed
  qed
  have i': "\<forall>i \<in> set (Map_values (supportIssues (storage w'))).
             threadedId (storage w') (conversationId_i i)"
    using assms(5,6) i by auto
  show ?thesis
    using assms(2) c' i' by (simp add: routerOk_def list_all_iff threadedId_def)
qed

lemma routerOk_initialWorld: "routerOk initialWorld"
  by (simp add: routerOk_def initialWorld_def storageOk_new)
     (simp add: MemStorage_new_def Map_values_def)

lemma routerOk_setSupportGroupId: "routerOk w \<Longrightarrow> routerOk (setSupportGroupId g w)"
  by (simp add: routerOk_def setSupportGroupId_def)

lemma processUpdate_summary:
  assumes "storageOk (storage w)"
  shows "storageOk (storage (processUpdate env u w))"
    and "supportGroupId (processUpdate env u w) = supportGroupId w"
    and "threadedId (storage w) cid \<Longrightarrow> threadedId (storage (processUpdate env u w)) cid"
    and "threadedId (storage w) cid \<Longrightarrow>
           issuesOf (storage (processUpdate env u w)) cid = issuesOf (storage w) cid"
    and "routerOk w \<Longrightarrow> routerOk (processUpdate env u w)"
proof -
  have all: "storageOk (storage (processUpdate env u w)) \<and>
    supportGroupId (processUpdate env u w) = supportGroupId w \<and>
    (threadedId (storage w) cid \<longrightarrow> threadedId (storage (processUpdate env u w)) cid) \<and>
    (threadedId (storage w) cid \<longrightarrow>
           issuesOf (storage (processUpdate env u w)) cid = issuesOf (storage w) cid) \<and>
    (routerOk w \<longrightarrow> routerOk (processUpdate env u w))"
  proof (cases "message u")
    case None
    then show ?thesis using assms by (simp add: processUpdate_def)
  next
    case (Some m)
    show ?thesis
    proof (cases "isSupportGroupMessage m w")
      case True
      obtain r w' where h: "handleSupportGroupMessage env m w = (r, w')" by force
      then have e: "processUpdate env u w = w'"
        using Some True by (simp add: processUpdate_def handleIncomingMessage_def)
      note s = handleSupportGroupMessage_summary[OF assms h]
      have th: "threadedId (storage w') x = threadedId (storage w) x" for x
        by (rule threadedId_cong, rule s(5)) simp
      have tu: "map telegramUserId (Map_values (conversations (storage w'))) =
                map telegramUserId (Map_values (conversations (storage w)))"
        by (rule s(5)) simp
      have "routerOk w'" if "routerOk w"
        by (rule routerOk_step[OF that s(1)]) (simp_all add: s(3,4) tu th)
      then show ?thesis using s(1,2,4) th by (simp add: e issuesOf_def)
    next
      case False
      obtain r w' where h: "handleUserDirectMessage env m w = (r, w')" by force
      then have e: "processUpdate env u w = w'"
        using Some False by (simp add: processUpdate_def handleIncomingMessage_def)
      note s = handleUserDirectMessage_summary[OF assms h]
      have "routerOk w'" if "routerOk w"
        by (rule routerOk_step[OF that s(1) s(3) s(4)]) (use s(5) s(6) in auto)
      moreover have "issuesOf (storage w') cid = issuesOf (storage w) cid"
        if "threadedId (storage w) cid"
        using s(6) that by (auto simp: issuesOf_def)
      ultimately show ?thesis using s(1,2) s(5)[of cid] by (simp add: e)
    qed
  qed
  show "storageOk (storage (processUpdate env u w))"
    and "supportGroupId (processUpdate env u w) = supportGroupId w"
    and "threadedId (storage w) cid \<Longrightarrow> threadedId (storage (processUpdate env u w)) cid"
    and "threadedId (storage w) cid \<Longrightarrow>
           issuesOf (storage (processUpdate env u w)) cid = issuesOf (storage w) cid"
    and "routerOk w \<Longrightarrow> routerOk (processUpdate env u w)"
    using all by blast+
qed

lemma processUpdates_keeps:
  assumes "storageOk (storage w)" and "threadedId (storage w) cid"
  shows "issuesOf (storage (processUpdates eus w)) cid = issuesOf (storage w) cid"
  using assms
proof (induction eus arbitrary: w)
  case Nil
  then show ?case by simp
next
  case (Cons eu eus)
  note s1 = processUpdate_summary(1)[OF Cons.prems(1), of "fst eu" "snd eu"]
  note s3 = processUpdate_summary(3)[OF Cons.prems(1) Cons.prems(2), of "fst eu" "snd eu"]
  note s4 = processUpdate_summary(4)[OF Cons.prems(1) Cons.prems(2), of "fst eu" "snd eu"]
  show ?case
    using Cons.IH[OF s1 s3] s4 by simp
qed

lemma processUpdates_routerOk: "routerOk w \<Longrightarrow> routerOk (processUpdates eus w)"
proof (induction eus arbitrary: w)
  case Nil
  then show ?case by simp
next
  case (Cons eu eus)
  have "storageOk (storage w)" using Cons.prems by (simp add: routerOk_def)
  then show ?case using Cons.IH processUpdate_summary(5) Cons.prems by simp
qed

subsection \<open>Users, conversations and welcomes\<close>

lemma find_in_map:
  "(find (\<lambda>x. key x = k) xs \<noteq> None) = (k \<in> set (map key xs))"
  by (auto simp: find_None_iff)

lemma getOrCreateUser_counter:
  assumes "getOrCreateUser env m f w = (r, w1)"
  shows "currentIds_conversations (storage w1) = currentIds_conversations (storage w)"
  using assms
  by (auto simp: getOrCreateUser_def Let_def createUser_def call_def split: option.splits if_splits)

text \<open>
  What one run of the user handler, for a message with a sender, does to the users, the
  conversations and the welcomes, whatever path it takes.
\<close>

lemma handleUserDirectMessage_records:
  assumes "storageOk (storage w)" and "from_user m = Some f"
      and "handleUserDirectMessage env m w = (r, w')"
  shows "keysOf (users (storage w')) =
           keysOf (users (storage w)) @
             (if getUserByTelegramId (storage w) (toString (id_tg f)) = None
              then [currentIds_users (storage w)] else [])"
    and "map telegramId (Map_values (users (storage w'))) =
           map telegramId (Map_values (users (storage w))) @
             (if getUserByTelegramId (storage w) (toString (id_tg f)) = None
              then [toString (id_tg f)] else [])"
    and "filter isWelcome (botCalls w') =
           filter isWelcome (botCalls w) @
             (if getUserByTelegramId (storage w) (toString (id_tg f)) = None
              then [SendMessage (ChatNum (chat_id m)) welcomeText noOptions] else [])"
    and "getUserByTelegramId (storage w) (toString (id_tg f)) \<noteq> None \<or> welcomeSent env \<Longrightarrow>
           keysOf (conversations (storage w')) =
             keysOf (conversations (storage w)) @
               (if getConversationByTelegramUserId (storage w) (toString (id_tg f)) = None
                then [currentIds_conversations (storage w)] else []) \<and>
           map telegramUserId (Map_values (conversations (storage w'))) =
             map telegramUserId (Map_values (conversations (storage w))) @
               (if getConversationByTelegramUserId (storage w) (toString (id_tg f)) = None
                then [toString (id_tg f)] else [])"
    and "getUserByTelegramId (storage w) (toString (id_tg f)) = None \<Longrightarrow> \<not> welcomeSent env \<Longrightarrow>
           r = Rejected \<and> conversations (storage w') = conversations (storage w)"
proof -
  let ?tid = "toString (id_tg f)"
  let ?U = "\<lambda>w1. keysOf (users (storage w1)) =
           keysOf (users (storage w)) @
             (if getUserByTelegramId (storage w) ?tid = None
              then [currentIds_users (storage w)] else []) \<and>
         map telegramId (Map_values (users (storage w1))) =
           map telegramId (Map_values (users (storage w))) @
             (if getUserByTelegramId (storage w) ?tid = None then [?tid] else []) \<and>
         filter isWelcome (botCalls w1) =
           filter isWelcome (botCalls w) @
             (if getUserByTelegramId (storage w) ?tid = None
              then [SendMessage (ChatNum (chat_id m)) welcomeText noOptions] else [])"
  let ?C = "\<lambda>w1. keysOf (conversations (storage w1)) =
             keysOf (conversations (storage w)) @
               (if getConversationByTelegramUserId (storage w) ?tid = None
                then [currentIds_conversations (storage w)] else []) \<and>
           map telegramUserId (Map_values (conversations (storage w1))) =
             map telegramUserId (Map_values (conversations (storage w))) @
               (if getConversationByTelegramUserId (storage w) ?tid = None then [?tid] else [])"
  have first: "?U w1 \<and> (r1 = Rejected \<longleftrightarrow>
                   getUserByTelegramId (storage w) ?tid = None \<and> \<not> welcomeSent env)"
    if h: "getOrCreateUser env m f w = (r1, w1)" for r1 w1
  proof (cases "getUserByTelegramId (storage w) ?tid")
    case None
    note n = getOrCreateUser_new[OF None h assms(1)]
    show ?thesis using None n by (simp add: noOptions_def)
  next
    case (Some u)
    then show ?thesis using h by (auto simp: getOrCreateUser_found)
  qed
  have second: "?U w3 \<and> ?C w3 \<and> storageOk (storage w3)"
    if h: "getOrCreateUser env m f w = (Fulfilled user, w1)"
          "getOrCreateConversation env ?tid w1 = (conversation, w2)"
          "storeMessage env md w2 = (r3, w3)"
    for user w1 conversation w2 md r3 w3
  proof -
    note a = getOrCreateUser_frame[OF h(1) assms(1)]
    note b = getOrCreateConversation_frame[OF h(2) a(1)]
    note c = storeMessage_frame[OF h(3) b(1)]
    have same: "getConversationByTelegramUserId (storage w1) ?tid =
                getConversationByTelegramUserId (storage w) ?tid"
      using a(3) by (simp add: getConversationByTelegramUserId_def)
    have tu: "map telegramUserId (Map_values (conversations (storage w3))) =
              map telegramUserId (Map_values (conversations (storage w2)))"
      by (rule c(7)) simp
    have "map telegramUserId (Map_values (conversations (storage w2))) =
          map telegramUserId (Map_values (conversations (storage w))) @
            (if getConversationByTelegramUserId (storage w) ?tid = None then [?tid] else [])"
      using b(10) b(7) a(3) same by simp
    then show ?thesis
      using first[OF h(1)] b(3,4) c(1,3,4,6) b(11) a(3) same tu getOrCreateUser_counter[OF h(1)]
      by simp
  qed
  have all: "?U w' \<and>
      (getUserByTelegramId (storage w) ?tid \<noteq> None \<or> welcomeSent env \<longrightarrow> ?C w') \<and>
      (getUserByTelegramId (storage w) ?tid = None \<and> \<not> welcomeSent env \<longrightarrow>
         r = Rejected \<and> conversations (storage w') = conversations (storage w))"
    using assms(2)
  proof (cases rule: handleUserDirectMessage_paths[where env = env and w = w])
    case (welcomeRejected w1)
    have e: "w' = w1" "r = Rejected" using welcomeRejected(2) assms(3) by simp_all
    show ?thesis
      using first[OF welcomeRejected(1)] getOrCreateUser_frame(3)[OF welcomeRejected(1) assms(1)]
      by (simp add: e)
  next
    case (storeRejected user w1 conversation w2 w3)
    have e: "w' = w3" using storeRejected(4) assms(3) by simp
    show ?thesis
      using second[OF storeRejected(1-3)] first[OF storeRejected(1)] by (auto simp: e)
  next
    case (stored user w1 conversation w2 w3)
    note s = second[OF stored(1-3)]
    have run: "forwardToSupport env m f ?tid user conversation w3 = (r, w')"
      using stored(4) assms(3) by simp
    note d = forwardToSupport_frame[OF run conjunct2[OF conjunct2[OF s]]]
    show ?thesis
      using s first[OF stored(1)] d(4-8) by auto
  qed
  show "keysOf (users (storage w')) =
           keysOf (users (storage w)) @
             (if getUserByTelegramId (storage w) ?tid = None
              then [currentIds_users (storage w)] else [])"
    and "map telegramId (Map_values (users (storage w'))) =
           map telegramId (Map_values (users (storage w))) @
             (if getUserByTelegramId (storage w) ?tid = None then [?tid] else [])"
    and "filter isWelcome (botCalls w') =
           filter isWelcome (botCalls w) @
             (if getUserByTelegramId (storage w) ?tid = None
              then [SendMessage (ChatNum (chat_id m)) welcomeText noOptions] else [])"
    and "getUserByTelegramId (storage w) ?tid \<noteq> None \<or> welcomeSent env \<Longrightarrow> ?C w'"
    and "getUserByTelegramId (storage w) ?tid = None \<Longrightarrow> \<not> welcomeSent env \<Longrightarrow>
           r = Rejected \<and> conversations (storage w') = conversations (storage w)"
    using all by blast+
qed

subsection \<open>Reaching the media block\<close>

lemma createThread_rejected:
  assumes "createThread env g f tid user conversation w = (Rejected, w1)"
  shows "\<not> truthy (threadId conversation)" and "threadMessageId env = None"
  using assms by (auto simp: createThread_def Let_def split: if_splits option.splits)

lemma forwardTextToUser_result:
  assumes "forwardTextToUser env u m w = (r, w1)"
  shows "r = (if truthy (text_m m) \<and> \<not> textForwarded env then Rejected else Fulfilled ())"
  using assms by (auto simp: forwardTextToUser_def Let_def split: if_splits)

text \<open>
  With a support group configured, the user handler ends in the media block when the
  sender is known or the welcome is accepted, the photo array is not empty, the
  introduction of a new thread (if one is needed) is accepted, and the text forward (if
  there is a text) is accepted. No media call was made before that block.
\<close>

lemma user_media_block:
  assumes "storageOk (storage w)" and "from_user m = Some f" and "photo m \<noteq> Some []"
      and "getUserByTelegramId (storage w) (toString (id_tg f)) \<noteq> None \<or> welcomeSent env"
      and "supportGroupId w = Some g" and "g \<noteq> []"
      and "unthreaded (storage w) (toString (id_tg f)) \<longrightarrow> threadMessageId env \<noteq> None"
      and "truthy (text_m m) \<longrightarrow> textForwarded env"
  shows "\<exists>conversation' w5.
           handleUserDirectMessage env m w = forwardMedia env g m f conversation' w5 \<and>
           filter isMediaForward (botCalls w5) = filter isMediaForward (botCalls w)"
proof -
  let ?tid = "toString (id_tg f)"
  obtain user w1 conversation w2 w3 where
    h: "getOrCreateUser env m f w = (Fulfilled user, w1)"
       "getOrCreateConversation env ?tid w1 = (conversation, w2)"
       "storeMessage env (messageData (id_c conversation) ?tid ''user'' m f) w2 = (Fulfilled (), w3)"
       "handleUserDirectMessage env m w = forwardToSupport env m f ?tid user conversation w3"
    using user_stored_path[OF assms(1-4)] by blast
  note p = user_prefix[OF assms(1) h(1-3)]
  have g3: "supportGroupId w3 = Some g" using p(2) assms(5) by simp
  show ?thesis
  proof (cases rule: forwardToSupport_paths
           [where env = env and m = m and f = f and tid = ?tid
              and user = user and conversation = conversation and w = w3])
    case noGroup
    then show ?thesis using g3 assms(6) by (simp add: truthy_def)
  next
    case (threadRejected g' w4)
    note cr = createThread_rejected[OF threadRejected(3)]
    have "unthreaded (storage w) ?tid"
      using cr(1) p(9) by (auto simp: unthreaded_def split: option.splits)
    then show ?thesis using cr(2) assms(7) by simp
  next
    case (textRejected g' conversation' w4 w5)
    then show ?thesis
      using forwardText_effect(4)[OF textRejected(4)] assms(8) by (auto split: if_splits)
  next
    case (media g' conversation' w4 w5 r w6)
    have "g' = g" using media(1) g3 by simp
    then have "handleUserDirectMessage env m w = forwardMedia env g m f conversation' w5"
      using media(5,6) h(4) by simp
    moreover have "filter isMediaForward (botCalls w5) = filter isMediaForward (botCalls w)"
      using p(4) createThread_frame(9)[OF media(3) p(1)] forwardText_effect(3)[OF media(4)]
      by simp
    ultimately show ?thesis by blast
  qed
qed

text \<open>
  The support handler, for a reply tied to a conversation, ends in its media block when
  the photo array is not empty and the text forward (if there is a text) is accepted.
\<close>

lemma admin_media_block:
  assumes "storageOk (storage w)" and "from_user m = Some f" and "reply_to_message m = Some rid"
      and "getConversationByThreadId (storage w) (toString rid) = Some conversation"
      and "photo m \<noteq> Some []"
      and "truthy (text_m m) \<longrightarrow> textForwarded env"
  shows "\<exists>w2. handleSupportGroupMessage env m w =
                 forwardMediaToUser env (telegramUserId conversation) m w2 \<and>
               filter isMediaForward (botCalls w2) = filter isMediaForward (botCalls w)"
  using assms(2-4)
proof (cases rule: handleSupportGroupMessage_paths[where env = env])
  case (storeRejected w1)
  obtain d where "messageData (id_c conversation) (toString (id_tg f)) ''admin'' m f = Fulfilled d"
    using messageData_fulfilled[OF assms(5)] by blast
  then show ?thesis using storeMessage_frame(10)[OF storeRejected(1) assms(1)] by simp
next
  case (textRejected w1 w2)
  then show ?thesis
    using forwardTextToUser_result[OF textRejected(2)] assms(6) by (auto split: if_splits)
next
  case (media w1 w2 r w3)
  have "handleSupportGroupMessage env m w =
          forwardMediaToUser env (telegramUserId conversation) m w2"
    using media(3,4) by simp
  moreover have "filter isMediaForward (botCalls w2) = filter isMediaForward (botCalls w)"
    using storeMessage_frame(3)[OF media(1) assms(1)] forwardTextToUser_effect(3)[OF media(2)]
    by simp
  ultimately show ?thesis by blast
qed

text \<open>The message that a handler stores carries the media kind of the event.\<close>

lemma messageData_kind:
  assumes "messageData cid sid stype m f = Fulfilled d"
  shows "mediaType d = getMediaType m" and "senderType d = stype" and "conversationId d = cid"
  using assms by (auto simp: messageData_def split: Promise.splits)

lemma user_message_kind:
  assumes "storageOk (storage w)" and "from_user m = Some f" and "photo m \<noteq> Some []"
      and "getUserByTelegramId (storage w) (toString (id_tg f)) \<noteq> None \<or> welcomeSent env"
  shows "\<exists>msg. Map_values (messages (storage (snd (handleUserDirectMessage env m w)))) =
                 Map_values (messages (storage w)) @ [msg] \<and>
               senderType msg = ''user'' \<and> mediaType msg = getMediaType m"
proof -
  let ?tid = "toString (id_tg f)"
  obtain user w1 conversation w2 w3 where
    h: "getOrCreateUser env m f w = (Fulfilled user, w1)"
       "getOrCreateConversation env ?tid w1 = (conversation, w2)"
       "storeMessage env (messageData (id_c conversation) ?tid ''user'' m f) w2 = (Fulfilled (), w3)"
       "handleUserDirectMessage env m w = forwardToSupport env m f ?tid user conversation w3"
    using user_stored_path[OF assms(1-4)] by blast
  note a = getOrCreateUser_frame[OF h(1) assms(1)]
  note b = getOrCreateConversation_frame[OF h(2) a(1)]
  note c = storeMessage_frame[OF h(3) b(1)]
  obtain d where d: "messageData (id_c conversation) ?tid ''user'' m f = Fulfilled d"
    using messageData_fulfilled[OF assms(3)] by blast
  obtain r w' where run: "forwardToSupport env m f ?tid user conversation w3 = (r, w')" by force
  note e = forwardToSupport_frame[OF run c(1)]
  show ?thesis
    using h(4) run e(3) c(9) a(4) b(5) d messageData_kind[OF d]
    by (simp add: InsertMessage.extend_def Message.fields_def)
qed

lemma admin_message_kind:
  assumes "storageOk (storage w)" and "from_user m = Some f" and "reply_to_message m = Some rid"
      and "getConversationByThreadId (storage w) (toString rid) = Some conversation"
      and "photo m \<noteq> Some []"
  shows "\<exists>msg. Map_values (messages (storage (snd (handleSupportGroupMessage env m w)))) =
                 Map_values (messages (storage w)) @ [msg] \<and>
               senderType msg = ''admin'' \<and> mediaType msg = getMediaType m \<and>
               conversationId msg = id_c conversation"
proof -
  obtain d where d: "messageData (id_c conversation) (toString (id_tg f)) ''admin'' m f = Fulfilled d"
    using messageData_fulfilled[OF assms(5)] by blast
  note k = messageData_kind[OF d]
  from assms(2-4) show ?thesis
  proof (cases rule: handleSupportGroupMessage_paths[where env = env])
    case (storeRejected w1)
    then show ?thesis using storeMessage_frame(10)[OF storeRejected(1) assms(1)] d by simp
  next
    case (textRejected w1 w2)
    then show ?thesis
      using storeMessage_frame(9)[OF textRejected(1) assms(1)]
        forwardTextToUser_effect(1)[OF textRejected(2)] d k
      by (simp add: InsertMessage.extend_def Message.fields_def)
  next
    case (media w1 w2 r w3)
    then show ?thesis
      using storeMessage_frame(9)[OF media(1) assms(1)]
        forwardTextToUser_effect(1)[OF media(2)] forwardMediaToUser_calls(1)[OF media(3)] d k
      by (simp add: InsertMessage.extend_def Message.fields_def)
  qed
qed

lemma forwardMedia_sent:
  assumes "handleUserDirectMessage env m w = forwardMedia env g m f conversation' w5"
      and "filter isMediaForward (botCalls w5) = filter isMediaForward (botCalls w)"
  shows "photo m = Some sizes \<Longrightarrow> sizes \<noteq> [] \<Longrightarrow> last sizes \<noteq> [] \<Longrightarrow>
           \<exists>opts. filter isMediaForward (botCalls (snd (handleUserDirectMessage env m w))) =
                    filter isMediaForward (botCalls w) @ [SendPhoto (ChatStr g) (last sizes) opts] \<and>
                  caption_opt opts = Some (boldPrefix f (orElse (caption m) [])) \<and>
                  parse_mode opts = Some ''HTML''"
    and "photo m = None \<Longrightarrow> document m = Some d \<Longrightarrow> d \<noteq> [] \<Longrightarrow>
           \<exists>opts. filter isMediaForward (botCalls (snd (handleUserDirectMessage env m w))) =
                    filter isMediaForward (botCalls w) @ [SendDocument (ChatStr g) d opts] \<and>
                  caption_opt opts = Some (boldPrefix f (orElse (caption m) [])) \<and>
                  parse_mode opts = Some ''HTML''"
    and "photo m = None \<Longrightarrow> document m = None \<Longrightarrow> video m = Some v \<Longrightarrow> v \<noteq> [] \<Longrightarrow>
           \<exists>opts. filter isMediaForward (botCalls (snd (handleUserDirectMessage env m w))) =
                    filter isMediaForward (botCalls w) @ [SendVideo (ChatStr g) v opts] \<and>
                  caption_opt opts = Some (boldPrefix f (orElse (caption m) [])) \<and>
                  parse_mode opts = Some ''HTML''"
proof -
  obtain r w' where h: "forwardMedia env g m f conversation' w5 = (r, w')" by force
  have s: "snd (handleUserDirectMessage env m w) = w'" using assms(1) h by simp
  show "\<exists>opts. filter isMediaForward (botCalls (snd (handleUserDirectMessage env m w))) =
                    filter isMediaForward (botCalls w) @ [SendPhoto (ChatStr g) (last sizes) opts] \<and>
                  caption_opt opts = Some (boldPrefix f (orElse (caption m) [])) \<and>
                  parse_mode opts = Some ''HTML''"
    if "photo m = Some sizes" "sizes \<noteq> []" "last sizes \<noteq> []"
    unfolding s using forwardMedia_calls(2)[OF h that] assms(2) by (simp add: threadOptions_def)
  show "\<exists>opts. filter isMediaForward (botCalls (snd (handleUserDirectMessage env m w))) =
                    filter isMediaForward (botCalls w) @ [SendDocument (ChatStr g) d opts] \<and>
                  caption_opt opts = Some (boldPrefix f (orElse (caption m) [])) \<and>
                  parse_mode opts = Some ''HTML''"
    if "photo m = None" "document m = Some d" "d \<noteq> []"
    unfolding s using forwardMedia_calls(3)[OF h that] assms(2) by (simp add: threadOptions_def)
  show "\<exists>opts. filter isMediaForward (botCalls (snd (handleUserDirectMessage env m w))) =
                    filter isMediaForward (botCalls w) @ [SendVideo (ChatStr g) v opts] \<and>
                  caption_opt opts = Some (boldPrefix f (orElse (caption m) [])) \<and>
                  parse_mode opts = Some ''HTML''"
    if "photo m = None" "document m = None" "video m = Some v" "v \<noteq> []"
    unfolding s using forwardMedia_calls(4)[OF h that] assms(2) by (simp add: threadOptions_def)
qed

lemma forwardMediaToUser_sent:
  assumes "handleSupportGroupMessage env m w = forwardMediaToUser env u m w2"
      and "filter isMediaForward (botCalls w2) = filter isMediaForward (botCalls w)"
  shows "photo m = Some sizes \<Longrightarrow> sizes \<noteq> [] \<Longrightarrow> last sizes \<noteq> [] \<Longrightarrow>
           filter isMediaForward (botCalls (snd (handleSupportGroupMessage env m w))) =
             filter isMediaForward (botCalls w) @
               [SendPhoto (ChatStr u) (last sizes) (noOptions\<lparr>caption_opt := caption m\<rparr>)]"
    and "photo m = None \<Longrightarrow> document m = Some d \<Longrightarrow> d \<noteq> [] \<Longrightarrow>
           filter isMediaForward (botCalls (snd (handleSupportGroupMessage env m w))) =
             filter isMediaForward (botCalls w) @
               [SendDocument (ChatStr u) d (noOptions\<lparr>caption_opt := caption m\<rparr>)]"
    and "photo m = None \<Longrightarrow> document m = None \<Longrightarrow> video m = Some v \<Longrightarrow> v \<noteq> [] \<Longrightarrow>
           filter isMediaForward (botCalls (snd (handleSupportGroupMessage env m w))) =
             filter isMediaForward (botCalls w) @
               [SendVideo (ChatStr u) v (noOptions\<lparr>caption_opt := caption m\<rparr>)]"
proof -
  obtain r w' where h: "forwardMediaToUser env u m w2 = (r, w')" by force
  have s: "snd (handleSupportGroupMessage env m w) = w'" using assms(1) h by simp
  show "filter isMediaForward (botCalls (snd (handleSupportGroupMessage env m w))) =
             filter isMediaForward (botCalls w) @
               [SendPhoto (ChatStr u) (last sizes) (noOptions\<lparr>caption_opt := caption m\<rparr>)]"
    if "photo m = Some sizes" "sizes \<noteq> []" "last sizes \<noteq> []"
    unfolding s using forwardMediaToUser_calls(4)[OF h that] assms(2) by simp
  show "filter isMediaForward (botCalls (snd (handleSupportGroupMessage env m w))) =
             filter isMediaForward (botCalls w) @
               [SendDocument (ChatStr u) d (noOptions\<lparr>caption_opt := caption m\<rparr>)]"
    if "photo m = None" "document m = Some d" "d \<noteq> []"
    unfolding s using forwardMediaToUser_calls(5)[OF h that] assms(2) by simp
  show "filter isMediaForward (botCalls (snd (handleSupportGroupMessage env m w))) =
             filter isMediaForward (botCalls w) @
               [SendVideo (ChatStr u) v (noOptions\<lparr>caption_opt := caption m\<rparr>)]"
    if "photo m = None" "document m = None" "video m = Some v" "v \<noteq> []"
    unfolding s using forwardMediaToUser_calls(6)[OF h that] assms(2) by simp
qed

text \<open>
  The media send of the user handler, from the answers of the gateway: with a support
  group configured, the sender known or welcomed, the introduction of a new thread (if
  the conversation needs one) accepted and the text forward (if there is a text)
  accepted, a photo, or else a document, or else a video, with a non-empty file id, is
  sent into the group exactly once, with the caption prefixed by the sender's first name.
\<close>

lemma user_media_sent:
  assumes "storageOk (storage w)" and "from_user m = Some f"
      and "supportGroupId w = Some g \<and> g \<noteq> [] \<and>
           (getUserByTelegramId (storage w) (toString (id_tg f)) \<noteq> None \<or> welcomeSent env) \<and>
           (unthreaded (storage w) (toString (id_tg f)) \<longrightarrow> threadMessageId env \<noteq> None) \<and>
           (truthy (text_m m) \<longrightarrow> textForwarded env)"
  shows "photo m = Some sizes \<and> sizes \<noteq> [] \<and> last sizes \<noteq> [] \<Longrightarrow>
           \<exists>opts. filter isMediaForward (botCalls (snd (handleUserDirectMessage env m w))) =
                    filter isMediaForward (botCalls w) @ [SendPhoto (ChatStr g) (last sizes) opts] \<and>
                  caption_opt opts = Some (boldPrefix f (orElse (caption m) [])) \<and>
                  parse_mode opts = Some ''HTML''"
    and "photo m = None \<and> document m = Some d \<and> d \<noteq> [] \<Longrightarrow>
           \<exists>opts. filter isMediaForward (botCalls (snd (handleUserDirectMessage env m w))) =
                    filter isMediaForward (botCalls w) @ [SendDocument (ChatStr g) d opts] \<and>
                  caption_opt opts = Some (boldPrefix f (orElse (caption m) [])) \<and>
                  parse_mode opts = Some ''HTML''"
    and "photo m = None \<and> document m = None \<and> video m = Some v \<and> v \<noteq> [] \<Longrightarrow>
           \<exists>opts. filter isMediaForward (botCalls (snd (handleUserDirectMessage env m w))) =
                    filter isMediaForward (botCalls w) @ [SendVideo (ChatStr g) v opts] \<and>
                  caption_opt opts = Some (boldPrefix f (orElse (caption m) [])) \<and>
                  parse_mode opts = Some ''HTML''"
proof -
  have blk: "\<exists>conversation' w5.
           handleUserDirectMessage env m w = forwardMedia env g m f conversation' w5 \<and>
           filter isMediaForward (botCalls w5) = filter isMediaForward (botCalls w)"
    if "photo m \<noteq> Some []"
    using user_media_block[OF assms(1,2) that, of env g] assms(3) by blast
  show "\<exists>opts. filter isMediaForward (botCalls (snd (handleUserDirectMessage env m w))) =
                    filter isMediaForward (botCalls w) @ [SendPhoto (ChatStr g) (last sizes) opts] \<and>
                  caption_opt opts = Some (boldPrefix f (orElse (caption m) [])) \<and>
                  parse_mode opts = Some ''HTML''"
    if p: "photo m = Some sizes \<and> sizes \<noteq> [] \<and> last sizes \<noteq> []"
  proof -
    have "photo m \<noteq> Some []" using p by auto
    then obtain conversation' w5 where
      b: "handleUserDirectMessage env m w = forwardMedia env g m f conversation' w5"
         "filter isMediaForward (botCalls w5) = filter isMediaForward (botCalls w)"
      using blk by blast
    show ?thesis using forwardMedia_sent(1)[OF b] p by blast
  qed
  show "\<exists>opts. filter isMediaForward (botCalls (snd (handleUserDirectMessage env m w))) =
                    filter isMediaForward (botCalls w) @ [SendDocument (ChatStr g) d opts] \<and>
                  caption_opt opts = Some (boldPrefix f (orElse (caption m) [])) \<and>
                  parse_mode opts = Some ''HTML''"
    if p: "photo m = None \<and> document m = Some d \<and> d \<noteq> []"
  proof -
    have "photo m \<noteq> Some []" using p by auto
    then obtain conversation' w5 where
      b: "handleUserDirectMessage env m w = forwardMedia env g m f conversation' w5"
         "filter isMediaForward (botCalls w5) = filter isMediaForward (botCalls w)"
      using blk by blast
    show ?thesis using forwardMedia_sent(2)[OF b] p by blast
  qed
  show "\<exists>opts. filter isMediaForward (botCalls (snd (handleUserDirectMessage env m w))) =
                    filter isMediaForward (botCalls w) @ [SendVideo (ChatStr g) v opts] \<and>
                  caption_opt opts = Some (boldPrefix f (orElse (caption m) [])) \<and>
                  parse_mode opts = Some ''HTML''"
    if p: "photo m = None \<and> document m = None \<and> video m = Some v \<and> v \<noteq> []"
  proof -
    have "photo m \<noteq> Some []" using p by auto
    then obtain conversation' w5 where
      b: "handleUserDirectMessage env m w = forwardMedia env g m f conversation' w5"
         "filter isMediaForward (botCalls w5) = filter isMediaForward (botCalls w)"
      using blk by blast
    show ?thesis using forwardMedia_sent(3)[OF b] p by blast
  qed
qed

text \<open>
  The media send of the support handler, for a reply tied to a conversation: when the text
  forward (if there is a text) is accepted, a photo, or else a document, or else a video,
  with a non-empty file id, is sent to the conversation's user exactly once, with the
  caption of the message.
\<close>

lemma admin_media_sent:
  assumes "storageOk (storage w)" and "from_user m = Some f"
      and "reply_to_message m = Some rid \<and>
           getConversationByThreadId (storage w) (toString rid) = Some c \<and>
           (truthy (text_m m) \<longrightarrow> textForwarded env)"
  shows "photo m = Some sizes \<and> sizes \<noteq> [] \<and> last sizes \<noteq> [] \<Longrightarrow>
           filter isMediaForward (botCalls (snd (handleSupportGroupMessage env m w))) =
             filter isMediaForward (botCalls w) @
               [SendPhoto (ChatStr (telegramUserId c)) (last sizes) (noOptions\<lparr>caption_opt := caption m\<rparr>)]"
    and "photo m = None \<and> document m = Some d \<and> d \<noteq> [] \<Longrightarrow>
           filter isMediaForward (botCalls (snd (handleSupportGroupMessage env m w))) =
             filter isMediaForward (botCalls w) @
               [SendDocument (ChatStr (telegramUserId c)) d (noOptions\<lparr>caption_opt := caption m\<rparr>)]"
    and "photo m = None \<and> document m = None \<and> video m = Some v \<and> v \<noteq> [] \<Longrightarrow>
           filter isMediaForward (botCalls (snd (handleSupportGroupMessage env m w))) =
             filter isMediaForward (botCalls w) @
               [SendVideo (ChatStr (telegramUserId c)) v (noOptions\<lparr>caption_opt := caption m\<rparr>)]"
proof -
  have blk: "\<exists>w2. handleSupportGroupMessage env m w =
                 forwardMediaToUser env (telegramUserId c) m w2 \<and>
               filter isMediaForward (botCalls w2) = filter isMediaForward (botCalls w)"
    if "photo m \<noteq> Some []"
    using admin_media_block[OF assms(1,2) _ _ that, of rid c env] assms(3) by blast
  show "filter isMediaForward (botCalls (snd (handleSupportGroupMessage env m w))) =
             filter isMediaForward (botCalls w) @
               [SendPhoto (ChatStr (telegramUserId c)) (last sizes) (noOptions\<lparr>caption_opt := caption m\<rparr>)]"
    if p: "photo m = Some sizes \<and> sizes \<noteq> [] \<and> last sizes \<noteq> []"
  proof -
    have "photo m \<noteq> Some []" using p by auto
    then obtain w2 where
      b: "handleSupportGroupMessage env m w = forwardMediaToUser env (telegramUserId c) m w2"
         "filter isMediaForward (botCalls w2) = filter isMediaForward (botCalls w)"
      using blk by blast
    show ?thesis using forwardMediaToUser_sent(1)[OF b] p by blast
  qed
  show "filter isMediaForward (botCalls (snd (handleSupportGroupMessage env m w))) =
             filter isMediaForward (botCalls w) @
               [SendDocument (ChatStr (telegramUserId c)) d (noOptions\<lparr>caption_opt := caption m\<rparr>)]"
    if p: "photo m = None \<and> document m = Some d \<and> d \<noteq> []"
  proof -
    have "photo m \<noteq> Some []" using p by auto
    then obtain w2 where
      b: "handleSupportGroupMessage env m w = forwardMediaToUser env (telegramUserId c) m w2"
         "filter isMediaForward (botCalls w2) = filter isMediaForward (botCalls w)"
      using blk by blast
    show ?thesis using forwardMediaToUser_sent(2)[OF b] p by blast
  qed
  show "filter isMediaForward (botCalls (snd (handleSupportGroupMessage env m w))) =
             filter isMediaForward (botCalls w) @
               [SendVideo (ChatStr (telegramUserId c)) v (noOptions\<lparr>caption_opt := caption m\<rparr>)]"
    if p: "photo m = None \<and> document m = None \<and> video m = Some v \<and> v \<noteq> []"
  proof -
    have "photo m \<noteq> Some []" using p by auto
    then obtain w2 where
      b: "handleSupportGroupMessage env m w = forwardMediaToUser env (telegramUserId c) m w2"
         "filter isMediaForward (botCalls w2) = filter isMediaForward (botCalls w)"
      using blk by blast
    show ?thesis using forwardMediaToUser_sent(3)[OF b] p by blast
  qed
qed

section \<open>Properties of the router\<close>

subsection \<open>Events that are ignored\<close>

lemma toString_minus_100: "toString (- 100) = ''-100''"
  by (simp add: toString_def digits.simps digitChar_def)

text \<open>
  C10. A message with no sender, wherever it comes from, and a message in the support
  group that is not a reply, are ignored: each handler returns at its first line, and
  the event leaves the whole world (the four collections, the counters, the configured
  group and the log of gateway calls) as it was.
\<close>

theorem ignored_without_sender_or_reply:
  "(from_user m = None \<longrightarrow>
      handleUserDirectMessage env m w = (Fulfilled (), w) \<and>
      handleSupportGroupMessage env m w = (Fulfilled (), w) \<and>
      handleIncomingMessage env m w = (Fulfilled (), w) \<and>
      (message u = Some m \<longrightarrow> processUpdate env u w = w)) \<and>
   (reply_to_message m = None \<longrightarrow>
      handleSupportGroupMessage env m w = (Fulfilled (), w) \<and>
      (isSupportGroupMessage m w \<longrightarrow>
         handleIncomingMessage env m w = (Fulfilled (), w) \<and>
         (message u = Some m \<longrightarrow> processUpdate env u w = w)))"
  by (auto simp: handleUserDirectMessage_def handleSupportGroupMessage_def
        handleIncomingMessage_def processUpdate_def split: option.splits)

theorem ignored_without_sender_or_reply_witness:
  "from_user anonymousMessage = None \<and>
   processUpdate allGood (update anonymousMessage) supportWorld = supportWorld \<and>
   reply_to_message (groupMessage ''anyone there?'') = None \<and>
   isSupportGroupMessage (groupMessage ''anyone there?'') supportWorld \<and>
   processUpdate allGood (update (groupMessage ''anyone there?'')) supportWorld = supportWorld"
  using ignored_without_sender_or_reply
          [of anonymousMessage allGood supportWorld "update anonymousMessage"]
        ignored_without_sender_or_reply
          [of "groupMessage ''anyone there?''" allGood supportWorld
              "update (groupMessage ''anyone there?'')"]
  by (simp add: anonymousMessage_def groupMessage_def textMessage_def update_def
        isSupportGroupMessage_def supportWorld_def setSupportGroupId_def truthy_def
        toString_minus_100)

text \<open>
  C5. A reply in the support group to a message whose id is the thread reference of no
  conversation is ignored: the handler returns after the lookup, and the event leaves the
  whole world as it was, so no Message is stored and no gateway call is made.
\<close>

theorem reply_to_unknown_thread_is_noop:
  assumes "isSupportGroupMessage m w"
      and "reply_to_message m = Some r"
      and "\<forall>c \<in> set (Map_values (conversations (storage w))). threadId c \<noteq> Some (toString r)"
  shows "handleSupportGroupMessage env m w = (Fulfilled (), w) \<and>
         handleIncomingMessage env m w = (Fulfilled (), w) \<and>
         (message u = Some m \<longrightarrow> processUpdate env u w = w)"
proof -
  have "getConversationByThreadId (storage w) (toString r) = None"
    using assms(3) by (simp add: getConversationByThreadId_def find_None_iff)
  then have "handleSupportGroupMessage env m w = (Fulfilled (), w)"
    using assms(2) by (simp add: handleSupportGroupMessage_def split: option.splits)
  then show ?thesis
    using assms(1) by (simp add: handleIncomingMessage_def processUpdate_def)
qed


lemmas store_defs =
  MemStorage_new_def getUser_def getUserByTelegramId_def createUser_def updateUser_def
  getConversation_def getConversationByTelegramUserId_def getConversationByThreadId_def
  createConversation_def updateConversation_def createMessage_def createSupportIssue_def
  Map_get_def Map_set_def Map_values_def Let_def
  InsertUser.extend_def User.fields_def InsertConversation.extend_def Conversation.fields_def
  InsertMessage.extend_def Message.fields_def InsertSupportIssue.extend_def SupportIssue.fields_def

lemmas js_defs =
  truthy_def orNull_def orElse_def toString_def digits.simps digitChar_def

lemmas router_defs =
  processUpdate_def handleIncomingMessage_def isSupportGroupMessage_def
  handleUserDirectMessage_def handleSupportGroupMessage_def
  getOrCreateUser_def getOrCreateConversation_def messageData_def storeMessage_def
  fetchProfilePhoto_def createThread_def forwardText_def forwardMedia_def forwardToSupport_def
  forwardTextToUser_def forwardMediaToUser_def userData_def conversationData_def issueData_def
  getMediaType_def getMediaUrl_def getFileId_def hasMedia_def call_def
  initialWorld_def setSupportGroupId_def

lemmas sample_defs =
  alice_def bob_def textMessage_def groupMessage_def groupReply_def update_def allGood_def
  supportWorld_def

lemma threadedWorld_storage:
  "storage threadedWorld =
     \<lparr>users =
        [(1, \<lparr>telegramId = ''111'', username = None, firstName = ''Alice'', lastName = None,
               languageCode = Some ''en'', isPremium = Some False, bio = None,
               profilePhoto = None, id_u = 1, joinedAt = 1000\<rparr>)],
      conversations =
        [(1, \<lparr>telegramUserId = ''111'', threadId = Some ''500'', status = ''open'', id_c = 1,
               lastMessageAt = 1004, createdAt = 1001\<rparr>)],
      messages =
        [(1, \<lparr>conversationId = 1, telegramMessageId = Some ''7'', senderId = ''111'',
               senderType = ''user'', senderName = Some ''Alice'', content = Some ''help'',
               mediaType = None, mediaUrl = None, id_m = 1, sentAt = 1002\<rparr>)],
      supportIssues =
        [(1, \<lparr>userId = ''111'', conversationId_i = 1, title = ''New Support Request'',
               status_i = ''pending'', assignedTo = None, id_i = 1, openedAt = 1005,
               closedAt = None\<rparr>)],
      currentIds_users = 2, currentIds_conversations = 2, currentIds_messages = 2,
      currentIds_supportIssues = 2\<rparr>"
  and threadedWorld_group: "supportGroupId threadedWorld = Some ''-100''"
  by (simp_all add: threadedWorld_def sample_defs router_defs store_defs js_defs senderNameOf_def)

theorem reply_to_unknown_thread_is_noop_witness:
  "isSupportGroupMessage (groupReply 999 ''On it'') threadedWorld \<and>
   reply_to_message (groupReply 999 ''On it'') = Some 999 \<and>
   map threadId (Map_values (conversations (storage threadedWorld))) = [Some ''500''] \<and>
   toString 999 = ''999'' \<and>
   processUpdate allGood (update (groupReply 999 ''On it'')) threadedWorld = threadedWorld"
proof -
  have a: "isSupportGroupMessage (groupReply 999 ''On it'') threadedWorld"
    by (simp add: isSupportGroupMessage_def threadedWorld_group groupReply_def groupMessage_def
          truthy_def toString_minus_100)
  have b: "reply_to_message (groupReply 999 ''On it'') = Some 999"
    by (simp add: groupReply_def)
  have t: "toString 999 = ''999''"
    by (simp add: js_defs)
  have c: "\<forall>c \<in> set (Map_values (conversations (storage threadedWorld))).
             threadId c \<noteq> Some (toString 999)"
    by (simp add: threadedWorld_storage Map_values_def t)
  show ?thesis
    using a b t reply_to_unknown_thread_is_noop
                  [OF a b c, of allGood "update (groupReply 999 ''On it'')"]
    by (simp add: threadedWorld_storage Map_values_def update_def)
qed

lemma storageOk_threadedWorld: "storageOk (storage threadedWorld)"
  by (simp add: threadedWorld_storage storageOk_def mapOk_def keysOf_def)

lemma toString_111: "toString 111 = ''111''"
  by (simp add: js_defs)

lemma parseInt_samples: "parseInt ''500'' = Some 500" "parseInt ''0'' = Some 0" "parseInt ''111'' = Some 111"
  by code_simp+

lemmas parse_defs =
  parseInt_def readUnsigned_def readDigits_def isDigitOf_def digitValue_def whiteSpace_def
  trimStart.simps

lemma threadedWorld_calls:
  "filter isMediaForward (botCalls threadedWorld) = []"
  "filter isWelcome (botCalls threadedWorld) = [SendMessage (ChatNum 111) welcomeText noOptions]"
  "filter (isTextForward ''-100'') (botCalls threadedWorld) =
     [SendMessage (ChatStr ''-100'') ''<b>Alice:</b> help''
        \<lparr>reply_to_message_id = Some (Some 500), parse_mode = Some ''HTML'', caption_opt = None\<rparr>]"
  by (simp_all add: threadedWorld_def sample_defs router_defs store_defs js_defs senderNameOf_def
        threadOptions_def boldPrefix_def parseInt_samples noOptions_def)

subsection \<open>The media kind of a message\<close>

text \<open>
  C6. The media kind of a message is at most one of the five kinds, the first present in
  the order photo, document, video, audio, voice. That kind is what ends up in the store:
  the user handler, once the sender is known or welcomed, and the support handler, for a
  reply tied to a conversation, each store exactly one message, and its media kind is the
  kind of the event (the photo array being non-empty, as Telegram sends it). So a message
  with both a photo and a document is stored with kind "photo".
\<close>

theorem getMediaType_precedence:
  assumes "storageOk (storage w)" and "from_user m = Some f" and "photo m \<noteq> Some []"
  shows
    "getMediaType m \<in> {None, Some ''photo'', Some ''document'', Some ''video'', Some ''audio'', Some ''voice''} \<and>
     (photo m \<noteq> None \<longrightarrow> getMediaType m = Some ''photo'') \<and>
     (photo m = None \<and> document m \<noteq> None \<longrightarrow> getMediaType m = Some ''document'') \<and>
     (photo m = None \<and> document m = None \<and> video m \<noteq> None \<longrightarrow> getMediaType m = Some ''video'') \<and>
     (photo m = None \<and> document m = None \<and> video m = None \<and> audio m \<noteq> None
        \<longrightarrow> getMediaType m = Some ''audio'') \<and>
     (photo m = None \<and> document m = None \<and> video m = None \<and> audio m = None \<and> voice m \<noteq> None
        \<longrightarrow> getMediaType m = Some ''voice'') \<and>
     (photo m = None \<and> document m = None \<and> video m = None \<and> audio m = None \<and> voice m = None
        \<longrightarrow> getMediaType m = None) \<and>
     (getUserByTelegramId (storage w) (toString (id_tg f)) \<noteq> None \<or> welcomeSent env \<longrightarrow>
        (\<exists>msg. Map_values (messages (storage (snd (handleUserDirectMessage env m w)))) =
                 Map_values (messages (storage w)) @ [msg] \<and>
               senderType msg = ''user'' \<and> mediaType msg = getMediaType m)) \<and>
     (\<forall>rid c. reply_to_message m = Some rid \<and>
               getConversationByThreadId (storage w) (toString rid) = Some c \<longrightarrow>
        (\<exists>msg. Map_values (messages (storage (snd (handleSupportGroupMessage env m w)))) =
                 Map_values (messages (storage w)) @ [msg] \<and>
               senderType msg = ''admin'' \<and> mediaType msg = getMediaType m \<and>
               conversationId msg = id_c c))"
proof -
  have kinds:
    "getMediaType m \<in> {None, Some ''photo'', Some ''document'', Some ''video'', Some ''audio'', Some ''voice''}"
    "photo m \<noteq> None \<longrightarrow> getMediaType m = Some ''photo''"
    "photo m = None \<and> document m \<noteq> None \<longrightarrow> getMediaType m = Some ''document''"
    "photo m = None \<and> document m = None \<and> video m \<noteq> None \<longrightarrow> getMediaType m = Some ''video''"
    "photo m = None \<and> document m = None \<and> video m = None \<and> audio m \<noteq> None
        \<longrightarrow> getMediaType m = Some ''audio''"
    "photo m = None \<and> document m = None \<and> video m = None \<and> audio m = None \<and> voice m \<noteq> None
        \<longrightarrow> getMediaType m = Some ''voice''"
    "photo m = None \<and> document m = None \<and> video m = None \<and> audio m = None \<and> voice m = None
        \<longrightarrow> getMediaType m = None"
    by (simp_all add: getMediaType_def)
  have user:
    "getUserByTelegramId (storage w) (toString (id_tg f)) \<noteq> None \<or> welcomeSent env \<longrightarrow>
        (\<exists>msg. Map_values (messages (storage (snd (handleUserDirectMessage env m w)))) =
                 Map_values (messages (storage w)) @ [msg] \<and>
               senderType msg = ''user'' \<and> mediaType msg = getMediaType m)"
    using user_message_kind[OF assms] by (rule impI)
  have admin:
    "\<forall>rid c. reply_to_message m = Some rid \<and>
               getConversationByThreadId (storage w) (toString rid) = Some c \<longrightarrow>
        (\<exists>msg. Map_values (messages (storage (snd (handleSupportGroupMessage env m w)))) =
                 Map_values (messages (storage w)) @ [msg] \<and>
               senderType msg = ''admin'' \<and> mediaType msg = getMediaType m \<and>
               conversationId msg = id_c c)"
  proof (intro allI impI)
    fix rid c
    assume h: "reply_to_message m = Some rid \<and>
               getConversationByThreadId (storage w) (toString rid) = Some c"
    show "\<exists>msg. Map_values (messages (storage (snd (handleSupportGroupMessage env m w)))) =
                 Map_values (messages (storage w)) @ [msg] \<and>
               senderType msg = ''admin'' \<and> mediaType msg = getMediaType m \<and>
               conversationId msg = id_c c"
      using admin_message_kind[OF assms(1,2) conjunct1[OF h] conjunct2[OF h] assms(3)] .
  qed
  show ?thesis
    by (intro conjI; fact kinds user admin)
qed

lemma toString_500: "toString 500 = ''500''"
  by (simp add: js_defs)

lemma threadedWorld_thread:
  "getConversationByThreadId (storage threadedWorld) (toString 500) =
     Some \<lparr>telegramUserId = ''111'', threadId = Some ''500'', status = ''open'', id_c = 1,
           lastMessageAt = 1004, createdAt = 1001\<rparr>"
  by (simp add: threadedWorld_storage getConversationByThreadId_def Map_values_def toString_500)

lemma threadedWorld_alice:
  "getUserByTelegramId (storage threadedWorld) (toString (id_tg alice)) \<noteq> None"
  by (simp add: threadedWorld_storage getUserByTelegramId_def Map_values_def alice_def toString_111)


theorem getMediaType_precedence_witness:
  "storageOk (storage threadedWorld) \<and>
   from_user photoAndDocument = Some alice \<and>
   photo photoAndDocument = Some [''small-photo'', ''large-photo''] \<and>
   document photoAndDocument = Some ''the-document'' \<and>
   getUserByTelegramId (storage threadedWorld) (toString (id_tg alice)) \<noteq> None \<and>
   getMediaType photoAndDocument = Some ''photo'' \<and>
   map (\<lambda>msg. (senderType msg, mediaType msg)) (Map_values (messages (storage
       (snd (handleUserDirectMessage allGood photoAndDocument threadedWorld))))) =
     [(''user'', None), (''user'', Some ''photo'')] \<and>
   from_user photoAndDocumentReply = Some bob \<and>
   reply_to_message photoAndDocumentReply = Some 500 \<and>
   getConversationByThreadId (storage threadedWorld) (toString 500) \<noteq> None \<and>
   map (\<lambda>msg. (senderType msg, mediaType msg)) (Map_values (messages (storage
       (snd (handleSupportGroupMessage allGood photoAndDocumentReply threadedWorld))))) =
     [(''user'', None), (''admin'', Some ''photo'')]"
proof -
  have ok: "storageOk (storage threadedWorld)" by (rule storageOk_threadedWorld)
  have a: "from_user photoAndDocument = Some alice"
    and p: "photo photoAndDocument \<noteq> Some []"
    and pd: "photo photoAndDocument = Some [''small-photo'', ''large-photo'']"
            "document photoAndDocument = Some ''the-document''"
    by (simp_all add: photoAndDocument_def textMessage_def)
  have b: "from_user photoAndDocumentReply = Some bob"
    and q: "photo photoAndDocumentReply \<noteq> Some []"
    and r: "reply_to_message photoAndDocumentReply = Some 500"
    by (simp_all add: photoAndDocumentReply_def photoAndDocument_def textMessage_def)
  have k: "getMediaType photoAndDocument = Some ''photo''"
    by (simp add: photoAndDocument_def textMessage_def getMediaType_def)
  have u: "map (\<lambda>msg. (senderType msg, mediaType msg)) (Map_values (messages (storage
             (snd (handleUserDirectMessage allGood photoAndDocument threadedWorld))))) =
           [(''user'', None), (''user'', Some ''photo'')]"
    by (simp add: photoAndDocument_def sample_defs router_defs store_defs js_defs senderNameOf_def
          threadedWorld_storage threadedWorld_group threadOptions_def boldPrefix_def
          parseInt_samples)
  have v: "map (\<lambda>msg. (senderType msg, mediaType msg)) (Map_values (messages (storage
             (snd (handleSupportGroupMessage allGood photoAndDocumentReply threadedWorld))))) =
           [(''user'', None), (''admin'', Some ''photo'')]"
    by (simp add: photoAndDocumentReply_def photoAndDocument_def sample_defs router_defs
          store_defs js_defs senderNameOf_def threadedWorld_storage noOptions_def)
  show ?thesis
    using ok a pd b r k u v threadedWorld_alice threadedWorld_thread
      getMediaType_precedence[OF ok a p, of allGood]
      getMediaType_precedence[OF ok b q, of allGood]
    by simp
qed

subsection \<open>Media that is and is not forwarded\<close>

text \<open>
  C7. Take a message with a sender, in a world whose store keeps the identifier
  discipline. If its media kind is audio or voice, then neither handler makes a media
  call (\<open>sendPhoto\<close>, \<open>sendDocument\<close>, \<open>sendVideo\<close>), whatever the gateway answers, and
  the message that the handler stores (the user handler once the sender is known or
  welcomed, the support handler once the reply is tied to a conversation) carries that
  kind and the file id. If the message has a photo, or else a document, or else a video,
  with a non-empty file id, the handler makes exactly one media call, of that kind and
  with that file id, whenever the gateway lets it come that far. The user handler sends
  it into the configured support group, with the caption prefixed by the sender's first
  name, when the sender is known or welcomed, the introduction of a new thread (if the
  conversation has none) is accepted and the forward of the text (if there is one) is
  accepted. The support handler sends it to the conversation's user, with the caption of
  the message, when the forward of the text (if there is one) is accepted.
\<close>

theorem audio_voice_stored_not_forwarded:
  assumes "storageOk (storage w)" and "from_user m = Some f"
  shows
    "(getMediaType m = Some ''audio'' \<or> getMediaType m = Some ''voice'' \<longrightarrow>
        filter isMediaForward (botCalls (snd (handleUserDirectMessage env m w))) =
          filter isMediaForward (botCalls w) \<and>
        filter isMediaForward (botCalls (snd (handleSupportGroupMessage env m w))) =
          filter isMediaForward (botCalls w) \<and>
        (getUserByTelegramId (storage w) (toString (id_tg f)) \<noteq> None \<or> welcomeSent env \<longrightarrow>
           (\<exists>msg. Map_values (messages (storage (snd (handleUserDirectMessage env m w)))) =
                    Map_values (messages (storage w)) @ [msg] \<and>
                  senderType msg = ''user'' \<and> mediaType msg = getMediaType m \<and>
                  mediaUrl msg = (if audio m \<noteq> None then audio m else voice m))) \<and>
        (\<forall>rid c. reply_to_message m = Some rid \<and>
                  getConversationByThreadId (storage w) (toString rid) = Some c \<longrightarrow>
           (\<exists>msg. Map_values (messages (storage (snd (handleSupportGroupMessage env m w)))) =
                    Map_values (messages (storage w)) @ [msg] \<and>
                  senderType msg = ''admin'' \<and> mediaType msg = getMediaType m \<and>
                  mediaUrl msg = (if audio m \<noteq> None then audio m else voice m)))) \<and>
     (\<forall>g. supportGroupId w = Some g \<and> g \<noteq> [] \<and>
           (getUserByTelegramId (storage w) (toString (id_tg f)) \<noteq> None \<or> welcomeSent env) \<and>
           (unthreaded (storage w) (toString (id_tg f)) \<longrightarrow> threadMessageId env \<noteq> None) \<and>
           (truthy (text_m m) \<longrightarrow> textForwarded env) \<longrightarrow>
        (\<forall>sizes. photo m = Some sizes \<and> sizes \<noteq> [] \<and> last sizes \<noteq> [] \<longrightarrow>
           (\<exists>opts. filter isMediaForward (botCalls (snd (handleUserDirectMessage env m w))) =
                     filter isMediaForward (botCalls w) @ [SendPhoto (ChatStr g) (last sizes) opts] \<and>
                   caption_opt opts = Some (boldPrefix f (orElse (caption m) [])) \<and>
                   parse_mode opts = Some ''HTML'')) \<and>
        (\<forall>d. photo m = None \<and> document m = Some d \<and> d \<noteq> [] \<longrightarrow>
           (\<exists>opts. filter isMediaForward (botCalls (snd (handleUserDirectMessage env m w))) =
                     filter isMediaForward (botCalls w) @ [SendDocument (ChatStr g) d opts] \<and>
                   caption_opt opts = Some (boldPrefix f (orElse (caption m) [])) \<and>
                   parse_mode opts = Some ''HTML'')) \<and>
        (\<forall>v. photo m = None \<and> document m = None \<and> video m = Some v \<and> v \<noteq> [] \<longrightarrow>
           (\<exists>opts. filter isMediaForward (botCalls (snd (handleUserDirectMessage env m w))) =
                     filter isMediaForward (botCalls w) @ [SendVideo (ChatStr g) v opts] \<and>
                   caption_opt opts = Some (boldPrefix f (orElse (caption m) [])) \<and>
                   parse_mode opts = Some ''HTML''))) \<and>
     (\<forall>rid c. reply_to_message m = Some rid \<and>
               getConversationByThreadId (storage w) (toString rid) = Some c \<and>
               (truthy (text_m m) \<longrightarrow> textForwarded env) \<longrightarrow>
        (\<forall>sizes. photo m = Some sizes \<and> sizes \<noteq> [] \<and> last sizes \<noteq> [] \<longrightarrow>
           filter isMediaForward (botCalls (snd (handleSupportGroupMessage env m w))) =
             filter isMediaForward (botCalls w) @
               [SendPhoto (ChatStr (telegramUserId c)) (last sizes) (noOptions\<lparr>caption_opt := caption m\<rparr>)]) \<and>
        (\<forall>d. photo m = None \<and> document m = Some d \<and> d \<noteq> [] \<longrightarrow>
           filter isMediaForward (botCalls (snd (handleSupportGroupMessage env m w))) =
             filter isMediaForward (botCalls w) @
               [SendDocument (ChatStr (telegramUserId c)) d (noOptions\<lparr>caption_opt := caption m\<rparr>)]) \<and>
        (\<forall>v. photo m = None \<and> document m = None \<and> video m = Some v \<and> v \<noteq> [] \<longrightarrow>
           filter isMediaForward (botCalls (snd (handleSupportGroupMessage env m w))) =
             filter isMediaForward (botCalls w) @
               [SendVideo (ChatStr (telegramUserId c)) v (noOptions\<lparr>caption_opt := caption m\<rparr>)]))"
proof (intro conjI impI allI)
  assume k: "getMediaType m = Some ''audio'' \<or> getMediaType m = Some ''voice''"
  then have n: "photo m = None" "document m = None" "video m = None"
    by (auto simp: getMediaType_def split: if_splits)
  show "filter isMediaForward (botCalls (snd (handleUserDirectMessage env m w))) =
          filter isMediaForward (botCalls w)"
    using assms(1) n by (rule user_no_media_forward)
  show "filter isMediaForward (botCalls (snd (handleSupportGroupMessage env m w))) =
          filter isMediaForward (botCalls w)"
    using assms(1) n by (rule admin_no_media_forward)
  show "\<exists>msg. Map_values (messages (storage (snd (handleUserDirectMessage env m w)))) =
                    Map_values (messages (storage w)) @ [msg] \<and>
                  senderType msg = ''user'' \<and> mediaType msg = getMediaType m \<and>
                  mediaUrl msg = (if audio m \<noteq> None then audio m else voice m)"
    if "getUserByTelegramId (storage w) (toString (id_tg f)) \<noteq> None \<or> welcomeSent env"
    using user_message_stored[OF assms n(1) that] n by simp
  show "\<exists>msg. Map_values (messages (storage (snd (handleSupportGroupMessage env m w)))) =
                    Map_values (messages (storage w)) @ [msg] \<and>
                  senderType msg = ''admin'' \<and> mediaType msg = getMediaType m \<and>
                  mediaUrl msg = (if audio m \<noteq> None then audio m else voice m)"
    if "reply_to_message m = Some rid \<and>
        getConversationByThreadId (storage w) (toString rid) = Some c" for rid c
    using admin_message_stored[OF assms conjunct1[OF that] conjunct2[OF that] n(1)] n by simp
next
  fix g sizes
  assume h: "supportGroupId w = Some g \<and> g \<noteq> [] \<and>
           (getUserByTelegramId (storage w) (toString (id_tg f)) \<noteq> None \<or> welcomeSent env) \<and>
           (unthreaded (storage w) (toString (id_tg f)) \<longrightarrow> threadMessageId env \<noteq> None) \<and>
           (truthy (text_m m) \<longrightarrow> textForwarded env)"
    and p: "photo m = Some sizes \<and> sizes \<noteq> [] \<and> last sizes \<noteq> []"
  show "\<exists>opts. filter isMediaForward (botCalls (snd (handleUserDirectMessage env m w))) =
                     filter isMediaForward (botCalls w) @ [SendPhoto (ChatStr g) (last sizes) opts] \<and>
                   caption_opt opts = Some (boldPrefix f (orElse (caption m) [])) \<and>
                   parse_mode opts = Some ''HTML''"
    using assms h p by (rule user_media_sent(1))
next
  fix g d
  assume h: "supportGroupId w = Some g \<and> g \<noteq> [] \<and>
           (getUserByTelegramId (storage w) (toString (id_tg f)) \<noteq> None \<or> welcomeSent env) \<and>
           (unthreaded (storage w) (toString (id_tg f)) \<longrightarrow> threadMessageId env \<noteq> None) \<and>
           (truthy (text_m m) \<longrightarrow> textForwarded env)"
    and p: "photo m = None \<and> document m = Some d \<and> d \<noteq> []"
  show "\<exists>opts. filter isMediaForward (botCalls (snd (handleUserDirectMessage env m w))) =
                     filter isMediaForward (botCalls w) @ [SendDocument (ChatStr g) d opts] \<and>
                   caption_opt opts = Some (boldPrefix f (orElse (caption m) [])) \<and>
                   parse_mode opts = Some ''HTML''"
    using assms h p by (rule user_media_sent(2))
next
  fix g v
  assume h: "supportGroupId w = Some g \<and> g \<noteq> [] \<and>
           (getUserByTelegramId (storage w) (toString (id_tg f)) \<noteq> None \<or> welcomeSent env) \<and>
           (unthreaded (storage w) (toString (id_tg f)) \<longrightarrow> threadMessageId env \<noteq> None) \<and>
           (truthy (text_m m) \<longrightarrow> textForwarded env)"
    and p: "photo m = None \<and> document m = None \<and> video m = Some v \<and> v \<noteq> []"
  show "\<exists>opts. filter isMediaForward (botCalls (snd (handleUserDirectMessage env m w))) =
                     filter isMediaForward (botCalls w) @ [SendVideo (ChatStr g) v opts] \<and>
                   caption_opt opts = Some (boldPrefix f (orElse (caption m) [])) \<and>
                   parse_mode opts = Some ''HTML''"
    using assms h p by (rule user_media_sent(3))
next
  fix rid c sizes
  assume h: "reply_to_message m = Some rid \<and>
               getConversationByThreadId (storage w) (toString rid) = Some c \<and>
               (truthy (text_m m) \<longrightarrow> textForwarded env)"
    and p: "photo m = Some sizes \<and> sizes \<noteq> [] \<and> last sizes \<noteq> []"
  show "filter isMediaForward (botCalls (snd (handleSupportGroupMessage env m w))) =
             filter isMediaForward (botCalls w) @
               [SendPhoto (ChatStr (telegramUserId c)) (last sizes) (noOptions\<lparr>caption_opt := caption m\<rparr>)]"
    using assms h p by (rule admin_media_sent(1))
next
  fix rid c d
  assume h: "reply_to_message m = Some rid \<and>
               getConversationByThreadId (storage w) (toString rid) = Some c \<and>
               (truthy (text_m m) \<longrightarrow> textForwarded env)"
    and p: "photo m = None \<and> document m = Some d \<and> d \<noteq> []"
  show "filter isMediaForward (botCalls (snd (handleSupportGroupMessage env m w))) =
             filter isMediaForward (botCalls w) @
               [SendDocument (ChatStr (telegramUserId c)) d (noOptions\<lparr>caption_opt := caption m\<rparr>)]"
    using assms h p by (rule admin_media_sent(2))
next
  fix rid c v
  assume h: "reply_to_message m = Some rid \<and>
               getConversationByThreadId (storage w) (toString rid) = Some c \<and>
               (truthy (text_m m) \<longrightarrow> textForwarded env)"
    and p: "photo m = None \<and> document m = None \<and> video m = Some v \<and> v \<noteq> []"
  show "filter isMediaForward (botCalls (snd (handleSupportGroupMessage env m w))) =
             filter isMediaForward (botCalls w) @
               [SendVideo (ChatStr (telegramUserId c)) v (noOptions\<lparr>caption_opt := caption m\<rparr>)]"
    using assms h p by (rule admin_media_sent(3))
qed

text \<open>
  Run on the world after Alice's first message: her voice note and Bob's voice note are
  stored and not forwarded; her photo goes into the group even when the gateway then
  rejects the send, and Bob's photo goes to her.
\<close>

theorem audio_voice_stored_not_forwarded_witness:
  "storageOk (storage threadedWorld) \<and>
   from_user voiceMessage = Some alice \<and> getMediaType voiceMessage = Some ''voice'' \<and>
   filter isMediaForward (botCalls (snd (handleUserDirectMessage allGood voiceMessage threadedWorld))) = [] \<and>
   map (\<lambda>msg. (mediaType msg, mediaUrl msg))
     (Map_values (messages (storage (snd (handleUserDirectMessage allGood voiceMessage threadedWorld)))))
     = [(None, None), (Some ''voice'', Some ''voice-file'')] \<and>
   from_user voiceReply = Some bob \<and> getMediaType voiceReply = Some ''voice'' \<and>
   reply_to_message voiceReply = Some 500 \<and>
   filter isMediaForward (botCalls (snd (handleSupportGroupMessage allGood voiceReply threadedWorld))) = [] \<and>
   map (\<lambda>msg. (senderType msg, mediaType msg, mediaUrl msg))
     (Map_values (messages (storage (snd (handleSupportGroupMessage allGood voiceReply threadedWorld)))))
     = [(''user'', None, None), (''admin'', Some ''voice'', Some ''voice-file'')] \<and>
   supportGroupId threadedWorld = Some ''-100'' \<and>
   from_user photoMessage = Some alice \<and>
   photo photoMessage = Some [''small-photo'', ''large-photo''] \<and>
   \<not> mediaForwarded (allGood\<lparr>mediaForwarded := False\<rparr>) \<and>
   handleUserDirectMessage (allGood\<lparr>mediaForwarded := False\<rparr>) photoMessage threadedWorld =
     (Rejected, snd (handleUserDirectMessage allGood photoMessage threadedWorld)) \<and>
   filter isMediaForward (botCalls (snd (handleUserDirectMessage allGood photoMessage threadedWorld))) =
     [SendPhoto (ChatStr ''-100'') ''large-photo''
        \<lparr>reply_to_message_id = Some (Some 500), parse_mode = Some ''HTML'',
         caption_opt = Some ''<b>Alice:</b> my screen''\<rparr>] \<and>
   from_user photoReply = Some bob \<and> reply_to_message photoReply = Some 500 \<and>
   filter isMediaForward (botCalls (snd (handleSupportGroupMessage allGood photoReply threadedWorld))) =
     [SendPhoto (ChatStr ''111'') ''large-photo''
        \<lparr>reply_to_message_id = None, parse_mode = None, caption_opt = Some ''my screen''\<rparr>]"
proof -
  have ok: "storageOk (storage threadedWorld)" by (rule storageOk_threadedWorld)
  have f: "from_user voiceMessage = Some alice" "from_user photoMessage = Some alice"
    "from_user voiceReply = Some bob" "from_user photoReply = Some bob"
    "reply_to_message voiceReply = Some 500" "reply_to_message photoReply = Some 500"
    "photo photoMessage = Some [''small-photo'', ''large-photo'']"
    "photo photoReply = Some [''small-photo'', ''large-photo'']"
    "text_m photoMessage = None" "text_m photoReply = None"
    by (simp_all add: voiceMessage_def photoMessage_def voiceReply_def photoReply_def textMessage_def)
  have k: "getMediaType voiceMessage = Some ''voice''" "getMediaType voiceReply = Some ''voice''"
    by (simp_all add: voiceMessage_def voiceReply_def textMessage_def getMediaType_def)
  have e: "map (\<lambda>msg. (mediaType msg, mediaUrl msg))
             (Map_values (messages (storage (snd (handleUserDirectMessage allGood voiceMessage threadedWorld)))))
             = [(None, None), (Some ''voice'', Some ''voice-file'')]"
    by (simp add: voiceMessage_def sample_defs router_defs store_defs js_defs senderNameOf_def
          threadedWorld_storage threadedWorld_group)
  have e2: "map (\<lambda>msg. (senderType msg, mediaType msg, mediaUrl msg))
             (Map_values (messages (storage (snd (handleSupportGroupMessage allGood voiceReply threadedWorld)))))
             = [(''user'', None, None), (''admin'', Some ''voice'', Some ''voice-file'')]"
    by (simp add: voiceReply_def voiceMessage_def sample_defs router_defs store_defs js_defs
          senderNameOf_def threadedWorld_storage)
  have p: "handleUserDirectMessage (allGood\<lparr>mediaForwarded := False\<rparr>) photoMessage threadedWorld =
             (Rejected, snd (handleUserDirectMessage allGood photoMessage threadedWorld))"
       "filter isMediaForward (botCalls (snd (handleUserDirectMessage allGood photoMessage threadedWorld))) =
         [SendPhoto (ChatStr ''-100'') ''large-photo''
            \<lparr>reply_to_message_id = Some (Some 500), parse_mode = Some ''HTML'',
             caption_opt = Some ''<b>Alice:</b> my screen''\<rparr>]"
    by (simp_all add: photoMessage_def sample_defs router_defs store_defs js_defs senderNameOf_def
          threadedWorld_storage threadedWorld_group threadedWorld_calls
          threadOptions_def boldPrefix_def parseInt_samples)
  have q: "filter isMediaForward (botCalls (snd (handleSupportGroupMessage allGood photoReply threadedWorld))) =
     [SendPhoto (ChatStr ''111'') ''large-photo''
        \<lparr>reply_to_message_id = None, parse_mode = None, caption_opt = Some ''my screen''\<rparr>]"
    by (simp add: photoReply_def photoMessage_def sample_defs router_defs store_defs js_defs
          senderNameOf_def threadedWorld_storage threadedWorld_calls noOptions_def)
  have bad: "\<not> mediaForwarded (allGood\<lparr>mediaForwarded := False\<rparr>)" by simp
  show ?thesis
    using ok f k e e2 p q bad threadedWorld_group threadedWorld_calls(1)
      audio_voice_stored_not_forwarded[OF ok f(1), of allGood]
      audio_voice_stored_not_forwarded[OF ok f(3), of allGood]
      audio_voice_stored_not_forwarded[OF ok f(2), of "allGood\<lparr>mediaForwarded := False\<rparr>"]
      audio_voice_stored_not_forwarded[OF ok f(4), of allGood]
    by simp
qed

subsection \<open>Forwarding the text\<close>

lemma user_without_group:
  assumes "storageOk (storage w)" and "from_user m = Some f" and "photo m \<noteq> Some []"
      and "getUserByTelegramId (storage w) (toString (id_tg f)) \<noteq> None \<or> welcomeSent env"
      and "\<not> truthy (supportGroupId w)"
      and "handleUserDirectMessage env m w = (r, w')"
  shows "filter (isTextForward g) (botCalls w') = filter (isTextForward g) (botCalls w)"
    and "supportIssues (storage w') = supportIssues (storage w)"
proof -
  obtain user w1 conversation w2 w3 where
    h: "getOrCreateUser env m f w = (Fulfilled user, w1)"
       "getOrCreateConversation env (toString (id_tg f)) w1 = (conversation, w2)"
       "storeMessage env (messageData (id_c conversation) (toString (id_tg f)) ''user'' m f) w2
          = (Fulfilled (), w3)"
       "handleUserDirectMessage env m w =
          forwardToSupport env m f (toString (id_tg f)) user conversation w3"
    using user_stored_path[OF assms(1-4)] by blast
  note p = user_prefix[OF assms(1) h(1-3)]
  have "\<not> truthy (supportGroupId w3)" using p(2) assms(5) by simp
  then have "w' = w3" using h(4) assms(6) by (simp add: forwardToSupport_no_group)
  then show "filter (isTextForward g) (botCalls w') = filter (isTextForward g) (botCalls w)"
    and "supportIssues (storage w') = supportIssues (storage w)"
    using p(3) p(5) by simp_all
qed

text \<open>
  How the user handler forwards a text, case by case. Take a message with a sender and a
  non-empty text, processed far enough to be stored (the sender is known or the welcome is
  accepted, and the photo array is not empty). With no support group configured, no text
  goes to any group. With a group configured, the text, prefixed with the sender's first
  name in bold, is sent into the group exactly once, as a reply: to the thread reference
  of the sender's conversation when it had one; to the introduction message just posted
  when the thread is created in this event; and to message id 0 when the forum topic is
  refused, in which case the conversation still has no thread reference afterwards. Only
  when the introduction message itself is rejected does the event end before the forward.
\<close>

lemma text_forwarded_thread_or_not:
  assumes "storageOk (storage w)" and "from_user m = Some f"
      and "text_m m = Some t" and "t \<noteq> []" and "photo m \<noteq> Some []"
      and "getUserByTelegramId (storage w) (toString (id_tg f)) \<noteq> None \<or> welcomeSent env"
      and "handleUserDirectMessage env m w = (r, w')"
  shows
    "(\<not> truthy (supportGroupId w) \<longrightarrow>
        (\<forall>g. filter (isTextForward g) (botCalls w') = filter (isTextForward g) (botCalls w))) \<and>
     (\<forall>g. supportGroupId w = Some g \<and> g \<noteq> [] \<longrightarrow>
        (\<forall>c. getConversationByTelegramUserId (storage w) (toString (id_tg f)) = Some c \<and>
              truthy (threadId c) \<longrightarrow>
           filter (isTextForward g) (botCalls w') =
             filter (isTextForward g) (botCalls w) @
               [SendMessage (ChatStr g) (boldPrefix f t)
                  \<lparr>reply_to_message_id = Some (parseInt (the (threadId c))),
                   parse_mode = Some ''HTML'', caption_opt = None\<rparr>]) \<and>
        (unthreaded (storage w) (toString (id_tg f)) \<longrightarrow>
           (\<forall>mid. threadMessageId env = Some mid \<and> forumTopicCreated env \<longrightarrow>
              map_option threadId (getConversationByTelegramUserId (storage w') (toString (id_tg f)))
                = Some (Some (toString mid)) \<and>
              filter (isTextForward g) (botCalls w') =
                filter (isTextForward g) (botCalls w) @
                  [SendMessage (ChatStr g) (boldPrefix f t)
                     \<lparr>reply_to_message_id = Some (parseInt (toString mid)),
                      parse_mode = Some ''HTML'', caption_opt = None\<rparr>]) \<and>
           (\<forall>mid. threadMessageId env = Some mid \<and> \<not> forumTopicCreated env \<longrightarrow>
              getConversationByTelegramUserId (storage w') (toString (id_tg f)) \<noteq> None \<and>
              unthreaded (storage w') (toString (id_tg f)) \<and>
              filter (isTextForward g) (botCalls w') =
                filter (isTextForward g) (botCalls w) @
                  [SendMessage (ChatStr g) (boldPrefix f t)
                     \<lparr>reply_to_message_id = Some (Some 0),
                      parse_mode = Some ''HTML'', caption_opt = None\<rparr>]) \<and>
           (threadMessageId env = None \<longrightarrow>
              r = Rejected \<and>
              filter (isTextForward g) (botCalls w') = filter (isTextForward g) (botCalls w))))"
proof -
  have tt: "truthy (text_m m)" "the (text_m m) = t"
    using assms(3,4) by (simp_all add: truthy_def)
  have none: "filter (isTextForward g) (botCalls w') = filter (isTextForward g) (botCalls w)"
    if "\<not> truthy (supportGroupId w)" for g
    using user_without_group(1)[OF assms(1,2,5,6) that assms(7)] .
  have grp: "(\<forall>c. getConversationByTelegramUserId (storage w) (toString (id_tg f)) = Some c \<and>
              truthy (threadId c) \<longrightarrow>
           filter (isTextForward g) (botCalls w') =
             filter (isTextForward g) (botCalls w) @
               [SendMessage (ChatStr g) (boldPrefix f t)
                  \<lparr>reply_to_message_id = Some (parseInt (the (threadId c))),
                   parse_mode = Some ''HTML'', caption_opt = None\<rparr>]) \<and>
        (unthreaded (storage w) (toString (id_tg f)) \<longrightarrow>
           (\<forall>mid. threadMessageId env = Some mid \<and> forumTopicCreated env \<longrightarrow>
              map_option threadId (getConversationByTelegramUserId (storage w') (toString (id_tg f)))
                = Some (Some (toString mid)) \<and>
              filter (isTextForward g) (botCalls w') =
                filter (isTextForward g) (botCalls w) @
                  [SendMessage (ChatStr g) (boldPrefix f t)
                     \<lparr>reply_to_message_id = Some (parseInt (toString mid)),
                      parse_mode = Some ''HTML'', caption_opt = None\<rparr>]) \<and>
           (\<forall>mid. threadMessageId env = Some mid \<and> \<not> forumTopicCreated env \<longrightarrow>
              getConversationByTelegramUserId (storage w') (toString (id_tg f)) \<noteq> None \<and>
              unthreaded (storage w') (toString (id_tg f)) \<and>
              filter (isTextForward g) (botCalls w') =
                filter (isTextForward g) (botCalls w) @
                  [SendMessage (ChatStr g) (boldPrefix f t)
                     \<lparr>reply_to_message_id = Some (Some 0),
                      parse_mode = Some ''HTML'', caption_opt = None\<rparr>]) \<and>
           (threadMessageId env = None \<longrightarrow>
              r = Rejected \<and>
              filter (isTextForward g) (botCalls w') = filter (isTextForward g) (botCalls w)))"
    if g: "supportGroupId w = Some g \<and> g \<noteq> []" for g
  proof -
    note u = user_with_group[OF assms(1,2,5,6) conjunct1[OF g] conjunct2[OF g] assms(7)]
    show ?thesis
    proof (intro conjI allI impI)
      fix c
      assume "getConversationByTelegramUserId (storage w) (toString (id_tg f)) = Some c \<and>
              truthy (threadId c)"
      then show "filter (isTextForward g) (botCalls w') =
             filter (isTextForward g) (botCalls w) @
               [SendMessage (ChatStr g) (boldPrefix f t)
                  \<lparr>reply_to_message_id = Some (parseInt (the (threadId c))),
                   parse_mode = Some ''HTML'', caption_opt = None\<rparr>]"
        using u(1)[of c] tt by simp
    next
      fix mid
      assume un: "unthreaded (storage w) (toString (id_tg f))"
        and a: "threadMessageId env = Some mid \<and> forumTopicCreated env"
      from u(4)[OF un conjunct1[OF a] conjunct2[OF a]] tt
      show "map_option threadId (getConversationByTelegramUserId (storage w') (toString (id_tg f)))
                = Some (Some (toString mid))"
        and "filter (isTextForward g) (botCalls w') =
                filter (isTextForward g) (botCalls w) @
                  [SendMessage (ChatStr g) (boldPrefix f t)
                     \<lparr>reply_to_message_id = Some (parseInt (toString mid)),
                      parse_mode = Some ''HTML'', caption_opt = None\<rparr>]"
        by auto
    next
      fix mid
      assume un: "unthreaded (storage w) (toString (id_tg f))"
        and a: "threadMessageId env = Some mid \<and> \<not> forumTopicCreated env"
      from u(3)[OF un conjunct1[OF a] conjunct2[OF a]] tt
      show "getConversationByTelegramUserId (storage w') (toString (id_tg f)) \<noteq> None"
        and "unthreaded (storage w') (toString (id_tg f))"
        and "filter (isTextForward g) (botCalls w') =
                filter (isTextForward g) (botCalls w) @
                  [SendMessage (ChatStr g) (boldPrefix f t)
                     \<lparr>reply_to_message_id = Some (Some 0),
                      parse_mode = Some ''HTML'', caption_opt = None\<rparr>]"
        by (simp_all add: parseInt_samples)
    next
      assume un: "unthreaded (storage w) (toString (id_tg f))" and a: "threadMessageId env = None"
      from u(2)[OF un a]
      show "r = Rejected"
        and "filter (isTextForward g) (botCalls w') = filter (isTextForward g) (botCalls w)"
        by simp_all
    qed
  qed
  show ?thesis using none grp by blast
qed

lemma storageOk_supportWorld: "storageOk (storage supportWorld)"
  by (simp add: supportWorld_def setSupportGroupId_def initialWorld_def storageOk_new)

lemma unthreaded_supportWorld: "unthreaded (storage supportWorld) ''111''"
  by (simp add: unthreaded_def supportWorld_def setSupportGroupId_def initialWorld_def
        MemStorage_new_def getConversationByTelegramUserId_def Map_values_def)

text \<open>
  C2 where the conversation has no thread reference. Alice's first message "help" arrives
  with a support group configured; the gateway accepts the introduction and refuses the
  forum topic, so her conversation is left without a thread reference. The claim asks that
  no text be forwarded then, and the source announces a forward to the support group
  thread; the handler sends the text into the group all the same, as a reply to message
  id 0.
\<close>

theorem text_forwarded_without_thread:
  "text_m (textMessage alice ''help'') = Some ''help'' \<and>
   supportGroupId supportWorld = Some ''-100'' \<and>
   fst (handleUserDirectMessage topicRefused (textMessage alice ''help'') supportWorld) = Fulfilled () \<and>
   map threadId (Map_values (conversations (storage
       (snd (handleUserDirectMessage topicRefused (textMessage alice ''help'') supportWorld))))) = [None] \<and>
   filter (isTextForward ''-100'')
       (botCalls (snd (handleUserDirectMessage topicRefused (textMessage alice ''help'') supportWorld))) =
     [SendMessage (ChatStr ''-100'') ''<b>Alice:</b> help''
        \<lparr>reply_to_message_id = Some (Some 0), parse_mode = Some ''HTML'', caption_opt = None\<rparr>]"
  by (simp add: topicRefused_def sample_defs router_defs store_defs js_defs senderNameOf_def
        threadOptions_def boldPrefix_def parseInt_samples noOptions_def)

lemma text_forwarded_thread_or_not_sample:
  "storageOk (storage supportWorld) \<and>
   from_user (textMessage alice ''help'') = Some alice \<and>
   text_m (textMessage alice ''help'') = Some ''help'' \<and>
   photo (textMessage alice ''help'') \<noteq> Some [] \<and>
   welcomeSent topicRefused \<and>
   supportGroupId supportWorld = Some ''-100'' \<and>
   unthreaded (storage supportWorld) (toString (id_tg alice)) \<and>
   threadMessageId topicRefused = Some 500 \<and> \<not> forumTopicCreated topicRefused \<and>
   unthreaded (storage (snd (handleUserDirectMessage topicRefused (textMessage alice ''help'') supportWorld)))
     (toString (id_tg alice)) \<and>
   filter (isTextForward ''-100'')
       (botCalls (snd (handleUserDirectMessage topicRefused (textMessage alice ''help'') supportWorld))) =
     filter (isTextForward ''-100'') (botCalls supportWorld) @
     [SendMessage (ChatStr ''-100'') (boldPrefix alice ''help'')
        \<lparr>reply_to_message_id = Some (Some 0), parse_mode = Some ''HTML'', caption_opt = None\<rparr>]"
proof -
  have a: "from_user (textMessage alice ''help'') = Some alice"
    and b: "text_m (textMessage alice ''help'') = Some ''help''"
    and c: "''help'' \<noteq> []"
    and d: "photo (textMessage alice ''help'') \<noteq> Some []"
    by (simp_all add: textMessage_def)
  have e: "getUserByTelegramId (storage supportWorld) (toString (id_tg alice)) \<noteq> None \<or>
           welcomeSent topicRefused"
    by (simp add: topicRefused_def allGood_def)
  have g: "supportGroupId supportWorld = Some ''-100''"
    by (simp add: supportWorld_def setSupportGroupId_def)
  have u: "unthreaded (storage supportWorld) (toString (id_tg alice))"
    using unthreaded_supportWorld by (simp add: alice_def toString_111)
  have t: "threadMessageId topicRefused = Some 500" "\<not> forumTopicCreated topicRefused"
    "welcomeSent topicRefused"
    by (simp_all add: topicRefused_def allGood_def)
  show ?thesis
    using a b d g u t storageOk_supportWorld
      text_forwarded_thread_or_not
        [OF storageOk_supportWorld a b c d e,
         of "fst (handleUserDirectMessage topicRefused (textMessage alice ''help'') supportWorld)"
            "snd (handleUserDirectMessage topicRefused (textMessage alice ''help'') supportWorld)"]
    by simp
qed

subsection \<open>The support issue of a conversation\<close>

lemma no_issue_without_thread:
  assumes "routerOk w" and "\<not> threadedId (storage w) cid"
  shows "issuesOf (storage w) cid = []"
proof -
  have "\<forall>i \<in> set (Map_values (supportIssues (storage w))).
          threadedId (storage w) (conversationId_i i)"
    using assms(1) by (simp add: routerOk_def list_all_iff threadedId_def)
  then show ?thesis using assms(2) by (auto simp: issuesOf_def filter_empty_conv)
qed

lemma unthreaded_not_threadedId:
  assumes "storageOk s" and "unthreaded s tid"
  shows "\<not> threadedId s (case getConversationByTelegramUserId s tid of
                            None \<Rightarrow> currentIds_conversations s | Some c \<Rightarrow> id_c c)"
proof (cases "getConversationByTelegramUserId s tid")
  case None
  then show ?thesis using not_threadedId_fresh[OF assms(1)] by simp
next
  case (Some c)
  have "c \<in> set (Map_values (conversations s))"
    using Some unfolding getConversationByTelegramUserId_def by (auto dest: find_SomeD)
  moreover have "\<not> truthy (threadId c)" using assms(2) Some by (simp add: unthreaded_def)
  ultimately show ?thesis using Some not_threadedId_found[OF assms(1)] by simp
qed

text \<open>
  C3. Take a world that the router has kept in order, with a support group configured,
  and a message from a sender whose conversation (existing, or created by this event) has
  no thread reference, processed as far as the thread block. If the introduction is
  posted and the forum topic is created, then exactly one support issue is added; it has
  status "pending", names the sender, and is bound to the sender's conversation, which now
  carries the introduction's message id as its thread reference; it is the only issue
  bound to that conversation, and remains the only one after any further sequence of
  webhook deliveries. If the introduction is rejected or the forum topic is refused, no
  issue is added and the conversation still has no thread reference. In general, once
  some stored conversation with a given identifier has a thread reference, no sequence of
  deliveries changes the issues bound to that identifier.
\<close>

theorem support_issue_once_per_thread:
  assumes "routerOk w" and "from_user m = Some f" and "photo m \<noteq> Some []"
      and "getUserByTelegramId (storage w) (toString (id_tg f)) \<noteq> None \<or> welcomeSent env"
      and "supportGroupId w = Some g" and "g \<noteq> []"
      and "unthreaded (storage w) (toString (id_tg f))"
      and "handleUserDirectMessage env m w = (r, w')"
  shows
    "(\<forall>mid. threadMessageId env = Some mid \<and> forumTopicCreated env \<longrightarrow>
        (\<exists>issue c'.
           getConversationByTelegramUserId (storage w') (toString (id_tg f)) = Some c' \<and>
           threadId c' = Some (toString mid) \<and>
           Map_values (supportIssues (storage w')) =
             Map_values (supportIssues (storage w)) @ [issue] \<and>
           status_i issue = ''pending'' \<and>
           conversationId_i issue = id_c c' \<and>
           userId issue = toString (id_tg f) \<and>
           issuesOf (storage w') (id_c c') = [issue] \<and>
           (\<forall>eus. issuesOf (storage (processUpdates eus w')) (id_c c') = [issue]))) \<and>
     (threadMessageId env = None \<or> \<not> forumTopicCreated env \<longrightarrow>
        supportIssues (storage w') = supportIssues (storage w) \<and>
        unthreaded (storage w') (toString (id_tg f))) \<and>
     (\<forall>(w2 :: World) cid eus. storageOk (storage w2) \<and> threadedId (storage w2) cid \<longrightarrow>
        issuesOf (storage (processUpdates eus w2)) cid = issuesOf (storage w2) cid)"
proof (intro conjI allI impI)
  let ?tid = "toString (id_tg f)"
  have ok: "storageOk (storage w)" using assms(1) by (simp add: routerOk_def)
  note u = user_with_group[OF ok assms(2,3,4,5,6,8)]
  note s = handleUserDirectMessage_summary[OF ok assms(8)]
  {
    fix mid
    assume a: "threadMessageId env = Some mid \<and> forumTopicCreated env"
    obtain issue c' where
      i: "Map_values (supportIssues (storage w')) = Map_values (supportIssues (storage w)) @ [issue]"
         "InsertSupportIssue.truncate issue =
            \<lparr>userId = ?tid, conversationId_i = id_c c', title = ''New Support Request'',
             status_i = ''pending'', assignedTo = None\<rparr>"
         "getConversationByTelegramUserId (storage w') ?tid = Some c'"
         "threadId c' = Some (toString mid)"
         "id_c c' = (case getConversationByTelegramUserId (storage w) ?tid of
                       None \<Rightarrow> currentIds_conversations (storage w) | Some c \<Rightarrow> id_c c)"
      using u(4)[OF assms(7) conjunct1[OF a] conjunct2[OF a]] by blast
    have fields: "status_i issue = ''pending''" "conversationId_i issue = id_c c'"
      "userId issue = ?tid"
      using i(2) by (simp_all add: InsertSupportIssue.truncate_def)
    have "\<not> threadedId (storage w) (id_c c')"
      using unthreaded_not_threadedId[OF ok assms(7)] i(5) by simp
    then have none: "issuesOf (storage w) (id_c c') = []"
      using no_issue_without_thread[OF assms(1)] by simp
    have one: "issuesOf (storage w') (id_c c') = [issue]"
      using none i(1) fields(2) by (simp add: issuesOf_def)
    have "c' \<in> set (Map_values (conversations (storage w')))"
      using i(3) unfolding getConversationByTelegramUserId_def by (auto dest: find_SomeD)
    then have th: "threadedId (storage w') (id_c c')"
      using i(4) by (auto simp: threadedId_def list_ex_iff truthy_def toString_nonempty)
    have later: "issuesOf (storage (processUpdates eus w')) (id_c c') = [issue]" for eus
      using processUpdates_keeps[OF s(1) th] one by simp
    show "\<exists>issue c'.
           getConversationByTelegramUserId (storage w') ?tid = Some c' \<and>
           threadId c' = Some (toString mid) \<and>
           Map_values (supportIssues (storage w')) =
             Map_values (supportIssues (storage w)) @ [issue] \<and>
           status_i issue = ''pending'' \<and>
           conversationId_i issue = id_c c' \<and>
           userId issue = ?tid \<and>
           issuesOf (storage w') (id_c c') = [issue] \<and>
           (\<forall>eus. issuesOf (storage (processUpdates eus w')) (id_c c') = [issue])"
      using i(1,3,4) fields one later by blast
  }
  {
    assume n: "threadMessageId env = None \<or> \<not> forumTopicCreated env"
    have "supportIssues (storage w') = supportIssues (storage w) \<and> unthreaded (storage w') ?tid"
    proof (cases "threadMessageId env")
      case None
      then show ?thesis using u(2)[OF assms(7) None] by simp
    next
      case (Some mid)
      then show ?thesis using u(3)[OF assms(7) Some] n by simp
    qed
    then show "supportIssues (storage w') = supportIssues (storage w)"
      and "unthreaded (storage w') ?tid" by simp_all
  }
  {
    fix w2 :: World and cid eus
    assume "storageOk (storage w2) \<and> threadedId (storage w2) cid"
    then show "issuesOf (storage (processUpdates eus w2)) cid = issuesOf (storage w2) cid"
      using processUpdates_keeps by blast
  }
qed

lemma routerOk_supportWorld: "routerOk supportWorld"
  unfolding supportWorld_def by (rule routerOk_setSupportGroupId[OF routerOk_initialWorld])

lemma threadedWorld_handler:
  "snd (handleUserDirectMessage allGood (textMessage alice ''help'') supportWorld) = threadedWorld"
  by (simp add: threadedWorld_def processUpdate_def update_def handleIncomingMessage_def
        isSupportGroupMessage_def textMessage_def alice_def supportWorld_def setSupportGroupId_def
        toString_111 truthy_def)

theorem support_issue_once_per_thread_witness:
  "routerOk supportWorld \<and>
   from_user (textMessage alice ''help'') = Some alice \<and>
   photo (textMessage alice ''help'') \<noteq> Some [] \<and>
   welcomeSent allGood \<and>
   supportGroupId supportWorld = Some ''-100'' \<and>
   unthreaded (storage supportWorld) (toString (id_tg alice)) \<and>
   threadMessageId allGood = Some 500 \<and> forumTopicCreated allGood \<and>
   toString 500 = ''500'' \<and>
   map (\<lambda>c. (id_c c, threadId c)) (Map_values (conversations (storage threadedWorld))) =
     [(1, Some ''500'')] \<and>
   map (\<lambda>i. (conversationId_i i, status_i i, userId i)) (Map_values (supportIssues (storage threadedWorld))) =
     [(1, ''pending'', ''111'')] \<and>
   (\<exists>issue c'.
      getConversationByTelegramUserId (storage threadedWorld) (toString (id_tg alice)) = Some c' \<and>
      threadId c' = Some (toString 500) \<and>
      Map_values (supportIssues (storage threadedWorld)) =
        Map_values (supportIssues (storage supportWorld)) @ [issue] \<and>
      status_i issue = ''pending'' \<and>
      conversationId_i issue = id_c c' \<and>
      userId issue = toString (id_tg alice) \<and>
      issuesOf (storage threadedWorld) (id_c c') = [issue] \<and>
      (\<forall>eus. issuesOf (storage (processUpdates eus threadedWorld)) (id_c c') = [issue]))"
proof -
  have a: "from_user (textMessage alice ''help'') = Some alice"
    and d: "photo (textMessage alice ''help'') \<noteq> Some []"
    by (simp_all add: textMessage_def)
  have e: "getUserByTelegramId (storage supportWorld) (toString (id_tg alice)) \<noteq> None \<or>
           welcomeSent allGood"
    by (simp add: allGood_def)
  have g: "supportGroupId supportWorld = Some ''-100''" "''-100'' \<noteq> []"
    by (simp_all add: supportWorld_def setSupportGroupId_def)
  have u: "unthreaded (storage supportWorld) (toString (id_tg alice))"
    using unthreaded_supportWorld by (simp add: alice_def toString_111)
  have t: "threadMessageId allGood = Some 500" "forumTopicCreated allGood" "welcomeSent allGood"
    by (simp_all add: allGood_def)
  have s: "toString 500 = ''500''" by (simp add: js_defs)
  have v: "map (\<lambda>c. (id_c c, threadId c)) (Map_values (conversations (storage threadedWorld))) =
             [(1, Some ''500'')]"
    "map (\<lambda>i. (conversationId_i i, status_i i, userId i))
       (Map_values (supportIssues (storage threadedWorld))) = [(1, ''pending'', ''111'')]"
    by (simp_all add: threadedWorld_storage Map_values_def)
  have run: "handleUserDirectMessage allGood (textMessage alice ''help'') supportWorld =
               (fst (handleUserDirectMessage allGood (textMessage alice ''help'') supportWorld),
                threadedWorld)"
    using threadedWorld_handler by (metis prod.collapse)
  show ?thesis
    using a d g(1) u t s v routerOk_supportWorld
      support_issue_once_per_thread[OF routerOk_supportWorld a d e g u run]
    by simp
qed

subsection \<open>A new user\<close>

lemma no_conversation_without_user:
  assumes "routerOk w" and "getUserByTelegramId (storage w) tid = None"
  shows "getConversationByTelegramUserId (storage w) tid = None"
proof -
  have c: "\<forall>c \<in> set (Map_values (conversations (storage w))).
             telegramUserId c \<in> set (map telegramId (Map_values (users (storage w))))"
    using assms(1) by (simp add: routerOk_def list_all_iff)
  have "tid \<notin> set (map telegramId (Map_values (users (storage w))))"
    using assms(2) find_in_map[of telegramId tid "Map_values (users (storage w))"]
    by (simp add: getUserByTelegramId_def)
  then have "\<forall>c \<in> set (Map_values (conversations (storage w))). telegramUserId c \<noteq> tid"
    using c by metis
  then show ?thesis by (simp add: getConversationByTelegramUserId_def find_None_iff)
qed

text \<open>
  C1, with the welcome that the gateway may reject. In a world that the router has kept
  in order, take a message whose sender's external id belongs to no stored user.
  Whatever the gateway answers, processing it appends exactly one user, with that
  external id, and makes exactly one welcome call, to the chat of the message: for a
  direct message, whose chat is the sender's own, to that user. If the gateway accepts
  the welcome, processing also appends exactly one conversation, owned by that external
  id; if it rejects the welcome, the event ends there and the conversations are as
  before. A further message from the same external id, right after the event, adds no
  user and makes no welcome call; it adds no conversation when the first event added
  one, and it adds the one conversation, owned by that external id, when the first event
  did not.
\<close>

theorem new_user_welcomed_once:
  assumes "routerOk w" and "from_user m = Some f"
      and "getUserByTelegramId (storage w) (toString (id_tg f)) = None"
      and "handleUserDirectMessage env m w = (r, w')"
  shows
    "keysOf (users (storage w')) = keysOf (users (storage w)) @ [currentIds_users (storage w)] \<and>
     map telegramId (Map_values (users (storage w'))) =
       map telegramId (Map_values (users (storage w))) @ [toString (id_tg f)] \<and>
     filter isWelcome (botCalls w') =
       filter isWelcome (botCalls w) @ [SendMessage (ChatNum (chat_id m)) welcomeText noOptions] \<and>
     (chat_id m = id_tg f \<longrightarrow>
        filter isWelcome (botCalls w') =
          filter isWelcome (botCalls w) @ [SendMessage (ChatNum (id_tg f)) welcomeText noOptions]) \<and>
     (welcomeSent env \<longrightarrow>
        keysOf (conversations (storage w')) =
          keysOf (conversations (storage w)) @ [currentIds_conversations (storage w)] \<and>
        map telegramUserId (Map_values (conversations (storage w'))) =
          map telegramUserId (Map_values (conversations (storage w))) @ [toString (id_tg f)]) \<and>
     (\<not> welcomeSent env \<longrightarrow> r = Rejected \<and> conversations (storage w') = conversations (storage w)) \<and>
     (\<forall>env2 m2 f2 r2 w2.
        from_user m2 = Some f2 \<and> id_tg f2 = id_tg f \<and>
        handleUserDirectMessage env2 m2 w' = (r2, w2) \<longrightarrow>
          keysOf (users (storage w2)) = keysOf (users (storage w')) \<and>
          map telegramId (Map_values (users (storage w2))) =
            map telegramId (Map_values (users (storage w'))) \<and>
          filter isWelcome (botCalls w2) = filter isWelcome (botCalls w') \<and>
          (welcomeSent env \<longrightarrow>
             keysOf (conversations (storage w2)) = keysOf (conversations (storage w')) \<and>
             map telegramUserId (Map_values (conversations (storage w2))) =
               map telegramUserId (Map_values (conversations (storage w')))) \<and>
          (\<not> welcomeSent env \<longrightarrow>
             keysOf (conversations (storage w2)) =
               keysOf (conversations (storage w')) @ [currentIds_conversations (storage w')] \<and>
             map telegramUserId (Map_values (conversations (storage w2))) =
               map telegramUserId (Map_values (conversations (storage w'))) @ [toString (id_tg f)]))"
proof -
  let ?tid = "toString (id_tg f)"
  have ok: "storageOk (storage w)" using assms(1) by (simp add: routerOk_def)
  note rec = handleUserDirectMessage_records[OF ok assms(2,4)]
  have nc: "getConversationByTelegramUserId (storage w) ?tid = None"
    using assms(1,3) by (rule no_conversation_without_user)
  have ok': "storageOk (storage w')" using handleUserDirectMessage_summary(1)[OF ok assms(4)] .
  have u': "getUserByTelegramId (storage w') ?tid \<noteq> None"
    unfolding getUserByTelegramId_def find_in_map using rec(2) assms(3) by simp
  have c': "getConversationByTelegramUserId (storage w') ?tid \<noteq> None" if "welcomeSent env"
    unfolding getConversationByTelegramUserId_def find_in_map using rec(4) that nc by simp
  have n': "getConversationByTelegramUserId (storage w') ?tid = None" if "\<not> welcomeSent env"
    using rec(5)[OF assms(3) that] nc by (simp add: getConversationByTelegramUserId_def)
  have again: "keysOf (users (storage w2)) = keysOf (users (storage w')) \<and>
          map telegramId (Map_values (users (storage w2))) =
            map telegramId (Map_values (users (storage w'))) \<and>
          filter isWelcome (botCalls w2) = filter isWelcome (botCalls w') \<and>
          (welcomeSent env \<longrightarrow>
             keysOf (conversations (storage w2)) = keysOf (conversations (storage w')) \<and>
             map telegramUserId (Map_values (conversations (storage w2))) =
               map telegramUserId (Map_values (conversations (storage w')))) \<and>
          (\<not> welcomeSent env \<longrightarrow>
             keysOf (conversations (storage w2)) =
               keysOf (conversations (storage w')) @ [currentIds_conversations (storage w')] \<and>
             map telegramUserId (Map_values (conversations (storage w2))) =
               map telegramUserId (Map_values (conversations (storage w'))) @ [?tid])"
    if h: "from_user m2 = Some f2 \<and> id_tg f2 = id_tg f \<and>
           handleUserDirectMessage env2 m2 w' = (r2, w2)" for env2 m2 f2 r2 w2
  proof -
    have f2: "from_user m2 = Some f2" and i2: "toString (id_tg f2) = ?tid"
      and run2: "handleUserDirectMessage env2 m2 w' = (r2, w2)"
      using h by simp_all
    note rec2 = handleUserDirectMessage_records[OF ok' f2 run2, unfolded i2]
    have known: "getUserByTelegramId (storage w') ?tid \<noteq> None \<or> welcomeSent env2"
      using u' by simp
    show ?thesis using rec2(1) rec2(2) rec2(3) rec2(4)[OF known] u' c' n' by auto
  qed
  have first: "keysOf (users (storage w')) = keysOf (users (storage w)) @ [currentIds_users (storage w)]"
    "map telegramId (Map_values (users (storage w'))) =
       map telegramId (Map_values (users (storage w))) @ [?tid]"
    "filter isWelcome (botCalls w') =
       filter isWelcome (botCalls w) @ [SendMessage (ChatNum (chat_id m)) welcomeText noOptions]"
    "chat_id m = id_tg f \<longrightarrow>
        filter isWelcome (botCalls w') =
          filter isWelcome (botCalls w) @ [SendMessage (ChatNum (id_tg f)) welcomeText noOptions]"
    "welcomeSent env \<longrightarrow>
        keysOf (conversations (storage w')) =
          keysOf (conversations (storage w)) @ [currentIds_conversations (storage w)] \<and>
        map telegramUserId (Map_values (conversations (storage w'))) =
          map telegramUserId (Map_values (conversations (storage w))) @ [?tid]"
    "\<not> welcomeSent env \<longrightarrow> r = Rejected \<and> conversations (storage w') = conversations (storage w)"
    using rec(1,2,3) rec(4) rec(5) assms(3) nc by auto
  show ?thesis
    using first again by blast
qed

text \<open>
  The claim as stated fails: Alice's first message arrives, the user is stored, the
  gateway rejects the welcome, and the event ends with no conversation. Her next message
  then creates the conversation.
\<close>

theorem welcome_rejected_no_conversation:
  "getUserByTelegramId (storage supportWorld) (toString (id_tg alice)) = None \<and>
   from_user (textMessage alice ''help'') = Some alice \<and>
   chat_id (textMessage alice ''help'') = id_tg alice \<and>
   fst (handleUserDirectMessage welcomeRefused (textMessage alice ''help'') supportWorld) = Rejected \<and>
   map telegramId (Map_values (users (storage
       (snd (handleUserDirectMessage welcomeRefused (textMessage alice ''help'') supportWorld))))) = [''111''] \<and>
   Map_values (conversations (storage
       (snd (handleUserDirectMessage welcomeRefused (textMessage alice ''help'') supportWorld)))) = [] \<and>
   filter isWelcome (botCalls
       (snd (handleUserDirectMessage welcomeRefused (textMessage alice ''help'') supportWorld))) =
     [SendMessage (ChatNum 111) welcomeText noOptions] \<and>
   map telegramUserId (Map_values (conversations (storage
       (snd (handleUserDirectMessage allGood (textMessage alice ''again'')
          (snd (handleUserDirectMessage welcomeRefused (textMessage alice ''help'') supportWorld))))))) =
     [''111'']"
  by (simp add: welcomeRefused_def sample_defs router_defs store_defs js_defs senderNameOf_def
        threadOptions_def boldPrefix_def parseInt_samples noOptions_def)

lemma threadedWorld_again:
  "keysOf (users (storage (snd (handleUserDirectMessage allGood (textMessage alice ''again'') threadedWorld)))) = [1]"
  "keysOf (conversations (storage (snd (handleUserDirectMessage allGood (textMessage alice ''again'') threadedWorld)))) = [1]"
  "filter isWelcome (botCalls (snd (handleUserDirectMessage allGood (textMessage alice ''again'') threadedWorld))) =
     [SendMessage (ChatNum 111) welcomeText noOptions]"
  by (simp_all add: sample_defs router_defs store_defs js_defs senderNameOf_def
        threadedWorld_storage threadedWorld_group threadedWorld_calls keysOf_def
        threadOptions_def boldPrefix_def parseInt_samples)

lemma unwelcomed_again:
  "keysOf (users (storage
     (snd (handleUserDirectMessage welcomeRefused (textMessage alice ''help'') supportWorld)))) = [1]"
  "keysOf (conversations (storage
     (snd (handleUserDirectMessage welcomeRefused (textMessage alice ''help'') supportWorld)))) = []"
  "keysOf (users (storage
     (snd (handleUserDirectMessage allGood (textMessage alice ''again'')
        (snd (handleUserDirectMessage welcomeRefused (textMessage alice ''help'') supportWorld)))))) = [1]"
  "keysOf (conversations (storage
     (snd (handleUserDirectMessage allGood (textMessage alice ''again'')
        (snd (handleUserDirectMessage welcomeRefused (textMessage alice ''help'') supportWorld)))))) = [1]"
  "filter isWelcome (botCalls
     (snd (handleUserDirectMessage allGood (textMessage alice ''again'')
        (snd (handleUserDirectMessage welcomeRefused (textMessage alice ''help'') supportWorld))))) =
     [SendMessage (ChatNum 111) welcomeText noOptions]"
  by (simp_all add: welcomeRefused_def sample_defs router_defs store_defs js_defs senderNameOf_def
        keysOf_def threadOptions_def boldPrefix_def parseInt_samples noOptions_def)

text \<open>
  Run on Alice's first message and her next one: once with every gateway call accepted,
  once with the welcome rejected.
\<close>

theorem new_user_welcomed_once_witness:
  "routerOk supportWorld \<and>
   from_user (textMessage alice ''help'') = Some alice \<and>
   chat_id (textMessage alice ''help'') = id_tg alice \<and>
   getUserByTelegramId (storage supportWorld) (toString (id_tg alice)) = None \<and>
   welcomeSent allGood \<and>
   keysOf (users (storage threadedWorld)) = [1] \<and>
   keysOf (conversations (storage threadedWorld)) = [1] \<and>
   filter isWelcome (botCalls threadedWorld) = [SendMessage (ChatNum 111) welcomeText noOptions] \<and>
   keysOf (users (storage (snd (handleUserDirectMessage allGood (textMessage alice ''again'') threadedWorld)))) = [1] \<and>
   keysOf (conversations (storage (snd (handleUserDirectMessage allGood (textMessage alice ''again'') threadedWorld)))) = [1] \<and>
   filter isWelcome (botCalls (snd (handleUserDirectMessage allGood (textMessage alice ''again'') threadedWorld))) =
     [SendMessage (ChatNum 111) welcomeText noOptions] \<and>
   \<not> welcomeSent welcomeRefused \<and>
   keysOf (users (storage
     (snd (handleUserDirectMessage welcomeRefused (textMessage alice ''help'') supportWorld)))) = [1] \<and>
   keysOf (conversations (storage
     (snd (handleUserDirectMessage welcomeRefused (textMessage alice ''help'') supportWorld)))) = [] \<and>
   keysOf (users (storage
     (snd (handleUserDirectMessage allGood (textMessage alice ''again'')
        (snd (handleUserDirectMessage welcomeRefused (textMessage alice ''help'') supportWorld)))))) = [1] \<and>
   keysOf (conversations (storage
     (snd (handleUserDirectMessage allGood (textMessage alice ''again'')
        (snd (handleUserDirectMessage welcomeRefused (textMessage alice ''help'') supportWorld)))))) = [1] \<and>
   filter isWelcome (botCalls
     (snd (handleUserDirectMessage allGood (textMessage alice ''again'')
        (snd (handleUserDirectMessage welcomeRefused (textMessage alice ''help'') supportWorld))))) =
     [SendMessage (ChatNum 111) welcomeText noOptions]"
proof -
  have a: "from_user (textMessage alice ''help'') = Some alice"
    and c: "chat_id (textMessage alice ''help'') = id_tg alice"
    by (simp_all add: textMessage_def)
  have n: "getUserByTelegramId (storage supportWorld) (toString (id_tg alice)) = None"
    by (simp add: supportWorld_def setSupportGroupId_def initialWorld_def MemStorage_new_def
          getUserByTelegramId_def Map_values_def)
  have t: "welcomeSent allGood" "\<not> welcomeSent welcomeRefused"
    by (simp_all add: allGood_def welcomeRefused_def)
  have run: "handleUserDirectMessage allGood (textMessage alice ''help'') supportWorld =
               (fst (handleUserDirectMessage allGood (textMessage alice ''help'') supportWorld),
                threadedWorld)"
    using threadedWorld_handler by (metis prod.collapse)
  have run': "handleUserDirectMessage welcomeRefused (textMessage alice ''help'') supportWorld =
               (fst (handleUserDirectMessage welcomeRefused (textMessage alice ''help'') supportWorld),
                snd (handleUserDirectMessage welcomeRefused (textMessage alice ''help'') supportWorld))"
    by simp
  have second: "from_user (textMessage alice ''again'') = Some alice \<and> id_tg alice = id_tg alice \<and>
        handleUserDirectMessage allGood (textMessage alice ''again'') w1 =
          (fst (handleUserDirectMessage allGood (textMessage alice ''again'') w1),
           snd (handleUserDirectMessage allGood (textMessage alice ''again'') w1))" for w1
    by (simp add: textMessage_def)
  note T = new_user_welcomed_once[OF routerOk_supportWorld a n run]
  note T' = new_user_welcomed_once[OF routerOk_supportWorld a n run']
  note S = T[THEN conjunct2, THEN conjunct2, THEN conjunct2, THEN conjunct2, THEN conjunct2,
             THEN conjunct2, rule_format, OF second]
  note S' = T'[THEN conjunct2, THEN conjunct2, THEN conjunct2, THEN conjunct2, THEN conjunct2,
             THEN conjunct2, rule_format, OF second]
  have k: "keysOf (users (storage threadedWorld)) = [1]"
    "keysOf (conversations (storage threadedWorld)) = [1]"
    by (simp_all add: threadedWorld_storage keysOf_def)
  show ?thesis
    using a c n t k routerOk_supportWorld threadedWorld_calls(2) threadedWorld_again
      unwelcomed_again T T' S S'
    by simp
qed

end
